(* ===== verification/Sito_Prelude.thy ===== *)
theory Sito_Prelude
  imports Main "HOL-Library.Sublist" "HOL-Library.List_Lexorder" "HOL-Library.Monad_Syntax"
    "HOL-Library.Code_Target_Numeral" "HOL-Library.Multiset"
begin

text \<open>
  Shared vocabulary of the development.

  A Rust \<^verbatim>\<open>char\<close> is a Unicode scalar value and is modelled by its code point, a natural
  number; a Rust \<^verbatim>\<open>String\<close> / \<^verbatim>\<open>&str\<close> is the list of its code points.  \<^verbatim>\<open>str::len\<close>
  counts UTF-8 bytes and is \<open>str_len\<close> below.  The order on lists from the library theory
  List_Lexorder is the lexicographic order on code points, which is the byte order of UTF-8, hence
  the order \<^verbatim>\<open>Ord for str\<close>.  Unsigned machine integers are natural numbers; a narrowing
  \<^verbatim>\<open>as u32\<close> is written out as \<open>as_u32\<close>.

  The theory defines the string routines of the Rust standard library that the modelled code
  calls, and proves the facts about them that the components share: everything the
  components need of strings goes through the lemmas collected in \<open>str_simps\<close>.
\<close>

named_theorems str_simps \<open>equations for the string routines of the standard library\<close>
named_theorems lit_simps \<open>evaluation of string literals to code points\<close>

type_synonym rchar = nat
type_synonym rstr = "nat list"
type_synonym 'a rvec = "'a list"


section \<open>Literals, machine integers, indexing\<close>

abbreviation (input) cc :: "char \<Rightarrow> rchar" where
  "cc c \<equiv> of_char c"

definition lit :: "string \<Rightarrow> rstr" where
  [lit_simps]: "lit s = map of_char s"

definition as_u32 :: "nat \<Rightarrow> nat" where
  "as_u32 n = n mod 4294967296"

definition u32_max :: nat where
  [simp]: "u32_max = 4294967295"

definition u64_max :: nat where
  [simp]: "u64_max = 18446744073709551615"

text \<open>Indexing that panics out of range: \<open>None\<close> is the panic.\<close>

definition idx :: "'a list \<Rightarrow> nat \<Rightarrow> 'a option" where
  "idx xs i = (if i < length xs then Some (xs ! i) else None)"

text \<open>\<^verbatim>\<open>iter().copied().min()\<close>\<close>

fun list_min :: "nat list \<Rightarrow> nat option" where
  "list_min [] = None"
| "list_min (x # xs) = (case list_min xs of None \<Rightarrow> Some x | Some m \<Rightarrow> Some (min x m))"

text \<open>\<^verbatim>\<open>u64::saturating_mul\<close>, \<^verbatim>\<open>usize::saturating_mul\<close> on a 64-bit target\<close>

definition sat_mul64 :: "nat \<Rightarrow> nat \<Rightarrow> nat" where
  "sat_mul64 a b = min u64_max (a * b)"

lemma as_u32_id [simp]: "n < 4294967296 \<Longrightarrow> as_u32 n = n"
  by (simp add: as_u32_def)

lemma as_u32_less [simp]: "as_u32 n < 4294967296"
  by (simp add: as_u32_def)

lemma idx_Some_iff: "idx xs i = Some x \<longleftrightarrow> i < length xs \<and> xs ! i = x"
  by (auto simp: idx_def)

lemma idx_None_iff: "idx xs i = None \<longleftrightarrow> length xs \<le> i"
  by (auto simp: idx_def)

lemma map_fix_iff: "map f xs = xs \<longleftrightarrow> (\<forall>x\<in>set xs. f x = x)"
  by (induction xs) auto

lemma list_min_None_iff [simp]: "list_min xs = None \<longleftrightarrow> xs = []"
  by (cases xs) (auto split: option.splits)

lemma list_min_Some: "list_min xs = Some m \<Longrightarrow> m \<in> set xs \<and> (\<forall>x\<in>set xs. m \<le> x)"
proof (induction xs arbitrary: m)
  case Nil
  then show ?case by simp
next
  case (Cons x xs)
  then show ?case
  proof (cases "list_min xs")
    case None
    with Cons.prems show ?thesis by simp
  next
    case (Some k)
    with Cons.IH [of k] Cons.prems show ?thesis
      by (auto simp: min_def split: if_splits)
  qed
qed


section \<open>Characters\<close>

definition is_ascii :: "rchar \<Rightarrow> bool" where
  "is_ascii c \<longleftrightarrow> c < 128"

text \<open>\<^verbatim>\<open>char::len_utf8\<close>\<close>

definition len_utf8 :: "rchar \<Rightarrow> nat" where
  "len_utf8 c = (if c < 128 then 1 else if c < 2048 then 2 else if c < 65536 then 3 else 4)"

definition str_len :: "rstr \<Rightarrow> nat" where
  "str_len s = sum_list (map len_utf8 s)"

text \<open>\<^verbatim>\<open>str::as_bytes\<close>\<close>

definition utf8 :: "rchar \<Rightarrow> nat list" where
  "utf8 c =
     (if c < 128 then [c]
      else if c < 2048 then [192 + c div 64, 128 + c mod 64]
      else if c < 65536 then [224 + c div 4096, 128 + c div 64 mod 64, 128 + c mod 64]
      else [240 + c div 262144, 128 + c div 4096 mod 64, 128 + c div 64 mod 64, 128 + c mod 64])"

definition as_bytes :: "rstr \<Rightarrow> nat list" where
  "as_bytes s = concat (map utf8 s)"

definition lower :: "rchar \<Rightarrow> rchar" where
  "lower c = (if 65 \<le> c \<and> c \<le> 90 then c + 32 else c)"

definition upper :: "rchar \<Rightarrow> rchar" where
  "upper c = (if 97 \<le> c \<and> c \<le> 122 then c - 32 else c)"

definition to_ascii_lowercase :: "rstr \<Rightarrow> rstr" where
  "to_ascii_lowercase s = map lower s"

definition to_ascii_uppercase :: "rstr \<Rightarrow> rstr" where
  "to_ascii_uppercase s = map upper s"

definition eq_ignore_ascii_case :: "rstr \<Rightarrow> rstr \<Rightarrow> bool" where
  "eq_ignore_ascii_case s t \<longleftrightarrow> to_ascii_lowercase s = to_ascii_lowercase t"

definition is_ascii_digit :: "rchar \<Rightarrow> bool" where
  "is_ascii_digit c \<longleftrightarrow> 48 \<le> c \<and> c \<le> 57"

definition is_ascii_alphanumeric :: "rchar \<Rightarrow> bool" where
  "is_ascii_alphanumeric c \<longleftrightarrow>
     is_ascii_digit c \<or> (65 \<le> c \<and> c \<le> 90) \<or> (97 \<le> c \<and> c \<le> 122)"

text \<open>\<^verbatim>\<open>char::is_whitespace\<close>: the Unicode property White\_Space.\<close>

definition is_whitespace :: "rchar \<Rightarrow> bool" where
  "is_whitespace c \<longleftrightarrow>
     (9 \<le> c \<and> c \<le> 13) \<or> c = 32 \<or> c = 133 \<or> c = 160 \<or> c = 5760 \<or>
     (8192 \<le> c \<and> c \<le> 8202) \<or> c = 8232 \<or> c = 8233 \<or> c = 8239 \<or> c = 8287 \<or> c = 12288"

lemma lower_idem [simp]: "lower (lower c) = lower c"
  by (simp add: lower_def)

lemma is_ascii_lower [simp]: "is_ascii (lower c) = is_ascii c"
  by (simp add: is_ascii_def lower_def)

lemma is_whitespace_lower [simp]: "is_whitespace (lower c) = is_whitespace c"
  by (auto simp: is_whitespace_def lower_def)

lemma lower_eq_nonletter:
  "\<not> (97 \<le> d \<and> d \<le> 122) \<Longrightarrow> \<not> (65 \<le> d \<and> d \<le> 90) \<Longrightarrow> (lower c = d) = (c = d)"
  by (auto simp: lower_def)

lemma lower_dot [simp]: "(lower c = 46) = (c = 46)"
  by (rule lower_eq_nonletter) auto

lemma to_ascii_lowercase_idem [simp]: "to_ascii_lowercase (to_ascii_lowercase s) = to_ascii_lowercase s"
  by (simp add: to_ascii_lowercase_def)

lemma to_ascii_lowercase_simps [simp]:
  "to_ascii_lowercase [] = []"
  "to_ascii_lowercase (c # s) = lower c # to_ascii_lowercase s"
  "to_ascii_lowercase (s @ t) = to_ascii_lowercase s @ to_ascii_lowercase t"
  "length (to_ascii_lowercase s) = length s"
  "(to_ascii_lowercase s = []) = (s = [])"
  by (simp_all add: to_ascii_lowercase_def)

lemma len_utf8_pos [simp]: "0 < len_utf8 c"
  by (simp add: len_utf8_def)

lemma str_len_simps [simp]:
  "str_len [] = 0"
  "str_len (c # s) = len_utf8 c + str_len s"
  "str_len (s @ t) = str_len s + str_len t"
  by (simp_all add: str_len_def)

lemma str_len_ascii: "(\<forall>c\<in>set s. is_ascii c) \<Longrightarrow> str_len s = length s"
  by (induction s) (auto simp: is_ascii_def len_utf8_def)

lemma str_len_0_iff [simp]: "str_len s = 0 \<longleftrightarrow> s = []"
  by (cases s) (auto simp: len_utf8_def)

lemma length_le_str_len: "length s \<le> str_len s"
proof (induction s)
  case (Cons c s)
  then show ?case using len_utf8_pos [of c] by (simp del: len_utf8_pos)
qed simp

lemma str_len_lower [simp]: "str_len (to_ascii_lowercase s) = str_len s"
  by (induction s) (auto simp: len_utf8_def lower_def)


section \<open>Trimming, prefixes and suffixes\<close>

definition trim_start :: "rstr \<Rightarrow> rstr" where
  "trim_start s = dropWhile is_whitespace s"

definition trim_end :: "rstr \<Rightarrow> rstr" where
  "trim_end s = rev (dropWhile is_whitespace (rev s))"

definition trim :: "rstr \<Rightarrow> rstr" where
  "trim s = trim_end (trim_start s)"

definition trim_end_matches :: "rchar \<Rightarrow> rstr \<Rightarrow> rstr" where
  "trim_end_matches d s = rev (dropWhile (\<lambda>c. c = d) (rev s))"

definition strip_prefix :: "rstr \<Rightarrow> rstr \<Rightarrow> rstr option" where
  "strip_prefix p s = (if prefix p s then Some (drop (length p) s) else None)"

definition strip_suffix :: "rstr \<Rightarrow> rstr \<Rightarrow> rstr option" where
  "strip_suffix p s = (if suffix p s then Some (take (length s - length p) s) else None)"

text \<open>\<^verbatim>\<open>s.strip_suffix(c).unwrap_or(s)\<close>\<close>

definition strip_suffix_or :: "rstr \<Rightarrow> rstr \<Rightarrow> rstr" where
  "strip_suffix_or p s = (case strip_suffix p s of None \<Rightarrow> s | Some t \<Rightarrow> t)"

definition contains_char :: "rchar \<Rightarrow> rstr \<Rightarrow> bool" where
  "contains_char c s \<longleftrightarrow> c \<in> set s"

lemma strip_prefix_Some: "strip_prefix p s = Some t \<longleftrightarrow> s = p @ t"
  by (auto simp: strip_prefix_def prefix_def)

lemma strip_suffix_Some: "strip_suffix p s = Some t \<longleftrightarrow> s = t @ p"
  by (auto simp: strip_suffix_def suffix_def)

lemma strip_suffix_None: "strip_suffix p s = None \<longleftrightarrow> \<not> suffix p s"
  by (simp add: strip_suffix_def)

lemma strip_suffix_or_cases:
  obtains (stripped) "s = strip_suffix_or p s @ p" | (kept) "\<not> suffix p s" "strip_suffix_or p s = s"
proof (cases "strip_suffix p s")
  case None
  then show ?thesis
    using kept by (simp add: strip_suffix_or_def strip_suffix_def split: if_splits)
next
  case (Some t)
  then have "strip_suffix_or p s = t" by (simp add: strip_suffix_or_def)
  moreover from Some have "s = t @ p" by (simp add: strip_suffix_Some)
  ultimately show ?thesis using stripped by simp
qed

lemma dropWhile_idem [simp]: "dropWhile P (dropWhile P xs) = dropWhile P xs"
  by (induction xs) auto

lemma dropWhile_id: "xs = [] \<or> \<not> P (hd xs) \<Longrightarrow> dropWhile P xs = xs"
  by (cases xs) auto

lemma trim_id:
  assumes "s = [] \<or> (\<not> is_whitespace (hd s) \<and> \<not> is_whitespace (last s))"
  shows "trim s = s"
  using assms
  by (cases "s = []") (simp_all add: trim_def trim_start_def trim_end_def dropWhile_id hd_rev)

lemma trim_end_append_ws:
  "trim_end s = s \<or> (\<exists>t. s = trim_end s @ t \<and> (\<forall>c\<in>set t. is_whitespace c))"
proof -
  have "s = trim_end s @ rev (takeWhile is_whitespace (rev s))"
    unfolding trim_end_def by (metis rev_append rev_rev_ident takeWhile_dropWhile_id)
  moreover have "\<forall>c\<in>set (rev (takeWhile is_whitespace (rev s))). is_whitespace c"
    by (auto dest: set_takeWhileD)
  ultimately show ?thesis by blast
qed

lemma trim_end_ends: "trim_end s \<noteq> [] \<Longrightarrow> \<not> is_whitespace (last (trim_end s))"
  unfolding trim_end_def by (metis hd_dropWhile last_rev rev_is_Nil_conv)

lemma set_trim_subset: "set (trim s) \<subseteq> set s"
  by (auto simp: trim_def trim_start_def trim_end_def dest!: set_dropWhileD)

lemma trim_starts: "trim s \<noteq> [] \<Longrightarrow> \<not> is_whitespace (hd (trim s))"
proof -
  assume ne: "trim s \<noteq> []"
  have "prefix (trim s) (trim_start s)"
    using trim_end_append_ws [of "trim_start s"] by (auto simp: trim_def prefix_def)
  then have "hd (trim s) = hd (trim_start s)" and "trim_start s \<noteq> []"
    using ne by (auto simp: prefix_def)
  then show ?thesis
    using hd_dropWhile [of is_whitespace s] by (simp add: trim_start_def)
qed

lemma trim_idem [simp]: "trim (trim s) = trim s"
  by (rule trim_id) (auto simp: trim_starts, simp add: trim_def trim_end_ends)


section \<open>Splitting and joining\<close>

text \<open>\<^verbatim>\<open>str::split(c)\<close>: always at least one piece.\<close>

fun split_on :: "rchar \<Rightarrow> rstr \<Rightarrow> rstr list" where
  "split_on d [] = [[]]"
| "split_on d (c # s) =
     (if c = d then [] # split_on d s
      else (case split_on d s of [] \<Rightarrow> [[c]] | p # ps \<Rightarrow> (c # p) # ps))"

text \<open>\<^verbatim>\<open>slice::join(sep)\<close>\<close>

fun join :: "rstr \<Rightarrow> rstr list \<Rightarrow> rstr" where
  "join sep [] = []"
| "join sep [p] = p"
| "join sep (p # q # ps) = p @ sep @ join sep (q # ps)"

text \<open>\<^verbatim>\<open>str::split_once(c)\<close>\<close>

fun split_once :: "rchar \<Rightarrow> rstr \<Rightarrow> (rstr \<times> rstr) option" where
  "split_once d [] = None"
| "split_once d (c # s) =
     (if c = d then Some ([], s)
      else (case split_once d s of None \<Rightarrow> None | Some (a, b) \<Rightarrow> Some (c # a, b)))"

text \<open>\<^verbatim>\<open>str::splitn(n, c)\<close>\<close>

fun splitn :: "nat \<Rightarrow> rchar \<Rightarrow> rstr \<Rightarrow> rstr list" where
  "splitn 0 d s = []"
| "splitn (Suc 0) d s = [s]"
| "splitn (Suc (Suc n)) d s =
     (case split_once d s of None \<Rightarrow> [s] | Some (a, b) \<Rightarrow> a # splitn (Suc n) d b)"

text \<open>\<^verbatim>\<open>str::split_whitespace\<close>: maximal runs of non-whitespace.\<close>

fun split_ws_acc :: "rstr \<Rightarrow> rstr \<Rightarrow> rstr list" where
  "split_ws_acc acc [] = (if acc = [] then [] else [rev acc])"
| "split_ws_acc acc (c # s) =
     (if is_whitespace c
      then (if acc = [] then split_ws_acc [] s else rev acc # split_ws_acc [] s)
      else split_ws_acc (c # acc) s)"

definition split_whitespace :: "rstr \<Rightarrow> rstr list" where
  "split_whitespace s = split_ws_acc [] s"

text \<open>\<^verbatim>\<open>str::lines\<close>: the pieces ended by a line feed, each without one trailing carriage
  return, and the rest after the last line feed unless it is empty.\<close>

definition lines :: "rstr \<Rightarrow> rstr list" where
  "lines s =
     (let ps = split_on 10 s
      in map (strip_suffix_or [13]) (butlast ps) @ (if last ps = [] then [] else [last ps]))"

text \<open>\<^verbatim>\<open>str::find\<close> of a set of characters; the result splits the string.\<close>

fun break_at :: "(rchar \<Rightarrow> bool) \<Rightarrow> rstr \<Rightarrow> (rstr \<times> rstr) option" where
  "break_at P [] = None"
| "break_at P (c # s) =
     (if P c then Some ([], c # s)
      else (case break_at P s of None \<Rightarrow> None | Some (a, b) \<Rightarrow> Some (c # a, b)))"

lemma split_on_ne [simp]: "split_on d s \<noteq> []"
  by (induction s) (auto split: list.splits)

lemma split_on_no_sep: "p \<in> set (split_on d s) \<Longrightarrow> d \<notin> set p"
proof (induction s arbitrary: p)
  case Nil
  then show ?case by simp
next
  case (Cons c s)
  then show ?case
    by (cases "split_on d s") (auto split: if_splits)
qed

lemma set_split_on: "p \<in> set (split_on d s) \<Longrightarrow> c \<in> set p \<Longrightarrow> c \<in> set s"
proof (induction s arbitrary: p)
  case Nil
  then show ?case by simp
next
  case (Cons x s)
  then show ?case
    by (cases "split_on d s") (fastforce split: if_splits)+
qed

lemma join_split_on [simp]: "join [d] (split_on d s) = s"
proof (induction s)
  case Nil
  then show ?case by simp
next
  case (Cons c s)
  then show ?case
    by (cases "split_on d s" rule: list.exhaust; cases "tl (split_on d s)") auto
qed

lemma split_on_id: "d \<notin> set s \<Longrightarrow> split_on d s = [s]"
  by (induction s) auto

lemma split_on_append:
  "split_on d (p @ d # s) = split_on d p @ split_on d s"
proof (induction p)
  case Nil
  then show ?case by simp
next
  case (Cons c p)
  then show ?case
    by (cases "split_on d p") auto
qed

lemma split_on_join:
  assumes "ps \<noteq> []" and "\<forall>p\<in>set ps. d \<notin> set p"
  shows "split_on d (join [d] ps) = ps"
  using assms
proof (induction "[d]" ps rule: join.induct)
  case (3 p q ps)
  then have "split_on d (p @ d # join [d] (q # ps)) = [p] @ split_on d (join [d] (q # ps))"
    using split_on_append [of d p] split_on_id [of d p] by simp
  with 3 show ?case by simp
qed (auto simp: split_on_id)

lemma map_split_on_lower:
  assumes "lower d = d" and "\<And>c. (lower c = d) = (c = d)"
  shows "split_on d (to_ascii_lowercase s) = map to_ascii_lowercase (split_on d s)"
proof (induction s)
  case Nil
  then show ?case by simp
next
  case (Cons c s)
  show ?case
  proof (cases "c = d")
    case True
    then show ?thesis using Cons assms(1) by simp
  next
    case False
    then have "lower c \<noteq> d" by (simp add: assms(2))
    with False Cons show ?thesis
      by (cases "split_on d s") simp_all
  qed
qed

lemma split_once_append: "d \<notin> set a \<Longrightarrow> split_once d (a @ d # b) = Some (a, b)"
  by (induction a) auto

lemma split_once_Some:
  "split_once d s = Some (a, b) \<longleftrightarrow> s = a @ d # b \<and> d \<notin> set a"
proof
  show "split_once d s = Some (a, b) \<Longrightarrow> s = a @ d # b \<and> d \<notin> set a"
    by (induction s arbitrary: a b) (auto split: if_splits option.splits)
qed (auto simp: split_once_append)

lemma split_once_None: "split_once d s = None \<longleftrightarrow> d \<notin> set s"
  by (induction s) (auto split: option.splits)

lemma break_at_Some:
  "break_at P s = Some (a, b) \<Longrightarrow> s = a @ b \<and> b \<noteq> [] \<and> P (hd b) \<and> (\<forall>c\<in>set a. \<not> P c)"
  by (induction s arbitrary: a b) (auto split: if_splits option.splits)

lemma break_at_None: "break_at P s = None \<longleftrightarrow> (\<forall>c\<in>set s. \<not> P c)"
  by (induction s) (auto split: option.splits)

lemmas split_on_facts = split_on_ne split_on_no_sep set_split_on join_split_on


section \<open>Numbers as text\<close>

definition digit_val :: "nat \<Rightarrow> rchar \<Rightarrow> nat option" where
  "digit_val radix c =
     (let v = (if 48 \<le> c \<and> c \<le> 57 then Some (c - 48)
               else if 97 \<le> c \<and> c \<le> 122 then Some (c - 87)
               else if 65 \<le> c \<and> c \<le> 90 then Some (c - 55) else None)
      in case v of None \<Rightarrow> None | Some k \<Rightarrow> if k < radix then Some k else None)"

fun digits_val :: "nat \<Rightarrow> nat \<Rightarrow> rstr \<Rightarrow> nat option" where
  "digits_val radix acc [] = Some acc"
| "digits_val radix acc (c # s) =
     (case digit_val radix c of None \<Rightarrow> None | Some k \<Rightarrow> digits_val radix (acc * radix + k) s)"

text \<open>\<^verbatim>\<open>str::parse::<uN>()\<close>: an optional leading plus sign, at least one digit, no overflow.\<close>

definition parse_uint :: "nat \<Rightarrow> rstr \<Rightarrow> nat option" where
  "parse_uint bound s =
     (let t = (case s of c # u \<Rightarrow> if c = cc CHR ''+'' \<and> u \<noteq> [] then u else s | [] \<Rightarrow> s)
      in if t = [] then None
         else (case digits_val 10 0 t of None \<Rightarrow> None
               | Some v \<Rightarrow> if v < bound then Some v else None))"

definition digit_char :: "nat \<Rightarrow> rchar" where
  "digit_char k = (if k < 10 then 48 + k else 87 + k)"

fun show_radix :: "nat \<Rightarrow> nat \<Rightarrow> rstr" where
  "show_radix radix n =
     (if radix < 2 \<or> n < radix then [digit_char n]
      else show_radix radix (n div radix) @ [digit_char (n mod radix)])"

declare show_radix.simps [simp del]

abbreviation show_nat :: "nat \<Rightarrow> rstr" where
  "show_nat \<equiv> show_radix 10"

lemma digits_val_append:
  "digits_val r acc (s @ t) =
     (case digits_val r acc s of None \<Rightarrow> None | Some v \<Rightarrow> digits_val r v t)"
  by (induction s arbitrary: acc) (auto split: option.splits)

lemma digit_val_digit_char: "k < r \<Longrightarrow> r \<le> 16 \<Longrightarrow> digit_val r (digit_char k) = Some k"
  by (auto simp: digit_val_def digit_char_def)

lemma show_radix_ne [simp]: "show_radix r n \<noteq> []"
  by (subst show_radix.simps) simp

text \<open>Printing a number and reading it back gives the number.\<close>

lemma digits_val_show_radix:
  assumes "2 \<le> r" and "r \<le> 16"
  shows "digits_val r 0 (show_radix r n) = Some n"
  using assms
proof (induction r n rule: show_radix.induct)
  case (1 r n)
  show ?case
  proof (cases "r < 2 \<or> n < r")
    case True
    then show ?thesis
      using "1.prems" by (subst show_radix.simps) (auto simp: digit_val_digit_char)
  next
    case False
    then show ?thesis
      using 1
      by (subst show_radix.simps)
        (simp add: digits_val_append digit_val_digit_char mult.commute)
  qed
qed

lemma digit_val_bounds: "digit_val r c = Some k \<Longrightarrow> k < r"
  by (auto simp: digit_val_def Let_def split: option.splits if_splits)

end
