(* ===== verification/Arena_Trie.thy ===== *)
theory Arena_Trie
  imports Sito_Prelude
begin

text \<open>
  Tries stored in an arena: a vector of nodes that refer to their children by index, as both
  tries of \<^verbatim>\<open>sito-filter/src/structures/trie.rs\<close> are.  The locale \<open>arena_trie\<close> is the
  interface a node representation offers (find a child, add a child, read and extend the rule
  ids); its laws are what a hash map and a sorted vector of children have in common.  Inside it
  the insertion loop and the lookup walk are proved correct once: an arena represents a map
  from paths to lists of rule ids (\<open>ids_at\<close>), insertion appends to one path and leaves
  every other path alone, and the walk reads exactly the paths that are prefixes of the key.
  Indexing is checked: \<open>None\<close> is a panic, and the results below show that none happens.
\<close>

section \<open>The generic loops\<close>

text \<open>Walk down from node \<open>i\<close>, creating the children that are missing.\<close>

fun arena_insert ::
  "('n \<Rightarrow> 'k \<Rightarrow> nat option) \<Rightarrow> ('k \<Rightarrow> nat \<Rightarrow> 'n \<Rightarrow> 'n) \<Rightarrow> 'n \<Rightarrow>
   'n list \<Rightarrow> nat \<Rightarrow> 'k list \<Rightarrow> ('n list \<times> nat) option" where
  "arena_insert child add_child fresh nodes i [] = Some (nodes, i)"
| "arena_insert child add_child fresh nodes i (k # ks) =
     (case idx nodes i of
        None \<Rightarrow> None
      | Some n \<Rightarrow>
          (case child n k of
             Some j \<Rightarrow> arena_insert child add_child fresh nodes j ks
           | None \<Rightarrow>
               (let j = as_u32 (length nodes)
                in arena_insert child add_child fresh
                     ((nodes @ [fresh])[i := add_child k j n]) j ks)))"

text \<open>The rule id lists of the nodes visited on the way down from node \<open>i\<close>.\<close>

fun arena_collect ::
  "('n \<Rightarrow> 'k \<Rightarrow> nat option) \<Rightarrow> ('n \<Rightarrow> nat list) \<Rightarrow> 'n list \<Rightarrow> nat \<Rightarrow> 'k list \<Rightarrow> nat list list option" where
  "arena_collect child ids nodes i [] = Some []"
| "arena_collect child ids nodes i (k # ks) =
     (case idx nodes i of
        None \<Rightarrow> None
      | Some n \<Rightarrow>
          (case child n k of
             None \<Rightarrow> Some []
           | Some j \<Rightarrow>
               (case idx nodes j of
                  None \<Rightarrow> None
                | Some m \<Rightarrow>
                    map_option (\<lambda>gs. ids m # gs) (arena_collect child ids nodes j ks))))"

fun walk :: "('n \<Rightarrow> 'k \<Rightarrow> nat option) \<Rightarrow> 'n list \<Rightarrow> nat \<Rightarrow> 'k list \<Rightarrow> nat option" where
  "walk child nodes i [] = (if i < length nodes then Some i else None)"
| "walk child nodes i (k # ks) =
     (case idx nodes i of
        None \<Rightarrow> None
      | Some n \<Rightarrow> (case child n k of None \<Rightarrow> None | Some j \<Rightarrow> walk child nodes j ks))"

definition ids_at :: "('n \<Rightarrow> 'k \<Rightarrow> nat option) \<Rightarrow> ('n \<Rightarrow> nat list) \<Rightarrow> 'n list \<Rightarrow> 'k list \<Rightarrow> nat list" where
  "ids_at child ids nodes q =
     (case walk child nodes 0 q of None \<Rightarrow> [] | Some i \<Rightarrow> ids (nodes ! i))"

text \<open>Every edge leads to a later-created node inside the arena, and no two edges lead to the
  same node: the arena is a tree rooted at node 0.\<close>

definition arena_inv :: "('n \<Rightarrow> 'k \<Rightarrow> nat option) \<Rightarrow> ('n \<Rightarrow> bool) \<Rightarrow> 'n list \<Rightarrow> bool" where
  "arena_inv child node_ok nodes \<longleftrightarrow>
     nodes \<noteq> [] \<and> (\<forall>n\<in>set nodes. node_ok n) \<and>
     (\<forall>i k j. i < length nodes \<longrightarrow> child (nodes ! i) k = Some j \<longrightarrow> 0 < j \<and> j < length nodes) \<and>
     (\<forall>i k i' k' j. i < length nodes \<longrightarrow> i' < length nodes \<longrightarrow>
        child (nodes ! i) k = Some j \<longrightarrow> child (nodes ! i') k' = Some j \<longrightarrow> i = i' \<and> k = k')"

lemma arena_inv_facts:
  assumes "arena_inv child node_ok nodes"
  shows "nodes \<noteq> []" and "i < length nodes \<Longrightarrow> node_ok (nodes ! i)"
    and "i < length nodes \<Longrightarrow> child (nodes ! i) k = Some j \<Longrightarrow> 0 < j"
    and "i < length nodes \<Longrightarrow> child (nodes ! i) k = Some j \<Longrightarrow> j < length nodes"
    and "i < length nodes \<Longrightarrow> i' < length nodes \<Longrightarrow> child (nodes ! i) k = Some j \<Longrightarrow>
         child (nodes ! i') k' = Some j \<Longrightarrow> i = i' \<and> k = k'"
proof -
  have inv: "nodes \<noteq> []" "\<forall>n\<in>set nodes. node_ok n"
    "\<forall>i k j. i < length nodes \<longrightarrow> child (nodes ! i) k = Some j \<longrightarrow> 0 < j \<and> j < length nodes"
    "\<forall>i k i' k' j. i < length nodes \<longrightarrow> i' < length nodes \<longrightarrow>
        child (nodes ! i) k = Some j \<longrightarrow> child (nodes ! i') k' = Some j \<longrightarrow> i = i' \<and> k = k'"
    using assms unfolding arena_inv_def by blast+
  show "nodes \<noteq> []" by (rule inv(1))
  show "i < length nodes \<Longrightarrow> node_ok (nodes ! i)" using inv(2) nth_mem by blast
  show "i < length nodes \<Longrightarrow> child (nodes ! i) k = Some j \<Longrightarrow> 0 < j"
    and "i < length nodes \<Longrightarrow> child (nodes ! i) k = Some j \<Longrightarrow> j < length nodes"
    using inv(3) by blast+
  show "i < length nodes \<Longrightarrow> i' < length nodes \<Longrightarrow> child (nodes ! i) k = Some j \<Longrightarrow>
         child (nodes ! i') k' = Some j \<Longrightarrow> i = i' \<and> k = k'"
    using inv(4) by blast
qed

lemma walk_snoc:
  "walk child nodes i (q @ [k]) =
     (case walk child nodes i q of
        None \<Rightarrow> None
      | Some m \<Rightarrow> (case child (nodes ! m) k of
                    None \<Rightarrow> None | Some j \<Rightarrow> if j < length nodes then Some j else None))"
  by (induction q arbitrary: i) (auto simp: idx_def split: option.splits)

lemma walk_append:
  "walk child nodes i (p @ q) =
     (case walk child nodes i p of None \<Rightarrow> None | Some m \<Rightarrow> walk child nodes m q)"
proof (induction p arbitrary: i)
  case Nil
  then show ?case by (cases q) (auto simp: idx_def)
next
  case (Cons k p)
  then show ?case by (auto split: option.splits)
qed

lemma walk_less: "walk child nodes i q = Some m \<Longrightarrow> m < length nodes"
  by (induction q arbitrary: i) (auto split: if_splits option.splits)

lemma walk_inj:
  assumes "arena_inv child node_ok nodes"
  shows "walk child nodes 0 p = Some m \<Longrightarrow> walk child nodes 0 q = Some m \<Longrightarrow> p = q"
proof (induction p arbitrary: q m rule: rev_induct)
  case Nil
  then have "m = 0" by (simp split: if_splits)
  show ?case
  proof (cases q rule: rev_exhaust)
    case (snoc q' k)
    with Nil \<open>m = 0\<close> obtain l where "walk child nodes 0 q' = Some l" "child (nodes ! l) k = Some 0"
      by (auto simp: walk_snoc split: option.splits if_splits)
    then show ?thesis
      using arena_inv_facts(3) [OF assms] walk_less by fastforce
  qed simp
next
  case (snoc k p)
  from snoc.prems(1) obtain l where
    l: "walk child nodes 0 p = Some l" "child (nodes ! l) k = Some m"
    by (auto simp: walk_snoc split: option.splits if_splits)
  have "0 < m" using arena_inv_facts(3) [OF assms _ l(2)] walk_less [OF l(1)] by blast
  with snoc.prems(2) have "q \<noteq> []" by (auto split: if_splits)
  then obtain q' k' where q: "q = q' @ [k']" by (metis rev_exhaust)
  with snoc.prems(2) obtain l' where
    l': "walk child nodes 0 q' = Some l'" "child (nodes ! l') k' = Some m"
    by (auto simp: walk_snoc split: option.splits if_splits)
  from arena_inv_facts(5) [OF assms _ _ l(2) l'(2)] walk_less [OF l(1)] walk_less [OF l'(1)]
  have "l = l' \<and> k = k'" by blast
  with snoc.IH [OF l(1)] l' q show ?case by simp
qed


section \<open>The interface and the lemmas proved from it\<close>

locale arena_trie =
  fixes child :: "'n \<Rightarrow> 'k \<Rightarrow> nat option"
    and add_child :: "'k \<Rightarrow> nat \<Rightarrow> 'n \<Rightarrow> 'n"
    and ids :: "'n \<Rightarrow> nat list"
    and add_id :: "nat \<Rightarrow> 'n \<Rightarrow> 'n"
    and fresh :: "'n"
    and node_ok :: "'n \<Rightarrow> bool"
  assumes child_fresh: "child fresh k = None"
    and ids_fresh: "ids fresh = []"
    and ok_fresh: "node_ok fresh"
    and child_add_child:
      "node_ok n \<Longrightarrow> child n k = None \<Longrightarrow>
       child (add_child k j n) k' = (if k' = k then Some j else child n k')"
    and ids_add_child: "ids (add_child k j n) = ids n"
    and ok_add_child: "node_ok n \<Longrightarrow> child n k = None \<Longrightarrow> node_ok (add_child k j n)"
    and child_add_id: "child (add_id r n) k = child n k"
    and ids_add_id: "ids (add_id r n) = ids n @ [r]"
    and ok_add_id: "node_ok n \<Longrightarrow> node_ok (add_id r n)"
begin

lemma inv_empty: "arena_inv child node_ok [fresh]"
  by (auto simp: arena_inv_def child_fresh ok_fresh)

lemma ids_at_empty: "ids_at child ids [fresh] q = []"
  by (cases q) (auto simp: ids_at_def ids_fresh child_fresh idx_def)

text \<open>Creating one child: the new node is reached by the extended path only.\<close>

lemma grow_walk:
  assumes inv: "arena_inv child node_ok nodes" and wp: "walk child nodes 0 p = Some i"
    and nc: "child (nodes ! i) k = None"
  defines "nodes' \<equiv> (nodes @ [fresh])[i := add_child k (length nodes) (nodes ! i)]"
  shows "walk child nodes' 0 q = (if q = p @ [k] then Some (length nodes) else walk child nodes 0 q)"
proof (induction q rule: rev_induct)
  case Nil
  then show ?case using arena_inv_facts(1) [OF inv] by (simp add: nodes'_def)
next
  case (snoc x q)
  have i: "i < length nodes" using walk_less [OF wp] .
  have ok: "node_ok (nodes ! i)" using arena_inv_facts(2) [OF inv i] .
  have len: "length nodes' = Suc (length nodes)" by (simp add: nodes'_def)
  have last_node: "nodes' ! length nodes = fresh" using i by (simp add: nodes'_def)
  have nth: "nodes' ! m = (if m = i then add_child k (length nodes) (nodes ! i) else nodes ! m)"
    if "m < length nodes" for m using that i by (simp add: nodes'_def nth_append)
  have none: "walk child nodes 0 (p @ [k]) = None" using wp nc by (simp add: walk_snoc)
  note steps = walk_snoc [of child nodes' 0 q x] walk_snoc [of child nodes 0 q x]
  show ?case
  proof (cases "q = p @ [k]")
    case True
    then have "walk child nodes' 0 q = Some (length nodes)" using snoc by simp
    then have "walk child nodes' 0 (q @ [x]) = None"
      using steps(1) last_node by (simp add: child_fresh)
    moreover have "walk child nodes 0 (q @ [x]) = None" using steps(2) none True by simp
    ultimately show ?thesis using True by simp
  next
    case False
    then have same: "walk child nodes' 0 q = walk child nodes 0 q" using snoc by simp
    show ?thesis
    proof (cases "walk child nodes 0 q")
      case None
      with same wp show ?thesis unfolding steps by auto
    next
      case (Some m)
      have m: "m < length nodes" using walk_less [OF Some] .
      have "m = i \<longleftrightarrow> q = p" using walk_inj [OF inv Some, of p] wp Some by auto
      moreover have "j < length nodes" if "child (nodes ! m) x = Some j" for j
        using arena_inv_facts(4) [OF inv m that] .
      ultimately show ?thesis
        unfolding steps same Some using len nc nth [OF m] child_add_child [OF ok nc]
        by (auto simp: less_Suc_eq split: option.splits)
    qed
  qed
qed

lemma grow_inv:
  assumes inv: "arena_inv child node_ok nodes" and i: "i < length nodes"
    and nc: "child (nodes ! i) k = None"
  shows "arena_inv child node_ok ((nodes @ [fresh])[i := add_child k (length nodes) (nodes ! i)])"
    (is "arena_inv _ _ ?nodes'")
proof -
  have ok: "node_ok (nodes ! i)" using arena_inv_facts(2) [OF inv i] .
  have ch: "child (?nodes' ! m) x =
      (if m = length nodes then None
       else if m = i \<and> x = k then Some (length nodes) else child (nodes ! m) x)"
    if m: "m < Suc (length nodes)" for m x
  proof (cases "m = length nodes")
    case False
    with m have "?nodes' ! m = (if m = i then add_child k (length nodes) (nodes ! i) else nodes ! m)"
      using i by (simp add: list_update_append nth_append)
    then show ?thesis using False child_add_child [OF ok nc] nc by simp
  qed (use i in \<open>simp add: list_update_append nth_append child_fresh\<close>)
  have oks: "\<forall>n\<in>set ?nodes'. node_ok n"
    using inv ok_fresh ok_add_child [OF ok nc] set_update_subset_insert
    by (fastforce simp: arena_inv_def)
  have fresh_idx: "child (nodes ! m) x \<noteq> Some (length nodes)" if "m < length nodes" for m x
    using arena_inv_facts(4) [OF inv that] by blast
  show ?thesis
    unfolding arena_inv_def
  proof (intro conjI allI impI)
    show "?nodes' \<noteq> []" by simp
    show "\<forall>n\<in>set ?nodes'. node_ok n" by (rule oks)
  next
    fix m x j
    assume "m < length ?nodes'" and e: "child (?nodes' ! m) x = Some j"
    then have m: "m < Suc (length nodes)" by simp
    then show "0 < j" and "j < length ?nodes'"
      using e ch [OF m] i arena_inv_facts(3,4) [OF inv, of m x j]
      by (auto split: if_splits)
  next
    fix m x m' x' j
    assume "m < length ?nodes'" and "m' < length ?nodes'"
      and e: "child (?nodes' ! m) x = Some j" "child (?nodes' ! m') x' = Some j"
    then have m: "m < Suc (length nodes)" and m': "m' < Suc (length nodes)" by simp_all
    show "m = m'" and "x = x'"
      using e ch [OF m] ch [OF m'] m m' fresh_idx [of m x] fresh_idx [of m' x']
        arena_inv_facts(5) [OF inv, of m m' x j x']
      by (auto split: if_splits simp: less_Suc_eq)
  qed
qed

lemma grow_ids_at:
  assumes inv: "arena_inv child node_ok nodes" and wp: "walk child nodes 0 p = Some i"
    and nc: "child (nodes ! i) k = None"
  shows "ids_at child ids ((nodes @ [fresh])[i := add_child k (length nodes) (nodes ! i)]) q =
         ids_at child ids nodes q"
proof -
  have i: "i < length nodes" using walk_less [OF wp] .
  have none: "walk child nodes 0 (p @ [k]) = None" using wp nc by (simp add: walk_snoc)
  show ?thesis
    using i none walk_less [of child nodes 0 q]
    by (auto simp: ids_at_def grow_walk [OF inv wp nc] nth_append nth_list_update
        ids_fresh ids_add_child split: option.splits)
qed

text \<open>The insertion loop ends at the node of the key and changes no stored id list.\<close>

lemma insert_loop:
  assumes "arena_inv child node_ok nodes" and "walk child nodes 0 p = Some i"
    and "length nodes + length ks \<le> 4294967296"
  shows "\<exists>nodes' i'. arena_insert child add_child fresh nodes i ks = Some (nodes', i') \<and>
           arena_inv child node_ok nodes' \<and> walk child nodes' 0 (p @ ks) = Some i' \<and>
           (\<forall>q. ids_at child ids nodes' q = ids_at child ids nodes q) \<and>
           length nodes' \<le> length nodes + length ks"
  using assms
proof (induction ks arbitrary: nodes i p)
  case Nil
  then show ?case by simp
next
  case (Cons k ks)
  have i: "i < length nodes" using walk_less [OF Cons.prems(2)] .
  show ?case
  proof (cases "child (nodes ! i) k")
    case (Some j)
    then have "walk child nodes 0 (p @ [k]) = Some j"
      using Cons.prems(2) arena_inv_facts(4) [OF Cons.prems(1) i Some] by (simp add: walk_snoc)
    from Cons.IH [OF Cons.prems(1) this] Cons.prems(3) obtain nodes' i' where
      "arena_insert child add_child fresh nodes j ks = Some (nodes', i')"
      "arena_inv child node_ok nodes'" "walk child nodes' 0 (p @ k # ks) = Some i'"
      "\<forall>q. ids_at child ids nodes' q = ids_at child ids nodes q"
      "length nodes' \<le> length nodes + length ks"
      by auto
    with Some i show ?thesis by (auto simp: idx_def)
  next
    case None
    let ?nodes' = "(nodes @ [fresh])[i := add_child k (length nodes) (nodes ! i)]"
    have u32: "as_u32 (length nodes) = length nodes" using Cons.prems(3) by simp
    have "walk child ?nodes' 0 (p @ [k]) = Some (length nodes)"
      by (simp add: grow_walk [OF Cons.prems(1,2) None])
    from Cons.IH [OF grow_inv [OF Cons.prems(1) i None] this] Cons.prems(3)
    obtain nodes'' i'' where
      "arena_insert child add_child fresh ?nodes' (length nodes) ks = Some (nodes'', i'')"
      "arena_inv child node_ok nodes''" "walk child nodes'' 0 (p @ k # ks) = Some i''"
      "\<forall>q. ids_at child ids nodes'' q = ids_at child ids ?nodes' q"
      "length nodes'' \<le> length ?nodes' + length ks"
      by auto
    with None i u32 grow_ids_at [OF Cons.prems(1,2) None] show ?thesis
      by (auto simp: idx_def Let_def)
  qed
qed

text \<open>Storing an id at the node of a path.\<close>

lemma add_id_at:
  fixes r :: nat
  assumes inv: "arena_inv child node_ok nodes" and wp: "walk child nodes 0 p = Some i"
  defines "nodes' \<equiv> nodes[i := add_id r (nodes ! i)]"
  shows "arena_inv child node_ok nodes'"
    and "ids_at child ids nodes' q = ids_at child ids nodes q @ (if q = p then [r] else [])"
proof -
  have i: "i < length nodes" using walk_less [OF wp] .
  have ch: "child (nodes' ! m) x = child (nodes ! m) x" for m x
    using i by (simp add: nodes'_def nth_list_update child_add_id)
  have len: "length nodes' = length nodes" by (simp add: nodes'_def)
  show inv': "arena_inv child node_ok nodes'"
    using inv ok_add_id [OF arena_inv_facts(2) [OF inv i]] set_update_subset_insert
    unfolding arena_inv_def ch by (fastforce simp: nodes'_def)
  have walk': "walk child nodes' m q = walk child nodes m q" for m q
    by (induction q arbitrary: m) (auto simp: idx_def ch len split: option.splits)
  show "ids_at child ids nodes' q = ids_at child ids nodes q @ (if q = p then [r] else [])"
  proof (cases "walk child nodes 0 q")
    case None
    with wp have "q \<noteq> p" by auto
    with None show ?thesis by (simp add: ids_at_def walk')
  next
    case (Some m)
    have "nodes' ! m = (if m = i then add_id r (nodes ! i) else nodes ! m)"
      using i by (simp add: nodes'_def)
    moreover have "m = i \<longleftrightarrow> q = p" using walk_inj [OF inv Some, of p] wp Some by auto
    ultimately show ?thesis using Some by (auto simp: ids_at_def walk' ids_add_id)
  qed
qed

text \<open>The walk collects the id lists of the non-empty prefixes of the key, shortest first.\<close>

lemma collect_from:
  assumes inv: "arena_inv child node_ok nodes" and "walk child nodes 0 p = Some i"
  shows "\<exists>gs. arena_collect child ids nodes i ks = Some gs \<and>
           filter (\<lambda>g. g \<noteq> []) gs =
           filter (\<lambda>g. g \<noteq> []) (map (\<lambda>q. ids_at child ids nodes (p @ q)) (tl (prefixes ks)))"
  using assms(2)
proof (induction ks arbitrary: i p)
  case Nil
  then show ?case by simp
next
  case (Cons k ks)
  have i: "i < length nodes" using walk_less [OF Cons.prems] .
  have head: "tl (prefixes (k # ks)) = [k] # map ((#) k) (tl (prefixes ks))"
    by (cases ks) simp_all
  show ?case
  proof (cases "child (nodes ! i) k")
    case None
    then have "walk child nodes 0 (p @ k # q) = None" for q
      using Cons.prems i by (simp add: walk_append idx_def)
    then have "filter (\<lambda>g. g \<noteq> []) (map (\<lambda>q. ids_at child ids nodes (p @ q)) (tl (prefixes (k # ks)))) = []"
      by (auto simp: ids_at_def filter_empty_conv)
    with None i show ?thesis by (simp add: idx_def)
  next
    case (Some j)
    then have j: "j < length nodes" and wj: "walk child nodes 0 (p @ [k]) = Some j"
      using Cons.prems i arena_inv_facts(4) [OF inv] by (auto simp: walk_snoc)
    from Cons.IH [OF wj] obtain gs where gs: "arena_collect child ids nodes j ks = Some gs"
      "filter (\<lambda>g. g \<noteq> []) gs =
       filter (\<lambda>g. g \<noteq> []) (map (\<lambda>q. ids_at child ids nodes (p @ k # q)) (tl (prefixes ks)))"
      by auto
    have "ids_at child ids nodes (p @ [k]) = ids (nodes ! j)" using wj by (simp add: ids_at_def)
    with gs Some i j show ?thesis
      unfolding head by (simp add: idx_def comp_def)
  qed
qed

lemma collect_root:
  assumes "arena_inv child node_ok nodes"
  shows "\<exists>gs. arena_collect child ids nodes 0 ks = Some gs \<and>
           filter (\<lambda>g. g \<noteq> []) gs =
           filter (\<lambda>g. g \<noteq> []) (map (ids_at child ids nodes) (tl (prefixes ks)))"
  using collect_from [OF assms, of "[]" 0 ks] arena_inv_facts(1) [OF assms] by simp

end

end
