(* ===== verification/Domain_Names.thy ===== *)
theory Domain_Names
  imports Sito_Prelude
begin

text \<open>
  Domain names: \<^verbatim>\<open>sito-core/src/domain.rs\<close> (suffix matching) and
  \<^verbatim>\<open>sito-proto/src/normalize.rs\<close> (validation and normalization), with the errors of
  \<^verbatim>\<open>sito-proto/src/error.rs\<close>.

  The crate \<^verbatim>\<open>idna\<close> is not part of the sources: the punycode decoder
  \<^verbatim>\<open>idna::punycode::decode_to_string\<close> is the parameter \<open>puny\<close>, and
  \<^verbatim>\<open>idna::domain_to_ascii\<close> the parameter \<open>to_ascii\<close>.
\<close>

type_synonym puny_decoder = "rstr \<Rightarrow> rstr option"


section \<open>Suffix matching\<close>

definition matches_domain_suffix :: "rstr \<Rightarrow> rstr \<Rightarrow> bool" where
  "matches_domain_suffix candidate sfx =
     (if sfx = [] then False
      else if candidate = sfx then True
      else str_len candidate > str_len sfx \<and> suffix sfx candidate
           \<and> candidate ! (length candidate - length sfx - 1) = cc CHR ''.'')"

definition matches_strict_subdomain :: "rstr \<Rightarrow> rstr \<Rightarrow> bool" where
  "matches_strict_subdomain candidate sfx \<longleftrightarrow>
     candidate \<noteq> sfx \<and> matches_domain_suffix candidate sfx"


section \<open>Normalization\<close>

datatype proto_error =
    InvalidIdn rstr
  | InvalidCharacter rstr rchar
  | DomainTooLong rstr nat
  | LabelTooLong rstr nat
  | EmptyLabel rstr
  | InvalidPunycode rstr rstr
  | DecodeError rstr
  | EncodeError rstr

definition host_char :: "rchar \<Rightarrow> bool" where
  "host_char ch \<longleftrightarrow> is_ascii_alphanumeric ch \<or> ch = cc CHR ''-'' \<or> ch = cc CHR ''_''"

text \<open>The checks of one label; \<open>None\<close> is no error.\<close>

definition check_label :: "puny_decoder \<Rightarrow> rstr \<Rightarrow> rstr \<Rightarrow> proto_error option" where
  "check_label puny raw label =
     (if label = [] then Some (EmptyLabel raw)
      else if str_len label > 63 then Some (LabelTooLong raw (str_len label))
      else case find (\<lambda>ch. \<not> host_char ch) label of
        Some ch \<Rightarrow> Some (InvalidCharacter raw ch)
      | None \<Rightarrow>
          (case strip_prefix (lit ''xn--'') label of
             None \<Rightarrow> None
           | Some punycode_part \<Rightarrow>
               if punycode_part = []
               then Some (InvalidPunycode label (lit ''empty punycode payload''))
               else if puny punycode_part = None
               then Some (InvalidPunycode label (lit ''failed to decode punycode''))
               else None))"

text \<open>The loop over the labels returns the first error.\<close>

fun check_labels :: "puny_decoder \<Rightarrow> rstr \<Rightarrow> rstr list \<Rightarrow> proto_error option" where
  "check_labels puny raw [] = None"
| "check_labels puny raw (l # ls) =
     (case check_label puny raw l of Some e \<Rightarrow> Some e | None \<Rightarrow> check_labels puny raw ls)"

definition normalize_domain :: "puny_decoder \<Rightarrow> rstr \<Rightarrow> proto_error + rstr" where
  "normalize_domain puny raw =
     (let trimmed = trim raw
      in if trimmed = [] then Inl (EmptyLabel raw)
         else if \<not> list_all is_ascii trimmed then Inl (InvalidIdn raw)
         else let without_trailing_dot = strip_suffix_or (lit ''.'') trimmed
              in if without_trailing_dot = [] then Inl (EmptyLabel raw)
                 else if str_len without_trailing_dot > 253
                 then Inl (DomainTooLong raw (str_len without_trailing_dot))
                 else let lowercase = to_ascii_lowercase without_trailing_dot
                      in case check_labels puny raw (split_on (cc CHR ''.'') lowercase) of
                           Some e \<Rightarrow> Inl e
                         | None \<Rightarrow> Inr lowercase)"

definition normalize_domain_or_idna ::
  "puny_decoder \<Rightarrow> (rstr \<Rightarrow> rstr option) \<Rightarrow> rstr \<Rightarrow> proto_error + rstr" where
  "normalize_domain_or_idna puny to_ascii raw =
     (case normalize_domain puny raw of
        Inr normalized \<Rightarrow> Inr normalized
      | Inl (InvalidIdn _) \<Rightarrow>
          (case to_ascii (trim raw) of
             None \<Rightarrow> Inl (InvalidIdn raw)
           | Some ascii \<Rightarrow> normalize_domain puny ascii)
      | Inl e \<Rightarrow> Inl e)"

text \<open>\<^verbatim>\<open>normalize_domain(..).ok()\<close>\<close>

definition normalize_ok :: "puny_decoder \<Rightarrow> rstr \<Rightarrow> rstr option" where
  "normalize_ok puny raw = (case normalize_domain puny raw of Inl _ \<Rightarrow> None | Inr d \<Rightarrow> Some d)"


section \<open>What a normalized name is\<close>

definition label_wf :: "puny_decoder \<Rightarrow> rstr \<Rightarrow> bool" where
  "label_wf puny l \<longleftrightarrow>
     l \<noteq> [] \<and> length l \<le> 63 \<and> list_all (\<lambda>c. host_char c \<and> lower c = c) l \<and>
     (\<forall>p. l = lit ''xn--'' @ p \<longrightarrow> p \<noteq> [] \<and> puny p \<noteq> None)"

definition domain_wf :: "puny_decoder \<Rightarrow> rstr \<Rightarrow> bool" where
  "domain_wf puny d \<longleftrightarrow> length d \<le> 253 \<and> list_all (label_wf puny) (split_on (cc CHR ''.'') d)"

lemma host_char_ascii: "host_char c \<Longrightarrow> is_ascii c"
  by (auto simp: host_char_def is_ascii_alphanumeric_def is_ascii_digit_def is_ascii_def)

lemma host_char_not_ws: "host_char c \<Longrightarrow> \<not> is_whitespace c"
  by (auto simp: host_char_def is_ascii_alphanumeric_def is_ascii_digit_def is_whitespace_def)

lemma host_char_not_dot: "host_char c \<Longrightarrow> c \<noteq> 46"
  by (auto simp: host_char_def is_ascii_alphanumeric_def is_ascii_digit_def)

lemmas host_char_facts = host_char_ascii host_char_not_ws host_char_not_dot

lemma check_label_None_iff:
  assumes "to_ascii_lowercase l = l"
  shows "check_label puny raw l = None \<longleftrightarrow> label_wf puny l"
proof -
  have low: "list_all (\<lambda>c. lower c = c) l"
    using assms by (simp add: to_ascii_lowercase_def list_all_iff map_fix_iff)
  have len: "list_all host_char l \<Longrightarrow> str_len l = length l"
    by (rule str_len_ascii) (auto simp: list_all_iff host_char_facts)
  have "find (\<lambda>ch. \<not> host_char ch) l = None \<longleftrightarrow> list_all host_char l"
    by (auto simp: find_None_iff list_all_iff)
  then show ?thesis
    using low len
    by (auto simp: check_label_def label_wf_def strip_prefix_def prefix_def list_all_iff
        split: option.splits)
qed

lemma check_labels_None_iff:
  "check_labels puny raw ls = None \<longleftrightarrow> list_all (\<lambda>l. check_label puny raw l = None) ls"
  by (induction ls) (auto split: option.splits)

lemma check_split_None_iff:
  assumes "to_ascii_lowercase d = d"
  shows "check_labels puny raw (split_on 46 d) = None \<longleftrightarrow> list_all (label_wf puny) (split_on 46 d)"
proof -
  have "map to_ascii_lowercase (split_on 46 d) = split_on 46 d"
    using map_split_on_lower [of 46 d] assms by (simp add: lower_def)
  then have "\<forall>l\<in>set (split_on 46 d). to_ascii_lowercase l = l"
    by (simp add: map_fix_iff)
  then show ?thesis
    by (auto simp: check_labels_None_iff list_all_iff check_label_None_iff)
qed

lemma domain_wf_chars:
  assumes "domain_wf puny d" and "c \<in> set d"
  shows "c = 46 \<or> (host_char c \<and> lower c = c)"
proof -
  have "set (join [46] ps) \<subseteq> insert 46 (\<Union>p\<in>set ps. set p)" for ps
    by (induction "[46::nat]" ps rule: join.induct) auto
  from this [of "split_on 46 d"] assms show ?thesis
    by (auto simp: domain_wf_def label_wf_def list_all_iff)
qed

lemma domain_wf_lower: "domain_wf puny d \<Longrightarrow> to_ascii_lowercase d = d"
  by (auto simp: to_ascii_lowercase_def lower_def intro!: map_idI dest!: domain_wf_chars)

lemma domain_wf_ne: "domain_wf puny d \<Longrightarrow> d \<noteq> []"
  by (auto simp: domain_wf_def label_wf_def)

lemma domain_wf_ascii: "domain_wf puny d \<Longrightarrow> list_all is_ascii d"
  by (auto simp: list_all_iff is_ascii_def dest!: domain_wf_chars host_char_ascii)

lemma domain_wf_no_trailing_dot: "domain_wf puny d \<Longrightarrow> \<not> suffix [46] d"
proof
  assume wf: "domain_wf puny d" and "suffix [46] d"
  then obtain p where "d = p @ 46 # []" by (auto simp: suffix_def)
  then have "[] \<in> set (split_on 46 d)" by (simp add: split_on_append)
  with wf show False by (auto simp: domain_wf_def label_wf_def list_all_iff)
qed

lemma domain_wf_trim: "domain_wf puny d \<Longrightarrow> trim d = d"
proof (rule trim_id)
  assume wf: "domain_wf puny d"
  have "\<not> is_whitespace c" if "c \<in> set d" for c
    using domain_wf_chars [OF wf that] host_char_not_ws by (auto simp: is_whitespace_def)
  then show "d = [] \<or> \<not> is_whitespace (hd d) \<and> \<not> is_whitespace (last d)"
    by (cases "d = []") auto
qed

lemma normalize_domain_wf_id:
  assumes "domain_wf puny d"
  shows "normalize_domain puny d = Inr d"
proof -
  have "str_len d = length d"
    using domain_wf_ascii [OF assms] by (intro str_len_ascii) (auto simp: list_all_iff)
  moreover have "strip_suffix_or [46] d = d"
    using domain_wf_no_trailing_dot [OF assms]
    by (simp add: strip_suffix_or_def strip_suffix_def)
  moreover have "check_labels puny d (split_on 46 d) = None"
    using assms domain_wf_lower [OF assms] by (simp add: check_split_None_iff domain_wf_def)
  moreover have "length d \<le> 253" using assms by (simp add: domain_wf_def)
  ultimately show ?thesis
    using domain_wf_ne [OF assms] domain_wf_ascii [OF assms] domain_wf_trim [OF assms]
      domain_wf_lower [OF assms]
    by (simp add: normalize_domain_def lit_simps)
qed

lemma normalize_domain_Inr:
  "normalize_domain puny raw = Inr d \<longleftrightarrow>
     list_all is_ascii (trim raw) \<and> domain_wf puny d \<and>
     d = to_ascii_lowercase (strip_suffix_or (lit ''.'') (trim raw))"
    (is "?l \<longleftrightarrow> ?r")
proof -
  let ?t = "strip_suffix_or [46] (trim raw)"
  have sub: "set ?t \<subseteq> set (trim raw)"
    by (rule strip_suffix_or_cases [of "trim raw" "[46]"]) (metis Un_iff set_append subsetI)+
  have len: "list_all is_ascii (trim raw) \<Longrightarrow> str_len ?t = length ?t"
    using sub by (intro str_len_ascii) (auto simp: list_all_iff)
  have emp: "trim raw = [] \<Longrightarrow> ?t = []"
    by (simp add: strip_suffix_or_def strip_suffix_def)
  have chk: "check_labels puny raw (split_on 46 (to_ascii_lowercase ?t)) = None \<longleftrightarrow>
      list_all (label_wf puny) (split_on 46 (to_ascii_lowercase ?t))"
    by (rule check_split_None_iff) simp
  show ?thesis
    using len emp chk
    by (auto simp: normalize_domain_def lit_simps Let_def domain_wf_def label_wf_def
        split: option.splits if_splits)
qed

lemma normalize_ok_Some: "normalize_ok puny raw = Some d \<longleftrightarrow> normalize_domain puny raw = Inr d"
  by (simp add: normalize_ok_def split: sum.splits)


section \<open>Suffix matching by labels\<close>

lemma join_append:
  "xs \<noteq> [] \<Longrightarrow> ys \<noteq> [] \<Longrightarrow> join sep (xs @ ys) = join sep xs @ sep @ join sep ys"
proof (induction xs)
  case (Cons x xs)
  then show ?case by (cases xs; cases ys) auto
qed simp

lemma suffix_split_iff:
  "suffix (split_on d s) (split_on d c) \<longleftrightarrow> c = s \<or> (\<exists>p. c = p @ d # s)"
proof
  assume "suffix (split_on d s) (split_on d c)"
  then obtain xs where xs: "split_on d c = xs @ split_on d s" by (auto simp: suffix_def)
  have "c = join [d] (xs @ split_on d s)" using xs join_split_on by metis
  then show "c = s \<or> (\<exists>p. c = p @ d # s)"
    by (cases "xs = []") (auto simp: join_append)
next
  assume "c = s \<or> (\<exists>p. c = p @ d # s)"
  then show "suffix (split_on d s) (split_on d c)"
    by (auto simp: split_on_append suffix_def)
qed

lemma matches_domain_suffix_iff:
  "matches_domain_suffix c s \<longleftrightarrow> s \<noteq> [] \<and> suffix (split_on 46 s) (split_on 46 c)"
proof -
  have "str_len c > str_len s \<and> suffix s c \<and> c ! (length c - length s - 1) = 46 \<longleftrightarrow>
      (\<exists>p. c = p @ 46 # s)" (is "?l = ?r")
  proof
    assume l: ?l
    then obtain q where q: "c = q @ s" by (auto simp: suffix_def)
    with l have "q \<noteq> []" by auto
    then obtain p x where "q = p @ [x]" by (metis rev_exhaust)
    with q l show ?r by (auto simp: nth_append)
  qed (auto simp: nth_append suffix_def len_utf8_def)
  then show ?thesis
    by (auto simp: matches_domain_suffix_def suffix_split_iff)
qed


section \<open>Properties\<close>

text \<open>C20: normalization accepts exactly the names whose trimmed form is
  ASCII and whose lower-cased form without one trailing dot has at most 253 characters and only
  well-formed labels (1 to 63 lower-case host characters, a decodable payload after
  \<^verbatim>\<open>xn--\<close>), and that form is the result.\<close>

theorem normalize_domain_accepts:
  "normalize_domain puny raw = Inr d \<longleftrightarrow>
     list_all is_ascii (trim raw) \<and> domain_wf puny d \<and>
     d = to_ascii_lowercase (strip_suffix_or (lit ''.'') (trim raw))"
  by (rule normalize_domain_Inr)

text \<open>Whatever the IDNA conversion does, a name that
  \<^verbatim>\<open>normalize_domain_or_idna\<close> returns is well formed and a fixed point of both normalization
  functions, so that configuration, lists and wire names normalized once agree.\<close>

lemma normalize_idempotent:
  assumes "normalize_domain_or_idna puny to_ascii raw = Inr d"
  shows "domain_wf puny d \<and> normalize_domain puny d = Inr d \<and>
         normalize_domain_or_idna puny to_ascii d = Inr d"
proof -
  have "\<exists>raw'. normalize_domain puny raw' = Inr d"
    using assms by (auto simp: normalize_domain_or_idna_def split: sum.splits proto_error.splits option.splits)
  then have "domain_wf puny d" by (auto simp: normalize_domain_Inr)
  with normalize_domain_wf_id [OF this] show ?thesis by (simp add: normalize_domain_or_idna_def)
qed

lemma normalize_idempotent_witness:
  "normalize_domain_or_idna (\<lambda>p. Some p) (\<lambda>s. Some (lit ''xn--mnchen-3ya.DE'')) [109, 252, 110, 46, 100, 101] =
     Inr (lit ''xn--mnchen-3ya.de'') \<and>
   normalize_domain_or_idna (\<lambda>p. Some p) (\<lambda>s. Some (lit ''xn--mnchen-3ya.DE'')) (lit ''xn--mnchen-3ya.de'') =
     Inr (lit ''xn--mnchen-3ya.de'')"
proof -
  have "normalize_domain_or_idna (\<lambda>p. Some p) (\<lambda>s. Some (lit ''xn--mnchen-3ya.DE'')) [109, 252, 110, 46, 100, 101] =
     Inr (lit ''xn--mnchen-3ya.de'')" by code_simp
  from normalize_idempotent [OF this] this show ?thesis by blast
qed

text \<open>The byte-level suffix test is the label-level one: it holds when the
  labels of the (non-empty) suffix are the last labels of the candidate; the strict variant
  holds when the candidate has at least one label more.\<close>

lemma domain_suffix_labels:
  "(matches_domain_suffix c s \<longleftrightarrow> s \<noteq> [] \<and> suffix (split_on (cc CHR ''.'') s) (split_on (cc CHR ''.'') c)) \<and>
   (matches_strict_subdomain c s \<longleftrightarrow>
      s \<noteq> [] \<and> strict_suffix (split_on (cc CHR ''.'') s) (split_on (cc CHR ''.'') c))"
proof -
  have "c = s \<longleftrightarrow> split_on 46 c = split_on 46 s" by (metis join_split_on)
  then show ?thesis
    by (auto simp: matches_strict_subdomain_def matches_domain_suffix_iff strict_suffix_def)
qed

end
