(* ===== verification/Label_Trie.thy ===== *)
theory Label_Trie
  imports Arena_Trie Domain_Names
begin

text \<open>
  The lookup structures of \<^verbatim>\<open>sito-filter/src/structures\<close>: the label interner
  (\<^verbatim>\<open>interner.rs\<close>), the character trie for start-anchored rules and the suffix trie over
  reversed labels (\<^verbatim>\<open>trie.rs\<close>).  Node indices and label ids are truncated to 32 bits as in
  the code; the theorems carry the bound under which nothing wraps.  Both node types are
  interpretations of the interface \<open>arena_trie\<close>, and the two lookup theorems say which
  rule ids a lookup returns, and in which order, as a function of what was inserted.
\<close>


section \<open>The label interner\<close>

record label_interner =
  li_labels :: "rstr list"
  li_map :: "rstr \<Rightarrow> nat option"

definition interner_new :: label_interner where
  "interner_new = \<lparr>li_labels = [], li_map = Map.empty\<rparr>"

definition intern :: "label_interner \<Rightarrow> rstr \<Rightarrow> nat \<times> label_interner" where
  "intern I label =
     (case li_map I label of
        Some i \<Rightarrow> (i, I)
      | None \<Rightarrow>
          (let i = as_u32 (length (li_labels I))
           in (i, I\<lparr>li_labels := li_labels I @ [label], li_map := (li_map I)(label \<mapsto> i)\<rparr>)))"

definition interner_lookup :: "label_interner \<Rightarrow> rstr \<Rightarrow> nat option" where
  "interner_lookup I label = li_map I label"

definition interner_get :: "label_interner \<Rightarrow> nat \<Rightarrow> rstr option" where
  "interner_get I i = idx (li_labels I) i"

definition interner_len :: "label_interner \<Rightarrow> nat" where
  "interner_len I = length (li_labels I)"

definition interner_is_empty :: "label_interner \<Rightarrow> bool" where
  "interner_is_empty I \<longleftrightarrow> li_labels I = []"


section \<open>The prefix trie\<close>

record prefix_node =
  pn_children :: "rchar \<Rightarrow> nat option"
  pn_rule_ids :: "nat list"

type_synonym prefix_trie = "prefix_node list"

definition prefix_node_default :: prefix_node where
  "prefix_node_default = \<lparr>pn_children = Map.empty, pn_rule_ids = []\<rparr>"

definition prefix_trie_new :: prefix_trie where
  "prefix_trie_new = [prefix_node_default]"

fun prefix_insert_loop :: "prefix_trie \<Rightarrow> nat \<Rightarrow> rstr \<Rightarrow> (prefix_trie \<times> nat) option" where
  "prefix_insert_loop nodes i [] = Some (nodes, i)"
| "prefix_insert_loop nodes i (c # cs) =
     (case idx nodes i of
        None \<Rightarrow> None
      | Some n \<Rightarrow>
          (case pn_children n c of
             Some j \<Rightarrow> prefix_insert_loop nodes j cs
           | None \<Rightarrow>
               (let j = as_u32 (length nodes)
                in prefix_insert_loop
                     ((nodes @ [prefix_node_default])
                        [i := n\<lparr>pn_children := (pn_children n)(c \<mapsto> j)\<rparr>]) j cs)))"

definition prefix_insert :: "prefix_trie \<Rightarrow> rstr \<Rightarrow> nat \<Rightarrow> prefix_trie option" where
  "prefix_insert nodes pre rule_id =
     (if pre = [] then Some nodes
      else do { (nodes', i) \<leftarrow> prefix_insert_loop nodes 0 pre;
                n \<leftarrow> idx nodes' i;
                Some (nodes'[i := n\<lparr>pn_rule_ids := pn_rule_ids n @ [rule_id]\<rparr>]) })"

fun prefix_match_loop :: "prefix_trie \<Rightarrow> nat \<Rightarrow> rstr \<Rightarrow> nat list list option" where
  "prefix_match_loop nodes i [] = Some []"
| "prefix_match_loop nodes i (c # cs) =
     (case idx nodes i of
        None \<Rightarrow> None
      | Some n \<Rightarrow>
          (case pn_children n c of
             None \<Rightarrow> Some []
           | Some j \<Rightarrow>
               (case idx nodes j of
                  None \<Rightarrow> None
                | Some m \<Rightarrow>
                    (case prefix_match_loop nodes j cs of
                       None \<Rightarrow> None
                     | Some matched \<Rightarrow>
                         Some (if pn_rule_ids m \<noteq> [] then pn_rule_ids m # matched else matched)))))"

text \<open>\<^verbatim>\<open>rules.iter().copied().min().unwrap_or(u32::MAX)\<close>\<close>

definition min_rule_id :: "nat list \<Rightarrow> nat" where
  "min_rule_id rules = (case list_min rules of None \<Rightarrow> u32_max | Some m \<Rightarrow> m)"

definition prefix_lookup_candidates :: "prefix_trie \<Rightarrow> rstr \<Rightarrow> nat list \<Rightarrow> nat list option" where
  "prefix_lookup_candidates nodes domain candidates =
     (if length nodes = 1 then Some candidates
      else (case prefix_match_loop nodes 0 domain of
              None \<Rightarrow> None
            | Some matched \<Rightarrow>
                (let sorted_groups =
                       (if length matched > 1 then sort_key min_rule_id matched else matched)
                 in Some (candidates @ concat sorted_groups))))"


section \<open>The suffix trie\<close>

record trie_node =
  tn_children :: "(nat \<times> nat) list"
  tn_rule_ids :: "nat list"

type_synonym suffix_trie = "trie_node list"

definition trie_node_default :: trie_node where
  "trie_node_default = \<lparr>tn_children = [], tn_rule_ids = []\<rparr>"

definition suffix_trie_new :: suffix_trie where
  "suffix_trie_new = [trie_node_default]"

text \<open>\<^verbatim>\<open>slice::binary_search_by_key\<close> on the half-open range from \<open>lo\<close> to \<open>hi\<close>:
  \<open>Inr\<close> is \<^verbatim>\<open>Ok(position)\<close>, \<open>Inl\<close> is \<^verbatim>\<open>Err(insert position)\<close>.\<close>

function bsearch :: "(nat \<times> 'b) list \<Rightarrow> nat \<Rightarrow> nat \<Rightarrow> nat \<Rightarrow> nat + nat" where
  "bsearch xs k lo hi =
     (if lo < hi
      then let mid = lo + (hi - lo) div 2
           in if fst (xs ! mid) = k then Inr mid
              else if fst (xs ! mid) < k then bsearch xs k (Suc mid) hi
              else bsearch xs k lo mid
      else Inl lo)"
  by pat_completeness auto
termination
  by (relation "measure (\<lambda>(xs, k, lo, hi). hi - lo)") auto

declare bsearch.simps [simp del]

definition binary_search_by_key :: "(nat \<times> 'b) list \<Rightarrow> nat \<Rightarrow> nat + nat" where
  "binary_search_by_key xs k = bsearch xs k 0 (length xs)"

text \<open>\<^verbatim>\<open>Vec::insert(position, value)\<close>\<close>

definition vec_insert :: "nat \<Rightarrow> 'a \<Rightarrow> 'a list \<Rightarrow> 'a list" where
  "vec_insert p x xs = take p xs @ x # drop p xs"

definition clean_domain :: "rstr \<Rightarrow> rstr" where
  "clean_domain domain = to_ascii_lowercase (trim_end_matches (cc CHR ''.'') (trim domain))"

fun suffix_insert_loop ::
  "suffix_trie \<Rightarrow> nat \<Rightarrow> rstr list \<Rightarrow> label_interner \<Rightarrow> (suffix_trie \<times> nat \<times> label_interner) option" where
  "suffix_insert_loop nodes i [] I = Some (nodes, i, I)"
| "suffix_insert_loop nodes i (label # labels) I =
     (let (label_id, I') = intern I label
      in case idx nodes i of
           None \<Rightarrow> None
         | Some n \<Rightarrow>
             (case binary_search_by_key (tn_children n) label_id of
                Inr pos \<Rightarrow> suffix_insert_loop nodes (snd (tn_children n ! pos)) labels I'
              | Inl insert_pos \<Rightarrow>
                  (let j = as_u32 (length nodes)
                   in suffix_insert_loop
                        ((nodes @ [trie_node_default])
                           [i := n\<lparr>tn_children := vec_insert insert_pos (label_id, j) (tn_children n)\<rparr>])
                        j labels I')))"

definition suffix_insert ::
  "suffix_trie \<Rightarrow> rstr \<Rightarrow> nat \<Rightarrow> label_interner \<Rightarrow> (suffix_trie \<times> label_interner) option" where
  "suffix_insert nodes domain rule_id I =
     (let clean = clean_domain domain
      in if clean = [] then Some (nodes, I)
         else do { (nodes', i, I') \<leftarrow>
                     suffix_insert_loop nodes 0 (rev (split_on (cc CHR ''.'') clean)) I;
                   n \<leftarrow> idx nodes' i;
                   Some (nodes'[i := n\<lparr>tn_rule_ids := tn_rule_ids n @ [rule_id]\<rparr>], I') })"

fun suffix_lookup_loop ::
  "suffix_trie \<Rightarrow> nat \<Rightarrow> rstr list \<Rightarrow> label_interner \<Rightarrow> nat list \<Rightarrow> nat list option" where
  "suffix_lookup_loop nodes i [] I candidates = Some candidates"
| "suffix_lookup_loop nodes i (label # labels) I candidates =
     (case interner_lookup I label of
        None \<Rightarrow> Some candidates
      | Some label_id \<Rightarrow>
          (case idx nodes i of
             None \<Rightarrow> None
           | Some n \<Rightarrow>
               (case binary_search_by_key (tn_children n) label_id of
                  Inl _ \<Rightarrow> Some candidates
                | Inr pos \<Rightarrow>
                    (let j = snd (tn_children n ! pos)
                     in case idx nodes j of
                          None \<Rightarrow> None
                        | Some m \<Rightarrow>
                            suffix_lookup_loop nodes j labels I
                              (if tn_rule_ids m \<noteq> [] then candidates @ tn_rule_ids m
                               else candidates)))))"

definition suffix_lookup_candidates ::
  "suffix_trie \<Rightarrow> rstr \<Rightarrow> label_interner \<Rightarrow> nat list \<Rightarrow> nat list option" where
  "suffix_lookup_candidates nodes domain I candidates =
     (let clean = clean_domain domain
      in if clean = [] then Some candidates
         else suffix_lookup_loop nodes 0 (rev (split_on (cc CHR ''.'') clean)) I candidates)"

text \<open>The loops of \<^verbatim>\<open>RuleSetBuilder::build_with_budget\<close> that fill the two tries.\<close>

fun suffix_insert_all ::
  "suffix_trie \<Rightarrow> (rstr \<times> nat) list \<Rightarrow> label_interner \<Rightarrow> (suffix_trie \<times> label_interner) option" where
  "suffix_insert_all nodes [] I = Some (nodes, I)"
| "suffix_insert_all nodes ((d, rule_id) # ps) I =
     do { (nodes', I') \<leftarrow> suffix_insert nodes d rule_id I; suffix_insert_all nodes' ps I' }"

fun prefix_insert_all :: "prefix_trie \<Rightarrow> (rstr \<times> nat) list \<Rightarrow> prefix_trie option" where
  "prefix_insert_all nodes [] = Some nodes"
| "prefix_insert_all nodes ((pre, rule_id) # ps) =
     do { nodes' \<leftarrow> prefix_insert nodes pre rule_id; prefix_insert_all nodes' ps }"


section \<open>The interner is a bijection\<close>

definition interner_inv :: "label_interner \<Rightarrow> bool" where
  "interner_inv I \<longleftrightarrow>
     length (li_labels I) \<le> 4294967296 \<and>
     (\<forall>l i. li_map I l = Some i \<longleftrightarrow> i < length (li_labels I) \<and> li_labels I ! i = l)"

lemma interner_inv_new: "interner_inv interner_new"
  by (simp add: interner_inv_def interner_new_def)

lemma interner_inv_inj:
  "interner_inv I \<Longrightarrow> li_map I l = Some i \<Longrightarrow> li_map I l' = Some i \<Longrightarrow> l = l'"
  by (auto simp: interner_inv_def)

lemma intern_spec:
  assumes "interner_inv I" and "length (li_labels I) < 4294967296"
    and "intern I l = (i, I')"
  shows "interner_inv I'" and "li_map I' l = Some i" and "li_map I \<subseteq>\<^sub>m li_map I'"
    and "length (li_labels I') \<le> Suc (length (li_labels I))"
    and "dom (li_map I') = insert l (dom (li_map I))"
proof -
  have a: "interner_inv I' \<and> li_map I' l = Some i \<and> li_map I \<subseteq>\<^sub>m li_map I' \<and>
      length (li_labels I') \<le> Suc (length (li_labels I)) \<and>
      dom (li_map I') = insert l (dom (li_map I))"
  proof (cases "li_map I l")
    case None
    then have new: "i = length (li_labels I)"
      "I' = I\<lparr>li_labels := li_labels I @ [l], li_map := (li_map I)(l \<mapsto> i)\<rparr>"
      using assms by (auto simp: intern_def Let_def)
    have fresh: "i < length (li_labels I) \<Longrightarrow> li_labels I ! i \<noteq> l" for i
      using None assms(1) by (metis interner_inv_def option.simps(3))
    show ?thesis
      using None new fresh assms(1,2)
      by (auto simp: interner_inv_def map_le_def nth_append less_Suc_eq)
  next
    case (Some j)
    with assms show ?thesis by (auto simp: intern_def)
  qed
  then show "interner_inv I'" "li_map I' l = Some i" "li_map I \<subseteq>\<^sub>m li_map I'"
    "length (li_labels I') \<le> Suc (length (li_labels I))"
    "dom (li_map I') = insert l (dom (li_map I))" by simp_all
qed


section \<open>Binary search\<close>

lemma bsearch_spec:
  assumes "sorted_wrt (<) (map fst xs)" and "hi \<le> length xs" and "lo \<le> hi"
    and "\<forall>i<lo. fst (xs ! i) < k" and "\<forall>i. hi \<le> i \<and> i < length xs \<longrightarrow> k < fst (xs ! i)"
  shows "case bsearch xs k lo hi of
           Inr p \<Rightarrow> p < length xs \<and> fst (xs ! p) = k
         | Inl p \<Rightarrow> p \<le> length xs \<and> (\<forall>i<p. fst (xs ! i) < k) \<and>
                    (\<forall>i. p \<le> i \<and> i < length xs \<longrightarrow> k < fst (xs ! i))"
  using assms
proof (induction xs k lo hi rule: bsearch.induct)
  case (1 xs k lo hi)
  let ?mid = "lo + (hi - lo) div 2"
  have mono: "i < j \<Longrightarrow> j < length xs \<Longrightarrow> fst (xs ! i) < fst (xs ! j)" for i j
    using "1.prems"(1) sorted_wrt_nth_less [of "(<)" "map fst xs" i j] by simp
  show ?case
  proof (cases "lo < hi")
    case False
    with "1.prems" show ?thesis by (subst bsearch.simps) auto
  next
    case lt: True
    then have mid: "lo \<le> ?mid" "?mid < hi" by auto
    consider (eq) "fst (xs ! ?mid) = k" | (less) "fst (xs ! ?mid) < k" | (greater) "k < fst (xs ! ?mid)"
      by linarith
    then show ?thesis
    proof cases
      case eq
      with lt mid "1.prems" show ?thesis by (subst bsearch.simps) (simp add: Let_def)
    next
      case less
      have "fst (xs ! i) < k" if "i < Suc ?mid" for i
        using less mono [of i ?mid] mid "1.prems"(2) that by (cases "i = ?mid") auto
      with "1.IH"(1) [OF lt refl _ less] "1.prems" lt mid less show ?thesis
        by (subst bsearch.simps) (simp add: Let_def)
    next
      case greater
      have "k < fst (xs ! i)" if "?mid \<le> i" "i < length xs" for i
        using greater mono [of ?mid i] that by (cases "i = ?mid") auto
      moreover have "fst (xs ! ?mid) \<noteq> k" "\<not> fst (xs ! ?mid) < k" using greater by simp_all
      ultimately show ?thesis
        using "1.IH"(2) [OF lt refl] "1.prems" lt mid
        by (subst bsearch.simps) (simp add: Let_def)
    qed
  qed
qed

lemma binary_search_by_key_spec:
  assumes "sorted_wrt (<) (map fst xs)"
  shows "case binary_search_by_key xs k of
           Inr p \<Rightarrow> map_of xs k = Some (snd (xs ! p))
         | Inl p \<Rightarrow> map_of xs k = None \<and> (\<forall>x\<in>set (take p xs). fst x < k) \<and>
                    (\<forall>x\<in>set (drop p xs). k < fst x)"
proof -
  have dist: "distinct (map fst xs)" using assms strict_sorted_iff by blast
  note bs = bsearch_spec [OF assms, of "length xs" 0 k, simplified]
  show ?thesis
  proof (cases "bsearch xs k 0 (length xs)")
    case (Inr p)
    with bs have "p < length xs" "fst (xs ! p) = k" by simp_all
    then have "(k, snd (xs ! p)) \<in> set xs" by (metis nth_mem prod.collapse)
    with Inr dist show ?thesis by (simp add: binary_search_by_key_def)
  next
    case (Inl p)
    with bs have p: "p \<le> length xs" "\<forall>i<p. fst (xs ! i) < k"
      "\<forall>i. p \<le> i \<and> i < length xs \<longrightarrow> k < fst (xs ! i)" by simp_all
    have lo: "\<forall>x\<in>set (take p xs). fst x < k"
      using p(2) by (fastforce simp: in_set_conv_nth)
    have hi: "\<forall>x\<in>set (drop p xs). k < fst x"
    proof
      fix x assume "x \<in> set (drop p xs)"
      then obtain i where "i < length xs - p" "x = xs ! (p + i)"
        by (auto simp: in_set_conv_nth)
      then show "k < fst x" using p(3) by simp
    qed
    have "set xs = set (take p xs) \<union> set (drop p xs)" by (simp flip: set_append)
    with lo hi have "k \<notin> fst ` set xs" by fastforce
    with lo hi Inl show ?thesis by (simp add: binary_search_by_key_def map_of_eq_None_iff)
  qed
qed


section \<open>Both node types are arena nodes\<close>

definition tn_child :: "trie_node \<Rightarrow> nat \<Rightarrow> nat option" where
  "tn_child n k =
     (case binary_search_by_key (tn_children n) k of
        Inr p \<Rightarrow> Some (snd (tn_children n ! p)) | Inl _ \<Rightarrow> None)"

definition tn_add_child :: "nat \<Rightarrow> nat \<Rightarrow> trie_node \<Rightarrow> trie_node" where
  "tn_add_child k j n =
     (case binary_search_by_key (tn_children n) k of
        Inr _ \<Rightarrow> n | Inl p \<Rightarrow> n\<lparr>tn_children := vec_insert p (k, j) (tn_children n)\<rparr>)"

definition pn_add_child :: "rchar \<Rightarrow> nat \<Rightarrow> prefix_node \<Rightarrow> prefix_node" where
  "pn_add_child c j n = n\<lparr>pn_children := (pn_children n)(c \<mapsto> j)\<rparr>"

definition tn_ok :: "trie_node \<Rightarrow> bool" where
  "tn_ok n \<longleftrightarrow> sorted_wrt (<) (map fst (tn_children n))"

lemma tn_child_map_of: "tn_ok n \<Longrightarrow> tn_child n k = map_of (tn_children n) k"
  using binary_search_by_key_spec [of "tn_children n" k]
  by (auto simp: tn_ok_def tn_child_def split: sum.splits)

lemma tn_add_child_spec:
  assumes "tn_ok n" and "tn_child n k = None"
  shows "tn_ok (tn_add_child k j n)"
    and "map_of (tn_children (tn_add_child k j n)) = (map_of (tn_children n))(k \<mapsto> j)"
proof -
  obtain p where p: "binary_search_by_key (tn_children n) k = Inl p"
    using assms(2) by (auto simp: tn_child_def split: sum.splits)
  let ?xs = "tn_children n"
  have s: "sorted_wrt (<) (map fst ?xs)" using assms(1) by (simp add: tn_ok_def)
  note sp = binary_search_by_key_spec [OF s, of k, unfolded p, simplified]
  have parts: "?xs = take p ?xs @ drop p ?xs" by simp
  have sa: "sorted_wrt (<) (map fst (take p ?xs) @ map fst (drop p ?xs))"
    using s by (metis parts map_append)
  show "tn_ok (tn_add_child k j n)"
    using sa sp by (auto simp: tn_ok_def tn_add_child_def p vec_insert_def sorted_wrt_append)
  have "map_of (take p ?xs) k = None"
    using sp by (auto simp: map_of_eq_None_iff)
  moreover have "map_of ?xs = map_of (take p ?xs @ drop p ?xs)" by simp
  ultimately show "map_of (tn_children (tn_add_child k j n)) = (map_of ?xs)(k \<mapsto> j)"
    by (auto simp: tn_add_child_def p vec_insert_def map_add_def fun_eq_iff
        simp del: append_take_drop_id split: option.splits)
qed

interpretation sfx: arena_trie tn_child tn_add_child tn_rule_ids
  "\<lambda>r n. n\<lparr>tn_rule_ids := tn_rule_ids n @ [r]\<rparr>" trie_node_default tn_ok
proof
  fix n :: trie_node and k j k' :: nat
  assume n: "tn_ok n" "tn_child n k = None"
  show "tn_child (tn_add_child k j n) k' = (if k' = k then Some j else tn_child n k')"
    using tn_add_child_spec [OF n, of j] n(1) by (simp add: tn_child_map_of)
  show "tn_ok (tn_add_child k j n)" by (rule tn_add_child_spec [OF n])
next
  show "tn_rule_ids (tn_add_child k j n) = tn_rule_ids n" for n :: trie_node and k j :: nat
    by (simp add: tn_add_child_def split: sum.splits)
qed (auto simp: tn_ok_def tn_child_def trie_node_default_def binary_search_by_key_def
    bsearch.simps [of "[]" _ 0 0] split: sum.splits)

interpretation pfx: arena_trie pn_children pn_add_child
  pn_rule_ids "\<lambda>r n. n\<lparr>pn_rule_ids := pn_rule_ids n @ [r]\<rparr>" prefix_node_default "\<lambda>_. True"
  by unfold_locales (auto simp: prefix_node_default_def pn_add_child_def)


section \<open>The prefix trie returns the rules of every inserted prefix\<close>

abbreviation pt_ids :: "prefix_trie \<Rightarrow> rstr \<Rightarrow> nat list" where
  "pt_ids \<equiv> ids_at pn_children pn_rule_ids"

abbreviation pt_inv :: "prefix_trie \<Rightarrow> bool" where
  "pt_inv \<equiv> arena_inv pn_children (\<lambda>_. True)"

definition ids_for :: "('k \<times> nat) list \<Rightarrow> 'k \<Rightarrow> nat list" where
  "ids_for ps q = map snd (filter (\<lambda>(k, _). k = q) ps)"

lemma ids_for_simps [simp]:
  "ids_for [] q = []"
  "ids_for (ps @ qs) q = ids_for ps q @ ids_for qs q"
  "ids_for ((k, r) # ps) q = (if k = q then r # ids_for ps q else ids_for ps q)"
  by (simp_all add: ids_for_def)

lemma set_ids_for: "set (ids_for ps q) = {r. (q, r) \<in> set ps}"
  by (force simp: ids_for_def)

lemma prefix_insert_loop_arena:
  "prefix_insert_loop nodes i cs =
     arena_insert pn_children pn_add_child prefix_node_default nodes i cs"
  by (induction nodes i cs rule: prefix_insert_loop.induct)
    (auto simp: Let_def pn_add_child_def split: option.splits)

lemma prefix_match_loop_arena:
  "prefix_match_loop nodes i cs =
     map_option (filter (\<lambda>g. g \<noteq> [])) (arena_collect pn_children pn_rule_ids nodes i cs)"
  by (induction nodes i cs rule: prefix_match_loop.induct) (auto split: option.splits)

lemma prefix_insert_spec:
  assumes inv: "pt_inv nodes" and bound: "length nodes + length pre \<le> 4294967296"
  shows "\<exists>nodes'. prefix_insert nodes pre r = Some nodes' \<and> pt_inv nodes' \<and>
           length nodes' \<le> length nodes + length pre \<and>
           (\<forall>q. pt_ids nodes' q = pt_ids nodes q @ (if pre \<noteq> [] \<and> q = pre then [r] else []))"
proof (cases "pre = []")
  case True
  with inv show ?thesis by (simp add: prefix_insert_def)
next
  case False
  have "walk pn_children nodes 0 [] = Some 0" using arena_inv_facts(1) [OF inv] by simp
  from pfx.insert_loop [OF inv this bound] obtain nodes' i where
    ins: "prefix_insert_loop nodes 0 pre = Some (nodes', i)" and inv': "pt_inv nodes'"
    and w: "walk pn_children nodes' 0 pre = Some i"
    and same: "\<forall>q. pt_ids nodes' q = pt_ids nodes q"
    and len: "length nodes' \<le> length nodes + length pre"
    by (auto simp: prefix_insert_loop_arena)
  from pfx.add_id_at [OF inv' w, of r] same False ins len walk_less [OF w] show ?thesis
    by (auto simp: prefix_insert_def idx_def)
qed

definition total_len :: "(rstr \<times> nat) list \<Rightarrow> nat" where
  "total_len ps = sum_list (map (\<lambda>(p, _). length p) ps)"

lemma prefix_insert_all_spec:
  assumes "pt_inv nodes" and "length nodes + total_len ps \<le> 4294967296"
  shows "\<exists>nodes'. prefix_insert_all nodes ps = Some nodes' \<and> pt_inv nodes' \<and>
           (\<forall>q. pt_ids nodes' q = pt_ids nodes q @ ids_for (filter (\<lambda>(p, _). p \<noteq> []) ps) q)"
  using assms
proof (induction ps arbitrary: nodes)
  case Nil
  then show ?case by simp
next
  case (Cons x ps)
  obtain p r where x: "x = (p, r)" by (cases x)
  from Cons.prems have "length nodes + length p \<le> 4294967296" by (simp add: total_len_def x)
  from prefix_insert_spec [OF Cons.prems(1) this, of r] obtain nodes1 where
    n1: "prefix_insert nodes p r = Some nodes1" "pt_inv nodes1"
    "length nodes1 \<le> length nodes + length p"
    "\<forall>q. pt_ids nodes1 q = pt_ids nodes q @ (if p \<noteq> [] \<and> q = p then [r] else [])" by blast
  with Cons.prems(2) have "length nodes1 + total_len ps \<le> 4294967296"
    by (simp add: total_len_def x)
  from Cons.IH [OF n1(2) this] n1 show ?case by (auto simp: x)
qed

lemma filter_sort_key_singleton: "\<not> length xs > 1 \<Longrightarrow> sort_key f xs = xs"
  by (cases xs rule: remdups_adj.cases) auto

lemma prefix_lookup_spec:
  assumes inv: "pt_inv nodes" and empty: "pt_ids nodes [] = []"
  shows "prefix_lookup_candidates nodes q cs =
           Some (cs @ concat (sort_key min_rule_id
             (filter (\<lambda>g. g \<noteq> []) (map (pt_ids nodes) (tl (prefixes q))))))"
proof (cases "length nodes = 1")
  case True
  have edge: "pn_children (nodes ! 0) c = None" for c
    using arena_inv_facts(3,4) [OF inv, of 0 c] True by (cases "pn_children (nodes ! 0) c") fastforce+
  have "pt_ids nodes p = []" for p
    using edge True empty by (cases p) (auto simp: ids_at_def idx_def)
  then have "filter (\<lambda>g. g \<noteq> []) (map (pt_ids nodes) (tl (prefixes q))) = []"
    by (simp add: filter_empty_conv)
  with True show ?thesis by (simp add: prefix_lookup_candidates_def)
next
  case False
  from pfx.collect_root [OF inv, of q] show ?thesis
    using False
    by (auto simp: prefix_lookup_candidates_def prefix_match_loop_arena filter_sort_key_singleton)
qed


section \<open>The suffix trie returns the rules of every inserted parent domain\<close>

text \<open>
  The trie stores paths of label ids.  \<open>suffix_rep I nodes ps\<close> says that the arena stores
  exactly the (label path, rule id) pairs \<open>ps\<close>, read through the interner \<open>I\<close>.
\<close>

abbreviation st_ids :: "suffix_trie \<Rightarrow> nat list \<Rightarrow> nat list" where
  "st_ids \<equiv> ids_at tn_child tn_rule_ids"

definition suffix_rep :: "label_interner \<Rightarrow> suffix_trie \<Rightarrow> (rstr list \<times> nat) list \<Rightarrow> bool" where
  "suffix_rep I nodes ps \<longleftrightarrow>
     interner_inv I \<and> arena_inv tn_child tn_ok nodes \<and>
     (\<forall>(ls, r)\<in>set ps. ls \<noteq> [] \<and> set ls \<subseteq> dom (li_map I)) \<and>
     (\<forall>q. st_ids nodes q = map snd (filter (\<lambda>(ls, _). map (li_map I) ls = map Some q) ps))"

fun intern_all :: "label_interner \<Rightarrow> rstr list \<Rightarrow> nat list \<times> label_interner" where
  "intern_all I [] = ([], I)"
| "intern_all I (l # ls) =
     (let (i, I1) = intern I l; (ks, I2) = intern_all I1 ls in (i # ks, I2))"

lemma intern_all_spec:
  assumes "interner_inv I" and "length (li_labels I) + length ls \<le> 4294967296"
    and "intern_all I ls = (ks, I')"
  shows "interner_inv I' \<and> map (li_map I') ls = map Some ks \<and> li_map I \<subseteq>\<^sub>m li_map I' \<and>
         length (li_labels I') \<le> length (li_labels I) + length ls"
  using assms
proof (induction ls arbitrary: I ks I')
  case Nil
  then show ?case by simp
next
  case (Cons l ls)
  obtain i I1 where i: "intern I l = (i, I1)" by fastforce
  obtain js I2 where js: "intern_all I1 ls = (js, I2)" by fastforce
  from Cons.prems i js have eq: "ks = i # js" "I' = I2" by auto
  note a = intern_spec [OF Cons.prems(1) _ i]
  from Cons.prems(2) have l: "length (li_labels I) < 4294967296" by simp
  from Cons.IH [OF a(1) [OF l] _ js] a(4) [OF l] Cons.prems(2)
  have IH: "interner_inv I2 \<and> map (li_map I2) ls = map Some js \<and> li_map I1 \<subseteq>\<^sub>m li_map I2 \<and>
      length (li_labels I2) \<le> length (li_labels I1) + length ls" by simp
  moreover have "li_map I2 l = Some i"
    using IH a(2) [OF l] by (metis domI map_le_def)
  ultimately show ?case
    using a(3,4) [OF l] by (auto simp: eq intro: map_le_trans)
qed

lemma suffix_insert_loop_arena:
  "suffix_insert_loop nodes i ls I =
     (let (ks, I') = intern_all I ls
      in map_option (\<lambda>(nodes', i'). (nodes', i', I'))
           (arena_insert tn_child tn_add_child trie_node_default nodes i ks))"
  by (induction nodes i ls I rule: suffix_insert_loop.induct)
    (auto simp: Let_def tn_child_def tn_add_child_def split: option.splits sum.splits prod.splits)

lemma map_Some_le:
  assumes "f \<subseteq>\<^sub>m g" and "set ls \<subseteq> dom f"
  shows "map g ls = map f ls"
  using assms by (auto simp: map_le_def subset_iff)

lemma suffix_rep_mono:
  assumes "suffix_rep I nodes ps" and "interner_inv I'" and "li_map I \<subseteq>\<^sub>m li_map I'"
  shows "suffix_rep I' nodes ps"
proof -
  have "map (li_map I') ls = map (li_map I) ls" if "(ls, r) \<in> set ps" for ls r
    using that assms(1) by (intro map_Some_le [OF assms(3)]) (auto simp: suffix_rep_def)
  then have "filter (\<lambda>(ls, _). map (li_map I') ls = map Some q) ps =
      filter (\<lambda>(ls, _). map (li_map I) ls = map Some q) ps" for q
    by (intro filter_cong [OF refl]) (metis (no_types, lifting) case_prod_conv surj_pair)
  with assms show ?thesis
    using map_le_implies_dom_le [OF assms(3)] by (fastforce simp: suffix_rep_def)
qed

lemma suffix_rep_new: "suffix_rep interner_new suffix_trie_new []"
  using sfx.inv_empty sfx.ids_at_empty
  by (simp add: suffix_rep_def interner_inv_new suffix_trie_new_def)

definition label_path :: "rstr \<Rightarrow> rstr list" where
  "label_path domain = rev (split_on 46 (clean_domain domain))"

lemma map_Some_dom: "map f ls = map Some ks \<Longrightarrow> set ls \<subseteq> dom f"
  by (induction ls arbitrary: ks) auto

lemma suffix_insert_spec:
  assumes rep: "suffix_rep I nodes ps"
    and b1: "length nodes + length (label_path d) \<le> 4294967296"
    and b2: "length (li_labels I) + length (label_path d) \<le> 4294967296"
  shows "\<exists>nodes' I'. suffix_insert nodes d r I = Some (nodes', I') \<and>
           suffix_rep I' nodes' (ps @ (if clean_domain d = [] then [] else [(label_path d, r)])) \<and>
           li_map I \<subseteq>\<^sub>m li_map I' \<and>
           length nodes' \<le> length nodes + length (label_path d) \<and>
           length (li_labels I') \<le> length (li_labels I) + length (label_path d)"
proof (cases "clean_domain d = []")
  case True
  with rep show ?thesis by (simp add: suffix_insert_def)
next
  case False
  obtain ks I' where ia: "intern_all I (label_path d) = (ks, I')" by fastforce
  have inv: "interner_inv I" "arena_inv tn_child tn_ok nodes"
    using rep by (simp_all add: suffix_rep_def)
  from intern_all_spec [OF inv(1) b2 ia] have I': "interner_inv I'"
    "map (li_map I') (label_path d) = map Some ks" "li_map I \<subseteq>\<^sub>m li_map I'"
    "length (li_labels I') \<le> length (li_labels I) + length (label_path d)" by blast+
  from I'(2) have len: "length ks = length (label_path d)" by (metis length_map)
  have "walk tn_child nodes 0 [] = Some 0" using arena_inv_facts(1) [OF inv(2)] by simp
  from sfx.insert_loop [OF inv(2) this, of ks] b1 len obtain nodes1 i where
    ins: "arena_insert tn_child tn_add_child trie_node_default nodes 0 ks = Some (nodes1, i)"
    and inv1: "arena_inv tn_child tn_ok nodes1" and w: "walk tn_child nodes1 0 ks = Some i"
    and same: "\<forall>q. st_ids nodes1 q = st_ids nodes q"
    and len1: "length nodes1 \<le> length nodes + length (label_path d)" by auto
  let ?nodes' = "nodes1[i := (nodes1 ! i)\<lparr>tn_rule_ids := tn_rule_ids (nodes1 ! i) @ [r]\<rparr>]"
  have res: "suffix_insert nodes d r I = Some (?nodes', I')"
    using False ia ins walk_less [OF w]
    by (simp add: suffix_insert_def suffix_insert_loop_arena label_path_def idx_def Let_def)
  note rep' = suffix_rep_mono [OF rep I'(1,3), unfolded suffix_rep_def]
  have "st_ids ?nodes' q =
      map snd (filter (\<lambda>(ls, _). map (li_map I') ls = map Some q) (ps @ [(label_path d, r)]))" for q
    using sfx.add_id_at(2) [OF inv1 w, of r q] same rep' I'(2) inj_map_eq_map [of Some ks q]
    by (auto simp: inj_def)
  moreover have "label_path d \<noteq> []" by (simp add: label_path_def)
  moreover have "set (label_path d) \<subseteq> dom (li_map I')"
    using map_Some_dom [OF I'(2)] .
  ultimately have "suffix_rep I' ?nodes' (ps @ [(label_path d, r)])"
    using rep' sfx.add_id_at(1) [OF inv1 w, of r] by (auto simp: suffix_rep_def)
  with res False I'(3,4) len1 show ?thesis by auto
qed

definition total_labels :: "(rstr \<times> nat) list \<Rightarrow> nat" where
  "total_labels ps = sum_list (map (\<lambda>(d, _). length (label_path d)) ps)"

definition label_paths :: "(rstr \<times> nat) list \<Rightarrow> (rstr list \<times> nat) list" where
  "label_paths ps = map (\<lambda>(d, r). (label_path d, r)) (filter (\<lambda>(d, _). clean_domain d \<noteq> []) ps)"

lemma suffix_insert_all_spec:
  assumes "suffix_rep I nodes qs" and "length nodes + total_labels ps \<le> 4294967296"
    and "length (li_labels I) + total_labels ps \<le> 4294967296"
  shows "\<exists>nodes' I'. suffix_insert_all nodes ps I = Some (nodes', I') \<and>
           suffix_rep I' nodes' (qs @ label_paths ps) \<and> li_map I \<subseteq>\<^sub>m li_map I' \<and>
           length (li_labels I') \<le> length (li_labels I) + total_labels ps"
  using assms
proof (induction ps arbitrary: nodes I qs)
  case Nil
  then show ?case by (simp add: label_paths_def)
next
  case (Cons x ps)
  obtain d r where x: "x = (d, r)" by fastforce
  from Cons.prems(2,3) have b: "length nodes + length (label_path d) \<le> 4294967296"
    "length (li_labels I) + length (label_path d) \<le> 4294967296" by (simp_all add: total_labels_def x)
  from suffix_insert_spec [OF Cons.prems(1) b, of r] obtain nodes1 I1 where
    ins: "suffix_insert nodes d r I = Some (nodes1, I1)"
    and rep: "suffix_rep I1 nodes1 (qs @ (if clean_domain d = [] then [] else [(label_path d, r)]))"
    and le: "li_map I \<subseteq>\<^sub>m li_map I1" and len: "length nodes1 \<le> length nodes + length (label_path d)"
      "length (li_labels I1) \<le> length (li_labels I) + length (label_path d)"
    by blast
  have "length nodes1 + total_labels ps \<le> 4294967296"
    "length (li_labels I1) + total_labels ps \<le> 4294967296"
    using len Cons.prems(2,3) by (simp_all add: total_labels_def x)
  from Cons.IH [OF rep this] obtain nodes' I' where
    "suffix_insert_all nodes1 ps I1 = Some (nodes', I')"
    "suffix_rep I' nodes' ((qs @ (if clean_domain d = [] then [] else [(label_path d, r)])) @ label_paths ps)"
    "li_map I1 \<subseteq>\<^sub>m li_map I'" "length (li_labels I') \<le> length (li_labels I1) + total_labels ps"
    by blast
  with ins le len show ?case
    by (auto simp: x label_paths_def total_labels_def intro: map_le_trans)
qed

text \<open>A lookup stops at the first label that was never interned; no stored path goes further.\<close>

fun known_ids :: "label_interner \<Rightarrow> rstr list \<Rightarrow> nat list" where
  "known_ids I [] = []"
| "known_ids I (l # ls) = (case li_map I l of None \<Rightarrow> [] | Some i \<Rightarrow> i # known_ids I ls)"

lemma suffix_lookup_loop_arena:
  "suffix_lookup_loop nodes i ls I cs =
     map_option (\<lambda>gs. cs @ concat gs) (arena_collect tn_child tn_rule_ids nodes i (known_ids I ls))"
proof (induction nodes i ls I cs rule: suffix_lookup_loop.induct)
  case (2 nodes i l ls I cs)
  then show ?case
    by (auto simp: interner_lookup_def tn_child_def Let_def option.map_comp comp_def
        split: option.splits sum.splits)
qed simp

lemma concat_filter_nonempty: "concat (filter (\<lambda>g. g \<noteq> []) gs) = concat gs"
  by (induction gs) auto

lemma interner_map_inj:
  assumes "interner_inv I" and "set xs \<subseteq> dom (li_map I)" and "set ys \<subseteq> dom (li_map I)"
  shows "map (li_map I) xs = map (li_map I) ys \<longleftrightarrow> xs = ys"
proof (rule inj_on_map_eq_map)
  show "inj_on (li_map I) (set xs \<union> set ys)"
  proof (rule inj_onI)
    fix a b
    assume "a \<in> set xs \<union> set ys" and eq: "li_map I a = li_map I b"
    then obtain i where i: "li_map I a = Some i" using assms(2,3) by blast
    show "a = b" by (rule interner_inv_inj [OF assms(1) i]) (use eq i in simp)
  qed
qed

lemma tl_prefixes_Cons: "tl (prefixes (k # ks)) = [k] # map ((#) k) (tl (prefixes ks))"
  by (cases ks) simp_all

lemma path_ids_prefixes:
  assumes inv: "interner_inv I" and ps: "\<forall>(ls, r)\<in>set ps. set ls \<subseteq> dom (li_map I)"
    and "set p \<subseteq> dom (li_map I)"
  shows "concat (map (\<lambda>q. map snd (filter (\<lambda>(ls, _). map (li_map I) ls = map (li_map I) p @ map Some q) ps))
                 (tl (prefixes (known_ids I L)))) =
         concat (map (\<lambda>q. map snd (filter (\<lambda>(ls, _). ls = p @ q) ps)) (tl (prefixes L)))"
  using assms(3)
proof (induction L arbitrary: p)
  case Nil
  then show ?case by simp
next
  case (Cons l L)
  show ?case
  proof (cases "li_map I l")
    case None
    have "filter (\<lambda>(ls, _). ls = p @ l # q) ps = []" for q
      using ps None by (fastforce simp: filter_empty_conv)
    with None show ?thesis unfolding tl_prefixes_Cons by (simp add: comp_def)
  next
    case (Some i)
    have pl: "set (p @ [l]) \<subseteq> dom (li_map I)" using Cons.prems Some by auto
    have "filter (\<lambda>(ls, _). map (li_map I) ls = map (li_map I) (p @ [l])) ps =
        filter (\<lambda>(ls, _). ls = p @ [l]) ps"
    proof (rule filter_cong [OF refl], clarify)
      fix ls r
      assume "(ls, r) \<in> set ps"
      with ps have "set ls \<subseteq> dom (li_map I)" by auto
      from interner_map_inj [OF inv this pl]
      show "(map (li_map I) ls = map (li_map I) (p @ [l])) = (ls = p @ [l])" .
    qed
    with Cons.IH [OF pl] Some show ?thesis
      by (simp add: tl_prefixes_Cons comp_def del: prefixes.simps)
  qed
qed

theorem suffix_lookup_spec:
  assumes rep: "suffix_rep I nodes ps"
  shows "suffix_lookup_candidates nodes q I cs =
           Some (cs @ (if clean_domain q = [] then []
                       else concat (map (\<lambda>p. map snd (filter (\<lambda>(ls, _). ls = p) ps))
                              (tl (prefixes (label_path q))))))"
proof (cases "clean_domain q = []")
  case True
  then show ?thesis by (simp add: suffix_lookup_candidates_def)
next
  case False
  have inv: "interner_inv I" "arena_inv tn_child tn_ok nodes"
    and dom: "\<forall>(ls, r)\<in>set ps. set ls \<subseteq> dom (li_map I)"
    and ids: "st_ids nodes p = map snd (filter (\<lambda>(ls, _). map (li_map I) ls = map Some p) ps)" for p
    using rep by (auto simp: suffix_rep_def)
  obtain gs where gs: "arena_collect tn_child tn_rule_ids nodes 0 (known_ids I (label_path q)) = Some gs"
    "filter (\<lambda>g. g \<noteq> []) gs = filter (\<lambda>g. g \<noteq> [])
       (map (st_ids nodes) (tl (prefixes (known_ids I (label_path q)))))"
    using sfx.collect_root [OF inv(2)] by blast
  have "concat gs = concat (map (st_ids nodes) (tl (prefixes (known_ids I (label_path q)))))"
    using arg_cong [OF gs(2), of concat] by (simp add: concat_filter_nonempty)
  also have "\<dots> = concat (map (\<lambda>p. map snd (filter (\<lambda>(ls, _). ls = p) ps)) (tl (prefixes (label_path q))))"
    using path_ids_prefixes [OF inv(1) dom, of "[]" "label_path q"] by (simp add: ids [abs_def])
  finally show ?thesis
    using False gs(1)
    by (simp add: suffix_lookup_candidates_def suffix_lookup_loop_arena label_path_def)
qed

lemma label_path_prefix_iff:
  "prefix (label_path d) (label_path q) \<longleftrightarrow>
     clean_domain d = [] \<and> suffix [[]] (split_on 46 (clean_domain q)) \<or>
     matches_domain_suffix (clean_domain q) (clean_domain d)"
  by (cases "clean_domain d = []")
    (auto simp: label_path_def matches_domain_suffix_iff suffix_to_prefix)

lemma suffix_lookup_set:
  assumes "suffix_rep I nodes (label_paths ps)"
  shows "\<exists>ids. suffix_lookup_candidates nodes q I cs = Some (cs @ ids) \<and>
           set ids = {r. \<exists>d. (d, r) \<in> set ps \<and> matches_domain_suffix (clean_domain q) (clean_domain d)}"
proof -
  have ne: "label_path d \<noteq> []" for d by (simp add: label_path_def)
  have mem: "p \<in> set (tl (prefixes L)) \<longleftrightarrow> p \<noteq> [] \<and> prefix p L" for p and L :: "rstr list"
    by (cases L) (auto simp: prefix_Cons)
  have no: "\<not> matches_domain_suffix [] d" "\<not> matches_domain_suffix d []" for d
    by (auto simp: matches_domain_suffix_def)
  have hit: "r \<in> set (concat (map (\<lambda>p. map snd (filter (\<lambda>(ls, _). ls = p) (label_paths ps))) ks)) \<longleftrightarrow>
      (\<exists>d. (d, r) \<in> set ps \<and> clean_domain d \<noteq> [] \<and> label_path d \<in> set ks)" for r ks
    by (force simp: label_paths_def)
  have eq: "set (concat (map (\<lambda>p. map snd (filter (\<lambda>(ls, _). ls = p) (label_paths ps)))
           (tl (prefixes (label_path q))))) =
      {r. \<exists>d. (d, r) \<in> set ps \<and> matches_domain_suffix (clean_domain q) (clean_domain d)}"
  proof (rule set_eqI, unfold hit mem label_path_prefix_iff mem_Collect_eq)
    show "(\<exists>d. (d, r) \<in> set ps \<and> clean_domain d \<noteq> [] \<and> label_path d \<noteq> [] \<and>
          (clean_domain d = [] \<and> suffix [[]] (split_on 46 (clean_domain q)) \<or>
           matches_domain_suffix (clean_domain q) (clean_domain d))) \<longleftrightarrow>
        (\<exists>d. (d, r) \<in> set ps \<and> matches_domain_suffix (clean_domain q) (clean_domain d))" for r
      using ne no(2) by metis
  qed
  show ?thesis
  proof (cases "clean_domain q = []")
    case True
    with no(1) show ?thesis by (simp add: suffix_lookup_spec [OF assms])
  next
    case False
    then show ?thesis
      unfolding suffix_lookup_spec [OF assms] by (intro exI conjI) (simp, rule eq)
  qed
qed


lemma prefix_trie_lookup_spec:
  assumes "total_len ps < 4294967296"
  shows "\<exists>nodes. prefix_insert_all prefix_trie_new ps = Some nodes \<and>
           prefix_lookup_candidates nodes q cs =
             Some (cs @ concat (sort_key min_rule_id
               (filter (\<lambda>g. g \<noteq> []) (map (ids_for ps) (tl (prefixes q))))))"
proof -
  have new: "pt_inv prefix_trie_new" "pt_ids prefix_trie_new p = []" for p
    using pfx.inv_empty pfx.ids_at_empty by (simp_all add: prefix_trie_new_def)
  have "length prefix_trie_new + total_len ps \<le> 4294967296"
    using assms by (simp add: prefix_trie_new_def)
  from prefix_insert_all_spec [OF new(1) this] obtain nodes where
    n: "prefix_insert_all prefix_trie_new ps = Some nodes" "pt_inv nodes"
    "\<forall>q. pt_ids nodes q = ids_for (filter (\<lambda>(p, _). p \<noteq> []) ps) q" by (auto simp: new(2))
  have ids: "pt_ids nodes p = (if p = [] then [] else ids_for ps p)" for p
    using n(3) by (auto simp: ids_for_def filter_empty_conv intro!: arg_cong [where f = "map snd"] filter_cong)
  have "map (pt_ids nodes) (tl (prefixes q)) = map (ids_for ps) (tl (prefixes q))"
    by (cases q) (auto simp: ids)
  with n(1) prefix_lookup_spec [OF n(2), of q cs] ids show ?thesis by simp
qed


section \<open>Properties\<close>

text \<open>C19: filling a fresh \<^verbatim>\<open>SuffixTrie\<close> never fails (no index out of range, no
  wrapped node number) while the labels stay below $2^{32}$, and a lookup then returns exactly
  the rules whose cleaned domain is the cleaned query or one of its parent domains.\<close>

theorem suffix_trie_lookup:
  assumes "total_labels ps < 4294967296"
  shows "\<exists>nodes I ids. suffix_insert_all suffix_trie_new ps interner_new = Some (nodes, I) \<and>
           suffix_lookup_candidates nodes q I cs = Some (cs @ ids) \<and>
           set ids = {r. \<exists>d. (d, r) \<in> set ps \<and> matches_domain_suffix (clean_domain q) (clean_domain d)}"
proof -
  have "length suffix_trie_new + total_labels ps \<le> 4294967296"
    "length (li_labels interner_new) + total_labels ps \<le> 4294967296"
    using assms by (simp_all add: suffix_trie_new_def interner_new_def)
  from suffix_insert_all_spec [OF suffix_rep_new this] obtain nodes I where
    "suffix_insert_all suffix_trie_new ps interner_new = Some (nodes, I)"
    "suffix_rep I nodes (label_paths ps)" by auto
  with suffix_lookup_set [of I nodes ps q cs] show ?thesis by blast
qed

theorem suffix_trie_lookup_witness:
  "let ps = [(lit ''Example.com.'', 0), (lit ''ads.example.com'', 1), (lit ''example.org'', 2)]
   in total_labels ps < 4294967296 \<and>
      (\<exists>nodes I ids. suffix_insert_all suffix_trie_new ps interner_new = Some (nodes, I) \<and>
         suffix_lookup_candidates nodes (lit ''x.ads.example.com'') I [] = Some ([] @ ids) \<and>
         set ids = {r. \<exists>d. (d, r) \<in> set ps \<and>
                        matches_domain_suffix (clean_domain (lit ''x.ads.example.com'')) (clean_domain d)})"
proof -
  have "total_labels [(lit ''Example.com.'', 0), (lit ''ads.example.com'', 1), (lit ''example.org'', 2)]
      = 7" by code_simp
  then have "total_labels [(lit ''Example.com.'', 0), (lit ''ads.example.com'', 1), (lit ''example.org'', 2)]
      < 4294967296" by (simp only:)
  from suffix_trie_lookup [OF this] this show ?thesis unfolding Let_def by blast
qed

text \<open>Filling a fresh \<^verbatim>\<open>PrefixTrie\<close> never fails while the characters stay below
  $2^{32}$; a lookup returns, for every non-empty inserted prefix of the query, the ids stored
  under it, the groups ordered by their smallest rule id.\<close>

lemma prefix_trie_lookup:
  assumes "total_len ps < 4294967296"
  shows "\<exists>nodes. prefix_insert_all prefix_trie_new ps = Some nodes \<and>
           prefix_lookup_candidates nodes q cs =
             Some (cs @ concat (sort_key min_rule_id
               (filter (\<lambda>g. g \<noteq> []) (map (ids_for ps) (tl (prefixes q))))))"
  by (rule prefix_trie_lookup_spec [OF assms])

lemma prefix_trie_lookup_witness:
  "let ps = [(lit ''track'', 4), (lit ''t'', 9), (lit ''ads'', 0), (lit ''tr'', 1)]
   in total_len ps < 4294967296 \<and>
      (\<exists>nodes. prefix_insert_all prefix_trie_new ps = Some nodes \<and>
         prefix_lookup_candidates nodes (lit ''tracker'') [7] = Some [7, 1, 4, 9])"
proof -
  let ?ps = "[(lit ''track'', 4), (lit ''t'', 9), (lit ''ads'', 0), (lit ''tr'', 1)]"
  have "total_len ?ps = 11" by code_simp
  then have b: "total_len ?ps < 4294967296" by simp
  have "[7] @ concat (sort_key min_rule_id (filter (\<lambda>g. g \<noteq> [])
      (map (ids_for ?ps) (tl (prefixes (lit ''tracker'')))))) = [7, 1, 4, 9]" by code_simp
  with prefix_trie_lookup [OF b, of "lit ''tracker''" "[7]"] b show ?thesis by (simp add: Let_def)
qed

text \<open>Interning is a bijection between labels and small integers: after any
  sequence of at most $2^{32}$ labels, the id handed out for a label is found again by
  \<^verbatim>\<open>lookup\<close> and \<^verbatim>\<open>get\<close> maps it back to that label, and no id names two labels.\<close>

lemma interner_roundtrip:
  assumes "length ls \<le> 4294967296" and "intern_all interner_new ls = (ks, I)"
  shows "map (interner_lookup I) ls = map Some ks \<and> map (interner_get I) ks = map Some ls \<and>
         (\<forall>l l' k. interner_lookup I l = Some k \<and> interner_lookup I l' = Some k \<longrightarrow> l = l') \<and>
         interner_len I \<le> length ls"
proof -
  have "length (li_labels interner_new) + length ls \<le> 4294967296"
    using assms(1) by (simp add: interner_new_def)
  from intern_all_spec [OF interner_inv_new this assms(2)] have I: "interner_inv I"
    "map (li_map I) ls = map Some ks" "length (li_labels I) \<le> length ls" by (auto simp: interner_new_def)
  have "map (interner_get I) ks = map Some ls"
    using I(2) I(1) by (induction ls arbitrary: ks) (auto simp: interner_get_def interner_inv_def idx_def)
  moreover have "\<forall>l l' k. interner_lookup I l = Some k \<and> interner_lookup I l' = Some k \<longrightarrow> l = l'"
    using interner_inv_inj [OF I(1)] unfolding interner_lookup_def by blast
  ultimately show ?thesis
    using I(2,3) unfolding interner_lookup_def interner_len_def by simp
qed

lemma interner_roundtrip_witness:
  "map (interner_get (snd (intern_all interner_new [lit ''com'', lit ''ads'', lit ''com''])))
     (fst (intern_all interner_new [lit ''com'', lit ''ads'', lit ''com''])) =
   map Some [lit ''com'', lit ''ads'', lit ''com'']"
  using interner_roundtrip [of "[lit ''com'', lit ''ads'', lit ''com'']", OF _ prod.collapse [symmetric]]
  by simp

end
