(* ===== verification/Rust_Net.thy ===== *)
theory Rust_Net
  imports Sito_Prelude "HOL-Library.Word"
begin

unbundle bit_operations_syntax

text \<open>
  The part of \<^verbatim>\<open>std::net\<close> the modelled code calls: \<^verbatim>\<open>IpAddr\<close>, its parser and its
  printer.  An IPv4 address is a 32-bit word, an IPv6 address a 128-bit word, as
  \<^verbatim>\<open>u32::from\<close> and \<^verbatim>\<open>u128::from\<close> see them.  The parser follows the recursive-descent
  parser of the standard library: every reader takes the remaining input and returns the value
  read with the rest, or \<open>None\<close> without consuming.
\<close>

datatype ip_addr = V4 "32 word" | V6 "128 word"

type_synonym 'a reader = "rstr \<Rightarrow> ('a \<times> rstr) option"


section \<open>Parsing\<close>

text \<open>\<^verbatim>\<open>Parser::read_number\<close> with a digit limit; \<open>zp\<close> is \<^verbatim>\<open>allow_zero_prefix\<close>.\<close>

fun span_digits :: "nat \<Rightarrow> rstr \<Rightarrow> nat list \<times> rstr" where
  "span_digits radix [] = ([], [])"
| "span_digits radix (c # s) =
     (case digit_val radix c of None \<Rightarrow> ([], c # s)
      | Some k \<Rightarrow> (let (ds, r) = span_digits radix s in (k # ds, r)))"

definition read_number :: "nat \<Rightarrow> nat \<Rightarrow> bool \<Rightarrow> nat \<Rightarrow> nat reader" where
  "read_number radix max_digits zp bound s =
     (let (ds, r) = span_digits radix s; v = foldl (\<lambda>a d. a * radix + d) 0 ds
      in if length ds > max_digits \<or> ds = [] then None
         else if \<not> zp \<and> hd ds = 0 \<and> length ds > 1 then None
         else if v < bound then Some (v, r) else None)"

definition read_char :: "rchar \<Rightarrow> unit reader" where
  "read_char c s = (case s of [] \<Rightarrow> None | d # r \<Rightarrow> if d = c then Some ((), r) else None)"

text \<open>\<^verbatim>\<open>Parser::read_separator\<close>\<close>

definition read_sep :: "rchar \<Rightarrow> nat \<Rightarrow> 'a reader \<Rightarrow> 'a reader" where
  "read_sep c i f s = (if i = 0 then f s else Option.bind (read_char c s) (\<lambda>(_, r). f r))"

definition read_octet :: "nat reader" where
  "read_octet = read_number 10 3 False 256"

definition read_ipv4 :: "nat list reader" where
  "read_ipv4 s =
     do { (a, s) \<leftarrow> read_octet s;
          (b, s) \<leftarrow> read_sep (cc CHR ''.'') 1 read_octet s;
          (c, s) \<leftarrow> read_sep (cc CHR ''.'') 2 read_octet s;
          (d, s) \<leftarrow> read_sep (cc CHR ''.'') 3 read_octet s;
          Some ([a, b, c, d], s) }"

definition v4_of_octets :: "nat list \<Rightarrow> 32 word" where
  "v4_of_octets os = word_of_nat (foldl (\<lambda>a d. a * 256 + d) 0 os)"

text \<open>\<^verbatim>\<open>read_groups\<close>: the groups from index \<open>i\<close> on, given \<open>k\<close> free slots, whether an
  embedded IPv4 address ended them, and the rest of the input.\<close>

fun read_groups :: "nat \<Rightarrow> nat \<Rightarrow> rstr \<Rightarrow> nat list \<times> bool \<times> rstr" where
  "read_groups i 0 s = ([], False, s)"
| "read_groups i (Suc k) s =
     (case (if 0 < k then read_sep (cc CHR '':'') i read_ipv4 s else None) of
        Some (os, r) \<Rightarrow>
          ([os ! 0 * 256 + os ! 1, os ! 2 * 256 + os ! 3], True, r)
      | None \<Rightarrow>
          (case read_sep (cc CHR '':'') i (read_number 16 4 True 65536) s of
             None \<Rightarrow> ([], False, s)
           | Some (g, r) \<Rightarrow>
               (let (gs, v4, r') = read_groups (Suc i) k r in (g # gs, v4, r'))))"

definition v6_of_segments :: "nat list \<Rightarrow> 128 word" where
  "v6_of_segments gs = word_of_nat (foldl (\<lambda>a d. a * 65536 + d) 0 gs)"

definition read_ipv6 :: "nat list reader" where
  "read_ipv6 s =
     (let (hd_gs, hd_v4, r) = read_groups 0 8 s
      in if length hd_gs = 8 then Some (hd_gs, r)
         else if hd_v4 then None
         else do { (_, r) \<leftarrow> read_char (cc CHR '':'') r;
                   (_, r) \<leftarrow> read_char (cc CHR '':'') r;
                   (let (tl_gs, _, r') = read_groups 0 (8 - (length hd_gs + 1)) r
                    in Some (hd_gs @ replicate (8 - length hd_gs - length tl_gs) 0 @ tl_gs, r')) })"

text \<open>\<^verbatim>\<open>Ipv4Addr::from_str\<close>, \<^verbatim>\<open>Ipv6Addr::from_str\<close>, \<^verbatim>\<open>IpAddr::from_str\<close>\<close>

definition parse_ipv4 :: "rstr \<Rightarrow> 32 word option" where
  "parse_ipv4 s =
     (if str_len s > 15 then None
      else case read_ipv4 s of Some (os, []) \<Rightarrow> Some (v4_of_octets os) | _ \<Rightarrow> None)"

definition parse_ipv6 :: "rstr \<Rightarrow> 128 word option" where
  "parse_ipv6 s = (case read_ipv6 s of Some (gs, []) \<Rightarrow> Some (v6_of_segments gs) | _ \<Rightarrow> None)"

definition parse_ip :: "rstr \<Rightarrow> ip_addr option" where
  "parse_ip s =
     (case read_ipv4 s of
        Some (os, []) \<Rightarrow> Some (V4 (v4_of_octets os))
      | Some (os, _ # _) \<Rightarrow> None
      | None \<Rightarrow> map_option V6 (parse_ipv6 s))"


section \<open>Printing\<close>

definition octets :: "32 word \<Rightarrow> nat list" where
  "octets w = map (\<lambda>i. unat w div 256 ^ (3 - i) mod 256) [0..<4]"

definition segments :: "128 word \<Rightarrow> nat list" where
  "segments w = map (\<lambda>i. unat w div 65536 ^ (7 - i) mod 65536) [0..<8]"

definition show_ipv4 :: "32 word \<Rightarrow> rstr" where
  "show_ipv4 w = join (lit ''.'') (map show_nat (octets w))"

text \<open>The first longest run of zero segments, as (start, length).\<close>

fun longest_zeroes :: "nat \<Rightarrow> nat \<times> nat \<Rightarrow> nat \<times> nat \<Rightarrow> nat list \<Rightarrow> nat \<times> nat" where
  "longest_zeroes i longest current [] = longest"
| "longest_zeroes i longest current (g # gs) =
     (if g = 0
      then (let cur = (if snd current = 0 then (i, 1) else (fst current, snd current + 1))
            in longest_zeroes (Suc i) (if snd cur > snd longest then cur else longest) cur gs)
      else longest_zeroes (Suc i) longest (0, 0) gs)"

definition fmt_subslice :: "nat list \<Rightarrow> rstr" where
  "fmt_subslice gs = join (lit '':'') (map (show_radix 16) gs)"

definition show_ipv6 :: "128 word \<Rightarrow> rstr" where
  "show_ipv6 w =
     (let gs = segments w
      in if take 6 gs = [0, 0, 0, 0, 0, 65535]
         then lit ''::ffff:'' @ show_ipv4 (word_of_nat (gs ! 6 * 65536 + gs ! 7))
         else (let (st, n) = longest_zeroes 0 (0, 0) (0, 0) gs
               in if n > 1
                  then fmt_subslice (take st gs) @ lit ''::'' @ fmt_subslice (drop (st + n) gs)
                  else fmt_subslice gs))"

fun show_ip :: "ip_addr \<Rightarrow> rstr" where
  "show_ip (V4 w) = show_ipv4 w"
| "show_ip (V6 w) = show_ipv6 w"


section \<open>Facts\<close>

lemma span_digits_append:
  assumes "\<forall>c\<in>set s. digit_val r c \<noteq> None"
    and "t = [] \<or> digit_val r (hd t) = None"
  shows "span_digits r (s @ t) = (map (\<lambda>c. the (digit_val r c)) s, t)"
  using assms(1)
proof (induction s)
  case Nil
  then show ?case using assms(2) by (cases t) auto
next
  case (Cons c s)
  then show ?case by (auto split: option.splits)
qed

lemma foldl_digits_val:
  assumes "digits_val r acc s = Some v"
  shows "foldl (\<lambda>a d. a * r + d) acc (map (\<lambda>c. the (digit_val r c)) s) = v"
  using assms by (induction s arbitrary: acc) (auto split: option.splits)

lemma digits_val_all: "digits_val r acc s = Some v \<Longrightarrow> c \<in> set s \<Longrightarrow> digit_val r c \<noteq> None"
  by (induction s arbitrary: acc) (auto split: option.splits)


section \<open>IPv4 addresses are read back as printed\<close>

lemma octet_text:
  assumes "n < 256"
  shows "length (show_nat n) \<le> 3 \<and> (hd (show_nat n) = 48 \<longrightarrow> length (show_nat n) = 1)"
proof -
  have one: "show_nat k = [48 + k]" if "k < 10" for k
    using that by (subst show_radix.simps) (simp add: digit_char_def)
  have more: "show_nat k = show_nat (k div 10) @ [48 + k mod 10]" if "10 \<le> k" for k
    using that by (subst show_radix.simps) (simp add: digit_char_def)
  consider "n < 10" | "10 \<le> n" "n < 100" | "100 \<le> n" by linarith
  then show ?thesis
  proof cases
    case 1
    then show ?thesis unfolding one [OF 1] by simp
  next
    case 2
    then show ?thesis by (simp add: more [of n] one [of "n div 10"])
  next
    case 3
    then have "10 \<le> n div 10" "n div 10 div 10 < 10" "0 < n div 10 div 10" using assms by simp_all
    with 3 show ?thesis by (simp add: more [of n] more [of "n div 10"] one [of "n div 10 div 10"])
  qed
qed

lemma read_octet_show:
  assumes n: "n < 256" and rest: "rest = [] \<or> digit_val 10 (hd rest) = None"
  shows "read_octet (show_nat n @ rest) = Some (n, rest)"
proof -
  have dv: "digits_val 10 0 (show_nat n) = Some n" by (rule digits_val_show_radix) simp_all
  have sp: "span_digits 10 (show_nat n @ rest) = (map (\<lambda>c. the (digit_val 10 c)) (show_nat n), rest)"
    using digits_val_all [OF dv] rest by (intro span_digits_append) auto
  have "the (digit_val 10 (hd (show_nat n))) = 0 \<longrightarrow> hd (show_nat n) = 48"
    using digits_val_all [OF dv, of "hd (show_nat n)"]
    by (auto simp: digit_val_def Let_def split: if_splits)
  with octet_text [OF n] n show ?thesis
    unfolding read_octet_def read_number_def sp foldl_digits_val [OF dv] Let_def prod.case
    by (auto simp: hd_map foldl_digits_val [OF dv])
qed

lemma div_pow_step: "n div b ^ Suc k * b + n div b ^ k mod b = n div (b ^ k :: nat)"
  using div_mult_mod_eq [of "n div b ^ k" b] by (simp add: div_mult2_eq [symmetric] mult.commute)

lemma octets_value: "v4_of_octets (octets w) = w"
proof -
  let ?n = "unat w"
  have "?n < 4294967296" using unsigned_less [of w, where ?'a = nat] by simp
  then have top: "?n div 16777216 mod 256 = ?n div 16777216" by simp
  have os: "octets w = [?n div 16777216 mod 256, ?n div 65536 mod 256, ?n div 256 mod 256, ?n mod 256]"
    by (simp add: octets_def upt_rec)
  have "?n div 16777216 * 256 + ?n div 65536 mod 256 = ?n div 65536"
    "?n div 65536 * 256 + ?n div 256 mod 256 = ?n div 256"
    "?n div 256 * 256 + ?n mod 256 = ?n"
    using div_pow_step [of ?n 256 2] div_pow_step [of ?n 256 1] div_pow_step [of ?n 256 0] by simp_all
  then have "foldl (\<lambda>a d. a * 256 + d) 0 (octets w) = ?n"
    by (simp only: os top foldl.simps mult_0 add_0)
  then show ?thesis by (simp add: v4_of_octets_def)
qed

lemma read_ipv4_show: "read_ipv4 (show_ipv4 w) = Some (octets w, [])"
proof -
  obtain a b c d where os: "octets w = [a, b, c, d]" and lt: "a < 256" "b < 256" "c < 256" "d < 256"
    by (simp add: octets_def upt_rec)
  have dot: "digit_val 10 46 = None" by code_simp
  show ?thesis
    using lt dot read_octet_show [OF lt(4), of "[]"]
    by (simp add: read_ipv4_def show_ipv4_def os read_octet_show read_sep_def read_char_def lit_simps)
qed

lemma parse_ip_show_v4: "parse_ip (show_ipv4 w) = Some (V4 w)"
  by (simp add: parse_ip_def read_ipv4_show octets_value)


text \<open>An IPv4 address accepted by \<^verbatim>\<open>IpAddr::from_str\<close> is accepted by \<^verbatim>\<open>Ipv4Addr::from_str\<close>.\<close>

lemma span_digits_text:
  "span_digits r s = (ds, rest) \<Longrightarrow> \<exists>p. s = p @ rest \<and> length p = length ds \<and> (\<forall>c\<in>set p. digit_val r c \<noteq> None)"
proof (induction s arbitrary: ds)
  case (Cons c s)
  show ?case
  proof (cases "digit_val r c")
    case None
    with Cons.prems show ?thesis by (intro exI [of _ "[]"]) auto
  next
    case (Some k)
    obtain ds' rest' where sp: "span_digits r s = (ds', rest')" by fastforce
    with Cons.prems Some have eq: "ds = k # ds'" "rest' = rest" by simp_all
    from Cons.IH [of ds'] sp eq obtain p where
      "s = p @ rest" "length p = length ds'" "\<forall>c\<in>set p. digit_val r c \<noteq> None" by blast
    with Some eq show ?thesis by (intro exI [of _ "c # p"]) simp
  qed
qed simp

lemma digit_val_ascii: "digit_val r c \<noteq> None \<Longrightarrow> is_ascii c"
  by (auto simp: digit_val_def Let_def is_ascii_def split: if_splits)

lemma read_octet_text:
  assumes "read_octet s = Some (v, rest)"
  shows "\<exists>p. s = p @ rest \<and> str_len p \<le> 3"
proof -
  obtain ds where ds: "span_digits 10 s = (ds, rest)" "length ds \<le> 3"
    using assms by (auto simp: read_octet_def read_number_def Let_def split: prod.splits if_splits)
  from span_digits_text [OF ds(1)] obtain p where
    p: "s = p @ rest" "length p = length ds" "\<forall>c\<in>set p. digit_val 10 c \<noteq> None" by blast
  then have "str_len p = length p" using digit_val_ascii by (intro str_len_ascii) blast
  with p ds(2) show ?thesis by auto
qed

lemma read_sep_octet_text:
  assumes "read_sep 46 (Suc i) read_octet s = Some (v, rest)"
  shows "\<exists>p. s = p @ rest \<and> str_len p \<le> 4"
proof -
  from assms obtain s' where s: "s = 46 # s'" and o: "read_octet s' = Some (v, rest)"
    by (auto simp: read_sep_def read_char_def bind_eq_Some_conv split: list.splits if_splits)
  from read_octet_text [OF o] obtain p where "s' = p @ rest" "str_len p \<le> 3" by blast
  with s show ?thesis by (intro exI [of _ "46 # p"]) (simp add: str_len_def len_utf8_def)
qed

lemma read_ipv4_text:
  assumes "read_ipv4 s = Some (os, rest)"
  shows "\<exists>p. s = p @ rest \<and> str_len p \<le> 15"
proof -
  from assms obtain a b c d s1 s2 s3 where
    "read_octet s = Some (a, s1)" "read_sep 46 (Suc 0) read_octet s1 = Some (b, s2)"
    "read_sep 46 (Suc 1) read_octet s2 = Some (c, s3)" "read_sep 46 (Suc 2) read_octet s3 = Some (d, rest)"
    by (auto simp: read_ipv4_def bind_eq_Some_conv eval_nat_numeral)
  from read_octet_text [OF this(1)] read_sep_octet_text [OF this(2)]
    read_sep_octet_text [OF this(3)] read_sep_octet_text [OF this(4)]
  obtain p1 p2 p3 p4 where "s = p1 @ s1" "s1 = p2 @ s2" "s2 = p3 @ s3" "s3 = p4 @ rest"
    "str_len p1 \<le> 3" "str_len p2 \<le> 4" "str_len p3 \<le> 4" "str_len p4 \<le> 4" by blast
  then show ?thesis by (intro exI [of _ "p1 @ p2 @ p3 @ p4"]) (simp add: str_len_def)
qed

lemma parse_ip_v4: "parse_ip s = Some (V4 w) \<Longrightarrow> parse_ipv4 s = Some w"
  using read_ipv4_text [of s]
  by (fastforce simp: parse_ip_def parse_ipv4_def split: option.splits list.splits prod.splits)

end
