(* ===== verification/Core_Types.thy ===== *)
theory Core_Types
  imports Rust_Net
begin

text \<open>
  The types of \<^verbatim>\<open>sito-core\<close> the filter shares with the rest of the server: the client
  context of a query (\<^verbatim>\<open>client.rs\<close>) and the verdict of the filter (\<^verbatim>\<open>verdict.rs\<close>).
\<close>


section \<open>Client contexts\<close>

record client_context =
  cx_ip :: ip_addr
  cx_proto :: rstr
  cx_id :: "rstr option"
  cx_sni :: "rstr option"
  cx_mac :: "rstr option"
  cx_client_name :: "rstr option"
  cx_group :: "rstr option"

definition default_proto :: rstr where
  "default_proto = lit ''udp''"

definition ctx_new :: "ip_addr \<Rightarrow> client_context" where
  "ctx_new ip =
     \<lparr>cx_ip = ip, cx_proto = default_proto, cx_id = None, cx_sni = None, cx_mac = None,
      cx_client_name = None, cx_group = None\<rparr>"

definition ctx_with_id :: "ip_addr \<Rightarrow> rstr \<Rightarrow> client_context" where
  "ctx_with_id ip i =
     \<lparr>cx_ip = ip, cx_proto = default_proto, cx_id = Some i, cx_sni = None, cx_mac = None,
      cx_client_name = None, cx_group = None\<rparr>"

definition ctx_with_sni :: "ip_addr \<Rightarrow> rstr \<Rightarrow> client_context" where
  "ctx_with_sni ip s =
     \<lparr>cx_ip = ip, cx_proto = default_proto, cx_id = Some s, cx_sni = Some s, cx_mac = None,
      cx_client_name = None, cx_group = None\<rparr>"

definition with_proto :: "client_context \<Rightarrow> rstr \<Rightarrow> client_context" where
  "with_proto ctx proto = ctx\<lparr>cx_proto := proto\<rparr>"

definition with_mac :: "client_context \<Rightarrow> rstr \<Rightarrow> client_context" where
  "with_mac ctx mac = ctx\<lparr>cx_mac := Some mac\<rparr>"

definition with_client_name :: "client_context \<Rightarrow> rstr \<Rightarrow> client_context" where
  "with_client_name ctx name = ctx\<lparr>cx_client_name := Some name\<rparr>"

definition with_group :: "client_context \<Rightarrow> rstr \<Rightarrow> client_context" where
  "with_group ctx g = ctx\<lparr>cx_group := Some g\<rparr>"


section \<open>Verdicts\<close>

record rule_ref =
  rf_list_name :: "rstr option"
  rf_line_number :: "nat option"
  rf_rule_text :: rstr
  rf_via_cname :: bool
  rf_cname_target :: "rstr option"

definition rule_ref_new :: "rstr \<Rightarrow> rule_ref" where
  "rule_ref_new rule_text =
     \<lparr>rf_list_name = None, rf_line_number = None, rf_rule_text = rule_text,
      rf_via_cname = False, rf_cname_target = None\<rparr>"

definition with_source :: "rule_ref \<Rightarrow> rstr \<Rightarrow> nat \<Rightarrow> rule_ref" where
  "with_source r list_name line = r\<lparr>rf_list_name := Some list_name, rf_line_number := Some line\<rparr>"

definition with_via_cname :: "rule_ref \<Rightarrow> bool \<Rightarrow> rule_ref" where
  "with_via_cname r via = r\<lparr>rf_via_cname := via\<rparr>"

definition with_cname_target :: "rule_ref \<Rightarrow> rstr \<Rightarrow> rule_ref" where
  "with_cname_target r target = r\<lparr>rf_cname_target := Some target\<rparr>"

datatype block_reason =
    BRule rule_ref
  | BParental
  | BService rstr
  | BAntiDohBypass
  | BFilterUnavailable

datatype rewrite_action =
    SynthesizeAnswer
  | DnsRewrite rstr "rstr option" "rstr option"

datatype verdict =
    VAllow "rule_ref option"
  | VBlock block_reason
  | VRewrite rewrite_action

definition is_blocked :: "verdict \<Rightarrow> bool" where
  "is_blocked v = (case v of VBlock _ \<Rightarrow> True | _ \<Rightarrow> False)"

definition is_allowed :: "verdict \<Rightarrow> bool" where
  "is_allowed v = (case v of VAllow _ \<Rightarrow> True | _ \<Rightarrow> False)"

end
