(* ===== verification/Rule_Syntax.thy ===== *)
theory Rule_Syntax
  imports Core_Types Domain_Names
begin

unbundle bit_operations_syntax

text \<open>
  The data of a filter rule and its evaluation against a query
  (\<^verbatim>\<open>sito-filter/src/parser.rs\<close>, the types and their methods): patterns, the
  \<^verbatim>\<open>$client\<close>, \<^verbatim>\<open>$dnstype\<close>, \<^verbatim>\<open>$denyallow\<close> and \<^verbatim>\<open>$dnsrewrite\<close> modifiers, their
  printers, and the canonical text that identifies a rule for \<^verbatim>\<open>$badfilter\<close>.
\<close>


section \<open>Kinds, patterns and client matchers\<close>

datatype rule_kind = Allow | Block

definition show_kind :: "rule_kind \<Rightarrow> rstr" where
  "show_kind k = (case k of Allow \<Rightarrow> lit ''@@'' | Block \<Rightarrow> [])"

datatype pattern =
    Exact rstr
  | Domain rstr
  | Prefix rstr
  | Substring rstr
  | Wildcard rstr
  | Regex rstr

datatype client_matcher =
    Ip ip_addr
  | Cidr ip_addr nat
  | Name rstr

text \<open>The mask of the source, \<^verbatim>\<open>!((1 << (w - prefix)) - 1)\<close>, at the width of the address.\<close>

definition cidr_matches :: "ip_addr \<Rightarrow> nat \<Rightarrow> ip_addr \<Rightarrow> bool" where
  "cidr_matches net_ip pre target =
     (case (net_ip, target) of
        (V4 net, V4 tgt) \<Rightarrow>
          if pre > 32 then False
          else if pre = 0 then True
          else let mask = (if pre = 32 then - 1 else NOT (push_bit (32 - pre) 1 - 1))
               in (net AND mask) = (tgt AND mask)
      | (V6 net, V6 tgt) \<Rightarrow>
          if pre > 128 then False
          else if pre = 0 then True
          else let mask = (if pre = 128 then - 1 else NOT (push_bit (128 - pre) 1 - 1))
               in (net AND mask) = (tgt AND mask)
      | _ \<Rightarrow> False)"

definition matcher_matches :: "client_matcher \<Rightarrow> client_context \<Rightarrow> bool" where
  "matcher_matches m ctx =
     (case m of
        Ip ip \<Rightarrow> cx_ip ctx = ip
      | Cidr ip pre \<Rightarrow> cidr_matches ip pre (cx_ip ctx)
      | Name name \<Rightarrow>
          if (case cx_client_name ctx of None \<Rightarrow> False | Some n \<Rightarrow> eq_ignore_ascii_case n name) then True
          else if (case cx_group ctx of None \<Rightarrow> False | Some g \<Rightarrow> eq_ignore_ascii_case g name) then True
          else if (case cx_mac ctx of None \<Rightarrow> False | Some m \<Rightarrow> eq_ignore_ascii_case m name) then True
          else False)"

definition client_special :: "rchar \<Rightarrow> bool" where
  "client_special c \<longleftrightarrow> c \<in> set (map of_char [CHR 0x27, CHR 0x22, CHR 0x5C, CHR 0x2C, CHR 0x7C])"

definition needs_client_quoting :: "rstr \<Rightarrow> bool" where
  "needs_client_quoting name \<longleftrightarrow>
     name = [] \<or> prefix (lit ''~'') name \<or> list_ex (\<lambda>c. is_whitespace c \<or> client_special c) name"

text \<open>The loop that writes a backslash before each special character.\<close>

definition escape_client :: "rstr \<Rightarrow> rstr" where
  "escape_client name = concat (map (\<lambda>c. if client_special c then [92, c] else [c]) name)"

definition show_matcher :: "client_matcher \<Rightarrow> rstr" where
  "show_matcher m =
     (case m of
        Ip ip \<Rightarrow> show_ip ip
      | Cidr ip pre \<Rightarrow> show_ip ip @ lit ''/'' @ show_nat pre
      | Name name \<Rightarrow>
          if \<not> needs_client_quoting name then name
          else [39] @ escape_client name @ [39])"

record client_filter =
  cf_positive :: "client_matcher list"
  cf_negative :: "client_matcher list"

definition client_filter_default :: client_filter where
  "client_filter_default = \<lparr>cf_positive = [], cf_negative = []\<rparr>"

definition client_filter_matches :: "client_filter \<Rightarrow> client_context \<Rightarrow> bool" where
  "client_filter_matches f ctx =
     (if list_ex (\<lambda>neg. matcher_matches neg ctx) (cf_negative f) then False
      else if cf_positive f \<noteq> [] then list_ex (\<lambda>pos. matcher_matches pos ctx) (cf_positive f)
      else True)"

definition show_client_filter :: "client_filter \<Rightarrow> rstr" where
  "show_client_filter f =
     join (lit ''|'')
       (sort (map show_matcher (cf_positive f) @ map (\<lambda>n. lit ''~'' @ show_matcher n) (cf_negative f)))"


section \<open>The other modifiers\<close>

text \<open>A record type is its 16-bit code.\<close>

record dnstype_filter =
  dt_positive :: "nat list"
  dt_negative :: "nat list"

definition dnstype_filter_default :: dnstype_filter where
  "dnstype_filter_default = \<lparr>dt_positive = [], dt_negative = []\<rparr>"

definition dnstype_filter_matches :: "dnstype_filter \<Rightarrow> nat \<Rightarrow> bool" where
  "dnstype_filter_matches f code =
     (if list_ex (\<lambda>neg. neg = code) (dt_negative f) then False
      else if dt_positive f \<noteq> [] then List.member (dt_positive f) code
      else True)"

definition show_dnstype_filter :: "dnstype_filter \<Rightarrow> rstr" where
  "show_dnstype_filter f =
     join (lit ''|'')
       (sort (map show_nat (dt_positive f) @ map (\<lambda>n. lit ''~'' @ show_nat n) (dt_negative f)))"

record dns_rewrite_rule =
  rw_rcode :: rstr
  rw_rtype :: "rstr option"
  rw_value :: "rstr option"
  rw_bare :: bool

definition unwrap_or :: "'a option \<Rightarrow> 'a \<Rightarrow> 'a" where
  "unwrap_or x d = (case x of None \<Rightarrow> d | Some v \<Rightarrow> v)"

definition show_dns_rewrite :: "dns_rewrite_rule \<Rightarrow> rstr" where
  "show_dns_rewrite w =
     rw_rcode w @ lit '';'' @ unwrap_or (rw_rtype w) [] @ lit '';'' @ unwrap_or (rw_value w) []"

record rule_modifiers =
  m_important :: bool
  m_badfilter :: bool
  m_client :: "client_filter option"
  m_dnstype :: "dnstype_filter option"
  m_denyallow :: "rstr list option"
  m_dnsrewrite :: "dns_rewrite_rule option"

definition modifiers_default :: rule_modifiers where
  "modifiers_default =
     \<lparr>m_important = False, m_badfilter = False, m_client = None, m_dnstype = None,
      m_denyallow = None, m_dnsrewrite = None\<rparr>"

definition denyallow_matches :: "rule_modifiers \<Rightarrow> rstr \<Rightarrow> bool" where
  "denyallow_matches m fqdn =
     (case m_denyallow m of
        None \<Rightarrow> False
      | Some ds \<Rightarrow>
          (let lowered = to_ascii_lowercase fqdn;
               domain = strip_suffix_or (lit ''.'') lowered
           in list_ex (\<lambda>d. matches_domain_suffix domain d) ds))"


section \<open>Rules and their canonical text\<close>

record rule =
  r_kind :: rule_kind
  r_pattern :: pattern
  r_modifiers :: rule_modifiers
  r_source :: rstr
  r_line :: nat
  r_raw :: rstr
  r_canonical :: rstr

definition canonical_pattern :: "pattern \<Rightarrow> rstr" where
  "canonical_pattern p =
     (case p of
        Exact d \<Rightarrow> lit ''|'' @ d @ lit ''|''
      | Domain d \<Rightarrow> lit ''||'' @ d @ lit ''^''
      | Prefix q \<Rightarrow> lit ''|'' @ q
      | Substring sub \<Rightarrow> sub
      | Wildcard w \<Rightarrow> w
      | Regex r \<Rightarrow> lit ''/'' @ r @ lit ''/'')"

definition canonical_opts :: "rule_modifiers \<Rightarrow> rstr list" where
  "canonical_opts m =
     (case m_client m of None \<Rightarrow> [] | Some c \<Rightarrow> [lit ''client='' @ show_client_filter c]) @
     (case m_denyallow m of None \<Rightarrow> []
      | Some ds \<Rightarrow> [lit ''denyallow='' @ join (lit ''|'') (sort ds)]) @
     (case m_dnstype m of None \<Rightarrow> [] | Some d \<Rightarrow> [lit ''dnstype='' @ show_dnstype_filter d]) @
     (case m_dnsrewrite m of None \<Rightarrow> []
      | Some w \<Rightarrow> if rw_bare w then [lit ''dnsrewrite'']
                  else [lit ''dnsrewrite='' @ show_dns_rewrite w]) @
     (if m_important m then [lit ''important''] else [])"

definition compute_canonical :: "rule_kind \<Rightarrow> pattern \<Rightarrow> rule_modifiers \<Rightarrow> rstr" where
  "compute_canonical kind p m =
     (let s = (if kind = Allow then lit ''@@'' else []) @ canonical_pattern p;
          opts = canonical_opts m
      in if opts \<noteq> [] then s @ lit ''$'' @ join (lit '','') (sort opts) else s)"


section \<open>CIDR blocks\<close>

lemma mask_and_eq_iff:
  fixes a b :: "'a::len word"
  shows "a AND NOT (push_bit n 1 - 1) = b AND NOT (push_bit n 1 - 1) \<longleftrightarrow> drop_bit n a = drop_bit n b"
proof -
  have "push_bit n 1 - 1 = (mask n :: 'a word)" by (simp add: mask_eq_exp_minus_1 push_bit_eq_mult)
  moreover have "x AND NOT (mask n) = push_bit n (drop_bit n x)" for x :: "'a word"
    by (rule bit_eqI) (auto simp: bit_simps)
  moreover have "drop_bit n (push_bit n (drop_bit n x)) = drop_bit n x" for x :: "'a word"
    by (rule bit_eqI) (auto simp: bit_simps dest: bit_imp_le_length)
  then have "push_bit n (drop_bit n a) = push_bit n (drop_bit n b) \<longleftrightarrow> drop_bit n a = drop_bit n b"
    by metis
  ultimately show ?thesis by simp
qed

lemma drop_all_bits: "drop_bit LENGTH('a) (x :: 'a::len word) = 0"
  by (rule bit_eqI) (auto simp: bit_simps dest: bit_imp_le_length)

text \<open>The test \<^verbatim>\<open>cidr_matches\<close> holds exactly when both addresses have the same
  family, the prefix length is legal for it and the leading bits agree; no shift or mask of the
  source overflows for any prefix length, 0 and the full width included.\<close>

lemma cidr_matches_prefix_bits:
  "cidr_matches net p tgt \<longleftrightarrow>
     (case (net, tgt) of
        (V4 n, V4 t) \<Rightarrow> p \<le> 32 \<and> drop_bit (32 - p) n = drop_bit (32 - p) t
      | (V6 n, V6 t) \<Rightarrow> p \<le> 128 \<and> drop_bit (128 - p) n = drop_bit (128 - p) t
      | _ \<Rightarrow> False)"
proof -
  have "cidr_matches (V4 n) p (V4 t) \<longleftrightarrow> p \<le> 32 \<and> drop_bit (32 - p) n = drop_bit (32 - p) t" for n t
    using mask_and_eq_iff [of n "32 - p" t] drop_all_bits [of n] drop_all_bits [of t]
    by (auto simp: cidr_matches_def Let_def)
  moreover have "cidr_matches (V6 n) p (V6 t) \<longleftrightarrow> p \<le> 128 \<and> drop_bit (128 - p) n = drop_bit (128 - p) t" for n t
    using mask_and_eq_iff [of n "128 - p" t] drop_all_bits [of n] drop_all_bits [of t]
    by (auto simp: cidr_matches_def Let_def)
  ultimately show ?thesis
    by (cases net; cases tgt) (simp_all add: cidr_matches_def)
qed

end
