(* ===== verification/Rule_Compile.thy ===== *)
theory Rule_Compile
  imports Label_Trie Rule_Syntax
begin

text \<open>
  Compilation of the rules of one list kind into lookup structures
  (\<^verbatim>\<open>sito-filter/src/structures/compiled.rs\<close>).  The Aho-Corasick automaton, the regex DFA and
  the iteration order of a hash map belong to other code: the record \<open>matchers\<close> holds their
  operations and every definition that calls them takes it as its first argument.  A time
  budget carries the successive readings of the clock; definitions that check it thread the
  number of readings made so far.
\<close>


section \<open>The operations of other crates\<close>

record ('ac, 'dfa) matchers =
  ac_build :: "rstr list \<Rightarrow> 'ac option"
  ac_find :: "'ac \<Rightarrow> rstr \<Rightarrow> nat list"
  dfa_build :: "rstr list \<Rightarrow> 'dfa option"
  dfa_find :: "'dfa \<Rightarrow> rstr \<Rightarrow> nat list option"
  hash_iter :: "(rstr \<times> nat list) list \<Rightarrow> (rstr \<times> nat list) list"

definition max_regex_patterns :: nat where
  "max_regex_patterns = 10000"

definition max_regex_pattern_bytes :: nat where
  "max_regex_pattern_bytes = 4 * 1024 * 1024"

definition max_regex_pattern_len :: nat where
  "max_regex_pattern_len = 16 * 1024"

definition regex_batch_size :: nat where
  "regex_batch_size = 128"

definition max_regex_batches :: nat where
  "max_regex_batches = 512"


section \<open>The compile budget\<close>

text \<open>\<open>cb_elapsed k\<close> is the \<open>k\<close>-th reading of \<^verbatim>\<open>start.elapsed()\<close>, in nanoseconds.\<close>

record compile_budget =
  cb_elapsed :: "nat \<Rightarrow> nat"
  cb_max :: nat

record compile_budget_exceeded =
  ex_elapsed_ms :: nat
  ex_limit_ms :: nat

definition duration_millis :: "nat \<Rightarrow> nat" where
  "duration_millis ns = (let ms = ns div 1000000 in if ms \<le> u64_max then ms else u64_max)"

definition budget_expired :: "compile_budget \<Rightarrow> nat \<Rightarrow> bool" where
  "budget_expired b t \<longleftrightarrow> cb_elapsed b t \<ge> cb_max b"

definition budget_exceeded :: "compile_budget \<Rightarrow> nat \<Rightarrow> compile_budget_exceeded" where
  "budget_exceeded b t =
     \<lparr>ex_elapsed_ms = duration_millis (cb_elapsed b t), ex_limit_ms = duration_millis (cb_max b)\<rparr>"

text \<open>\<^verbatim>\<open>if let Some(budget) = budget && budget.expired() { return Err(budget.exceeded()) }\<close>\<close>

definition check_budget :: "compile_budget option \<Rightarrow> nat \<Rightarrow> compile_budget_exceeded + nat" where
  "check_budget budget t =
     (case budget of
        None \<Rightarrow> Inr t
      | Some b \<Rightarrow> if budget_expired b t then Inl (budget_exceeded b (t + 1)) else Inr (t + 1))"


section \<open>Regex batches\<close>

record 'dfa regex_batch =
  rb_dfa :: 'dfa
  rb_pattern_to_rules :: "nat list list"

type_synonym 'dfa batch_state = "'dfa regex_batch list \<times> nat \<times> nat"

function build_regex_batch ::
  "('ac, 'dfa) matchers \<Rightarrow> compile_budget option \<Rightarrow> rstr list \<Rightarrow> nat list list \<Rightarrow>
   'dfa batch_state \<Rightarrow> compile_budget_exceeded + 'dfa batch_state" where
  "build_regex_batch M budget patterns rules (batches, dropped, t) =
     (if patterns = [] then Inr (batches, dropped, t)
      else case check_budget budget t of
        Inl e \<Rightarrow> Inl e
      | Inr t' \<Rightarrow>
          (case dfa_build M patterns of
             Some d \<Rightarrow> Inr (batches @ [\<lparr>rb_dfa = d, rb_pattern_to_rules = rules\<rparr>], dropped, t')
           | None \<Rightarrow>
               if length patterns = 1 then Inr (batches, dropped + 1, t')
               else (let mid = length patterns div 2
                     in case build_regex_batch M budget (take mid patterns) (take mid rules)
                               (batches, dropped, t') of
                          Inl e \<Rightarrow> Inl e
                        | Inr st \<Rightarrow>
                            build_regex_batch M budget (drop mid patterns) (drop mid rules) st)))"
  by pat_completeness auto
termination
proof (relation "measure (\<lambda>(M, budget, patterns, rules, st). length patterns)", goal_cases)
  case (2 M budget patterns rules batches dropped t t' mid)
  then show ?case by (cases patterns) auto
next
  case (3 M budget patterns rules batches dropped t t' mid st)
  then show ?case by (cases patterns; cases "tl patterns") auto
qed simp

declare build_regex_batch.simps [simp del]

text \<open>\<^verbatim>\<open>slice::chunks\<close>\<close>

function chunks :: "nat \<Rightarrow> 'a list \<Rightarrow> 'a list list" where
  "chunks n xs = (if n = 0 \<or> xs = [] then [] else take n xs # chunks n (drop n xs))"
  by pat_completeness auto
termination by (relation "measure (\<lambda>(n, xs). length xs)") auto

declare chunks.simps [simp del]

fun build_chunks ::
  "('ac, 'dfa) matchers \<Rightarrow> compile_budget option \<Rightarrow> (rstr list \<times> nat list list) list \<Rightarrow>
   'dfa batch_state \<Rightarrow> compile_budget_exceeded + 'dfa batch_state" where
  "build_chunks M budget [] st = Inr st"
| "build_chunks M budget ((patterns, rules) # cs) (batches, dropped, t) =
     (case check_budget budget t of
        Inl e \<Rightarrow> Inl e
      | Inr t' \<Rightarrow>
          (case build_regex_batch M budget patterns rules (batches, dropped, t') of
             Inl e \<Rightarrow> Inl e
           | Inr st \<Rightarrow> build_chunks M budget cs st))"


section \<open>Wildcards as regexes\<close>

definition regex_escaped :: "rchar \<Rightarrow> bool" where
  "regex_escaped c \<longleftrightarrow> c \<in> set (lit ''.+()[]{}^$|'') \<or> c = 92"

definition wildcard_char :: "rchar \<Rightarrow> rstr" where
  "wildcard_char c =
     (if c = cc CHR ''*'' then lit ''.*''
      else if c = cc CHR ''?'' then lit ''.''
      else if regex_escaped c then [92, c]
      else [c])"

definition wildcard_to_regex :: "rstr \<Rightarrow> rstr" where
  "wildcard_to_regex w =
     (let (start, body) = (case strip_prefix (lit ''||'') w of
                             Some rest \<Rightarrow> (lit ''^(?:.*'' @ [92] @ lit ''.)?'', rest)
                           | None \<Rightarrow> (lit ''^'', w));
          body' = strip_suffix_or (lit ''^'') body
      in start @ concat (map wildcard_char body') @ lit ''$'')"


section \<open>The builder\<close>

record rule_set_builder =
  b_exact_rules :: "rstr \<Rightarrow> nat list option"
  b_trie_domains :: "(rstr \<times> nat) list"
  b_prefixes :: "(rstr \<times> nat) list"
  b_substrings :: "(rstr \<times> nat) list"
  b_regexes :: "(rstr \<times> nat) list"

definition builder_new :: rule_set_builder where
  "builder_new = \<lparr>b_exact_rules = Map.empty, b_trie_domains = [], b_prefixes = [],
                  b_substrings = [], b_regexes = []\<rparr>"

definition add_exact :: "rule_set_builder \<Rightarrow> rstr \<Rightarrow> nat \<Rightarrow> rule_set_builder" where
  "add_exact b d rule_id =
     b\<lparr>b_exact_rules := (b_exact_rules b)(d \<mapsto> unwrap_or (b_exact_rules b d) [] @ [rule_id])\<rparr>"

definition add_domain :: "rule_set_builder \<Rightarrow> rstr \<Rightarrow> nat \<Rightarrow> rule_set_builder" where
  "add_domain b d rule_id = b\<lparr>b_trie_domains := b_trie_domains b @ [(d, rule_id)]\<rparr>"

definition add_prefix :: "rule_set_builder \<Rightarrow> rstr \<Rightarrow> nat \<Rightarrow> rule_set_builder" where
  "add_prefix b p rule_id = b\<lparr>b_prefixes := b_prefixes b @ [(p, rule_id)]\<rparr>"

definition add_substring :: "rule_set_builder \<Rightarrow> rstr \<Rightarrow> nat \<Rightarrow> rule_set_builder" where
  "add_substring b s rule_id = b\<lparr>b_substrings := b_substrings b @ [(s, rule_id)]\<rparr>"

definition add_regex :: "rule_set_builder \<Rightarrow> rstr \<Rightarrow> nat \<Rightarrow> rule_set_builder" where
  "add_regex b p rule_id = b\<lparr>b_regexes := b_regexes b @ [(p, rule_id)]\<rparr>"

definition add_wildcard :: "rule_set_builder \<Rightarrow> rstr \<Rightarrow> nat \<Rightarrow> rule_set_builder" where
  "add_wildcard b w rule_id = b\<lparr>b_regexes := b_regexes b @ [(wildcard_to_regex w, rule_id)]\<rparr>"

text \<open>\<^verbatim>\<open>map.entry(key).or_default().push(id)\<close> over a list, the map as an association list.\<close>

fun entry_push :: "(rstr \<times> nat list) list \<Rightarrow> rstr \<Rightarrow> nat \<Rightarrow> (rstr \<times> nat list) list" where
  "entry_push [] k i = [(k, [i])]"
| "entry_push ((k', is') # es) k i =
     (if k' = k then (k', is' @ [i]) # es else (k', is') # entry_push es k i)"

definition group_entries :: "(rstr \<times> nat) list \<Rightarrow> (rstr \<times> nat list) list" where
  "group_entries ps = foldl (\<lambda>es (k, i). entry_push es k i) [] ps"

definition sorted_entries :: "('ac, 'dfa) matchers \<Rightarrow> (rstr \<times> nat) list \<Rightarrow> (rstr \<times> nat list) list" where
  "sorted_entries M ps = sort_key (\<lambda>(_, rules). min_rule_id rules) (hash_iter M (group_entries ps))"

definition build_ac :: "('ac, 'dfa) matchers \<Rightarrow> (rstr \<times> nat) list \<Rightarrow> 'ac option \<times> nat list list" where
  "build_ac M substrings =
     (if substrings = [] then (None, [])
      else (let entries = sorted_entries M substrings
            in case ac_build M (map fst entries) of
                 Some automaton \<Rightarrow> (Some automaton, map snd entries)
               | None \<Rightarrow> (None, [])))"

definition truncate_batches :: "'dfa regex_batch list \<Rightarrow> nat \<Rightarrow> 'dfa regex_batch list \<times> nat" where
  "truncate_batches batches dropped =
     (if length batches > max_regex_batches
      then (take max_regex_batches batches,
            dropped + sum_list (map (\<lambda>b. length (rb_pattern_to_rules b)) (drop max_regex_batches batches)))
      else (batches, dropped))"

definition build_regexes ::
  "('ac, 'dfa) matchers \<Rightarrow> compile_budget option \<Rightarrow> (rstr \<times> nat) list \<Rightarrow> nat \<Rightarrow>
   compile_budget_exceeded + 'dfa batch_state" where
  "build_regexes M budget regexes t =
     (if regexes = [] then Inr ([], 0, t)
      else
        let entries = sorted_entries M regexes;
            kept = filter (\<lambda>(pat, _). \<not> str_len pat > max_regex_pattern_len) entries;
            dropped = length (filter (\<lambda>(pat, _). str_len pat > max_regex_pattern_len) entries);
            pat_strings = map fst kept; pat_to_rules = map snd kept;
            total_pattern_bytes = sum_list (map str_len pat_strings)
        in if length pat_strings > max_regex_patterns \<or> total_pattern_bytes > max_regex_pattern_bytes
           then Inr ([], dropped + length pat_strings, t)
           else if pat_strings = [] then Inr ([], dropped, t)
           else case build_chunks M budget
                       (zip (chunks regex_batch_size pat_strings) (chunks regex_batch_size pat_to_rules))
                       ([], 0, t) of
             Inl e \<Rightarrow> Inl e
           | Inr (batches, dropped_in_batches, t') \<Rightarrow>
               (let (batches', dropped') = truncate_batches batches dropped_in_batches
                in Inr (batches', dropped + dropped', t')))"

record ('ac, 'dfa) compiled_rule_set =
  cs_exact_rules :: "rstr \<Rightarrow> nat list option"
  cs_trie :: suffix_trie
  cs_ac :: "'ac option"
  cs_ac_pattern_to_rules :: "nat list list"
  cs_regex_batches :: "'dfa regex_batch list"
  cs_dropped_regex_patterns :: nat
  cs_prefix_trie :: prefix_trie

definition compiled_default :: "('ac, 'dfa) compiled_rule_set" where
  "compiled_default =
     \<lparr>cs_exact_rules = Map.empty, cs_trie = suffix_trie_new, cs_ac = None, cs_ac_pattern_to_rules = [],
      cs_regex_batches = [], cs_dropped_regex_patterns = 0, cs_prefix_trie = prefix_trie_new\<rparr>"

text \<open>The outer \<open>None\<close> is an index panic of the tries; \<open>Inl\<close> is an exhausted budget.\<close>

definition build_with_budget ::
  "('ac, 'dfa) matchers \<Rightarrow> compile_budget option \<Rightarrow> rule_set_builder \<Rightarrow> label_interner \<Rightarrow> nat \<Rightarrow>
   (compile_budget_exceeded + ('ac, 'dfa) compiled_rule_set \<times> label_interner \<times> nat) option" where
  "build_with_budget M budget b I t =
     (case check_budget budget t of
        Inl e \<Rightarrow> Some (Inl e)
      | Inr t1 \<Rightarrow>
          do { (trie, I') \<leftarrow> suffix_insert_all suffix_trie_new (b_trie_domains b) I;
               pt \<leftarrow> prefix_insert_all prefix_trie_new (b_prefixes b);
               let (ac, ac_rules) = build_ac M (b_substrings b);
               Some (case build_regexes M budget (b_regexes b) t1 of
                       Inl e \<Rightarrow> Inl e
                     | Inr (batches, dropped, t2) \<Rightarrow>
                         Inr (\<lparr>cs_exact_rules = b_exact_rules b, cs_trie = trie, cs_ac = ac,
                               cs_ac_pattern_to_rules = ac_rules, cs_regex_batches = batches,
                               cs_dropped_regex_patterns = dropped, cs_prefix_trie = pt\<rparr>, I', t2)) })"

definition build ::
  "('ac, 'dfa) matchers \<Rightarrow> rule_set_builder \<Rightarrow> label_interner \<Rightarrow>
   (('ac, 'dfa) compiled_rule_set \<times> label_interner) option" where
  "build M b I =
     do { res \<leftarrow> build_with_budget M None b I 0;
          Some (case res of Inr (compiled, I', _) \<Rightarrow> (compiled, I') | Inl e \<Rightarrow> (compiled_default, I)) }"


section \<open>Lookup\<close>

text \<open>\<^verbatim>\<open>if let Some(rules) = table.get(i) { candidates.extend_from_slice(rules) }\<close> over the
  pattern indices of a search.\<close>

definition rules_at :: "nat list list \<Rightarrow> nat list \<Rightarrow> nat list" where
  "rules_at table is' = concat (map (\<lambda>i. unwrap_or (idx table i) []) is')"

definition batch_candidates :: "('ac, 'dfa) matchers \<Rightarrow> rstr \<Rightarrow> 'dfa regex_batch \<Rightarrow> nat list" where
  "batch_candidates M domain batch =
     (case dfa_find M (rb_dfa batch) domain of
        None \<Rightarrow> []
      | Some pats \<Rightarrow> rules_at (rb_pattern_to_rules batch) pats)"

definition collect_candidates ::
  "('ac, 'dfa) matchers \<Rightarrow> ('ac, 'dfa) compiled_rule_set \<Rightarrow> rstr \<Rightarrow> label_interner \<Rightarrow> nat list \<Rightarrow>
   nat list option" where
  "collect_candidates M cs domain I candidates =
     do { let c1 = candidates @ unwrap_or (cs_exact_rules cs domain) [];
          c2 \<leftarrow> suffix_lookup_candidates (cs_trie cs) domain I c1;
          c3 \<leftarrow> prefix_lookup_candidates (cs_prefix_trie cs) domain c2;
          let c4 = c3 @ (case cs_ac cs of
                           None \<Rightarrow> []
                         | Some ac \<Rightarrow> rules_at (cs_ac_pattern_to_rules cs) (ac_find M ac domain));
          Some (c4 @ concat (map (batch_candidates M domain) (cs_regex_batches cs))) }"

definition has_regex :: "('ac, 'dfa) compiled_rule_set \<Rightarrow> bool" where
  "has_regex cs \<longleftrightarrow> cs_regex_batches cs \<noteq> []"

end
