(* ===== verification/Rule_Parser.thy ===== *)
theory Rule_Parser
  imports Rule_Syntax
begin

text \<open>
  The parser of filter lists (\<^verbatim>\<open>sito-filter/src/parser.rs\<close>): AdGuard / ABP rules with their
  modifiers, hosts-file lines, and whole lists.  Positions in a string are character positions;
  the byte offsets of the source denote the same splits because every delimiter is one ASCII
  byte.  \<open>puny\<close> stands for the punycode decoder of the idna crate and \<open>rtypes\<close> for
  \<^verbatim>\<open>RecordType::from_str\<close> of hickory (the code of a record type name).
\<close>

type_synonym rtype_parser = "rstr \<Rightarrow> nat option"


section \<open>Splitting modifier lists\<close>

definition quote_can_open :: "rchar option \<Rightarrow> rchar option \<Rightarrow> bool" where
  "quote_can_open quote prev \<longleftrightarrow>
     quote = None \<and>
     (case prev of None \<Rightarrow> True | Some c \<Rightarrow> c \<in> set (lit '',=|~''))"

definition is_quote :: "rchar \<Rightarrow> bool" where
  "is_quote c \<longleftrightarrow> c = 39 \<or> c = 34"

text \<open>The loop shared by \<^verbatim>\<open>split_modifier_list\<close> and \<^verbatim>\<open>split_client_tokens\<close>; \<open>cur\<close> is
  \<^verbatim>\<open>value[start..idx]\<close>, the piece being read.\<close>

fun split_quoted_loop ::
  "rchar \<Rightarrow> rstr \<Rightarrow> rstr \<Rightarrow> rchar option \<Rightarrow> bool \<Rightarrow> rchar option \<Rightarrow> rstr list" where
  "split_quoted_loop sep [] cur quote escaped prev = [cur]"
| "split_quoted_loop sep (ch # s) cur quote escaped prev =
     (if escaped then split_quoted_loop sep s (cur @ [ch]) quote False (Some ch)
      else if ch = 92 then split_quoted_loop sep s (cur @ [ch]) quote True (Some ch)
      else if is_quote ch \<and> quote = Some ch
      then split_quoted_loop sep s (cur @ [ch]) None False (Some ch)
      else if is_quote ch \<and> quote_can_open quote prev
      then split_quoted_loop sep s (cur @ [ch]) (Some ch) False (Some ch)
      else if ch = sep \<and> quote = None
      then cur # split_quoted_loop sep s [] quote False (Some ch)
      else if is_whitespace ch then split_quoted_loop sep s (cur @ [ch]) quote False prev
      else split_quoted_loop sep s (cur @ [ch]) quote False (Some ch))"

definition split_modifier_list :: "rstr \<Rightarrow> rstr list" where
  "split_modifier_list s = split_quoted_loop (cc CHR '','') s [] None False None"

definition split_client_tokens :: "rstr \<Rightarrow> rstr list" where
  "split_client_tokens s = split_quoted_loop (cc CHR ''|'') s [] None False None"


section \<open>The client modifier\<close>

text \<open>The search for the closing quote: the text before it and the text after it.\<close>

fun find_closing :: "rchar \<Rightarrow> bool \<Rightarrow> rstr \<Rightarrow> (rstr \<times> rstr) option" where
  "find_closing quote escaped [] = None"
| "find_closing quote escaped (ch # s) =
     (if escaped then map_option (\<lambda>(a, b). (ch # a, b)) (find_closing quote False s)
      else if ch = 92 then map_option (\<lambda>(a, b). (ch # a, b)) (find_closing quote True s)
      else if ch = quote then Some ([], s)
      else map_option (\<lambda>(a, b). (ch # a, b)) (find_closing quote False s))"

text \<open>The unescaping loop; a dangling backslash is an error.\<close>

fun unescape :: "rstr \<Rightarrow> rstr option" where
  "unescape [] = Some []"
| "unescape [ch] = (if ch = 92 then None else Some [ch])"
| "unescape (ch # c # s) =
     (if ch = 92 then map_option (\<lambda>out. c # out) (unescape s)
      else map_option (\<lambda>out. ch # out) (unescape (c # s)))"

definition parse_client_token :: "rstr \<Rightarrow> rstr option" where
  "parse_client_token token =
     (case trim token of
        [] \<Rightarrow> None
      | quote # s \<Rightarrow>
          do { inner \<leftarrow> (if is_quote quote
                          then do { (ins, after) \<leftarrow> find_closing quote False s;
                                    if trim after \<noteq> [] then None else Some ins }
                          else Some (quote # s));
               out \<leftarrow> unescape inner;
               if out = [] then None else Some out })"

definition parse_cidr :: "rstr \<Rightarrow> client_matcher option" where
  "parse_cidr item =
     (case split_on (cc CHR ''/'') item of
        [ip_str, prefix_str] \<Rightarrow>
          do { ip \<leftarrow> parse_ip ip_str;
               pre \<leftarrow> parse_uint 256 prefix_str;
               let max_prefix = (case ip of V4 _ \<Rightarrow> 32 | V6 _ \<Rightarrow> 128);
               if pre > max_prefix then None else Some (Cidr ip pre) }
      | _ \<Rightarrow> None)"

definition parse_matcher :: "rstr \<Rightarrow> client_matcher option" where
  "parse_matcher item =
     (if contains_char (cc CHR ''/'') item then parse_cidr item
      else case parse_ip item of
        Some ip \<Rightarrow> Some (Ip ip)
      | None \<Rightarrow> Some (Name item))"

text \<open>\<^verbatim>\<open>strip_prefix('~')\<close> with the rest trimmed.\<close>

definition split_neg :: "rstr \<Rightarrow> bool \<times> rstr" where
  "split_neg token =
     (case strip_prefix (lit ''~'') token of
        Some stripped \<Rightarrow> (True, trim stripped)
      | None \<Rightarrow> (False, token))"

fun client_tokens_loop :: "client_filter \<Rightarrow> rstr list \<Rightarrow> client_filter option" where
  "client_tokens_loop filt [] = Some filt"
| "client_tokens_loop filt (t # ts) =
     (let token = trim t
      in if token = [] then client_tokens_loop filt ts
         else (let (is_neg, item_raw) = split_neg token
               in do { item \<leftarrow> parse_client_token item_raw;
                       matcher \<leftarrow> parse_matcher item;
                       client_tokens_loop
                         (if is_neg then filt\<lparr>cf_negative := cf_negative filt @ [matcher]\<rparr>
                          else filt\<lparr>cf_positive := cf_positive filt @ [matcher]\<rparr>) ts }))"

definition parse_client_filter :: "rstr \<Rightarrow> client_filter option" where
  "parse_client_filter s =
     do { filt \<leftarrow> client_tokens_loop client_filter_default (split_client_tokens s);
          if cf_positive filt = [] \<and> cf_negative filt = [] then None else Some filt }"


section \<open>The record type, denyallow and rewrite modifiers\<close>

definition parse_dnstype_code :: "rtype_parser \<Rightarrow> rstr \<Rightarrow> nat option" where
  "parse_dnstype_code rtypes item =
     (case parse_uint 65536 item of
        Some num \<Rightarrow> Some num
      | None \<Rightarrow> (case rtypes item of
                   Some rt \<Rightarrow> Some rt
                 | None \<Rightarrow> rtypes (to_ascii_uppercase item)))"

fun dnstype_loop :: "rtype_parser \<Rightarrow> dnstype_filter \<Rightarrow> rstr list \<Rightarrow> dnstype_filter" where
  "dnstype_loop rtypes filt [] = filt"
| "dnstype_loop rtypes filt (t # ts) =
     (let token = trim t
      in if token = [] then dnstype_loop rtypes filt ts
         else (let (is_neg, item) = split_neg token
               in case parse_dnstype_code rtypes item of
                    None \<Rightarrow> dnstype_loop rtypes filt ts
                  | Some code \<Rightarrow>
                      dnstype_loop rtypes
                        (if is_neg then filt\<lparr>dt_negative := dt_negative filt @ [code]\<rparr>
                         else filt\<lparr>dt_positive := dt_positive filt @ [code]\<rparr>) ts))"

definition parse_dnstype_filter :: "rtype_parser \<Rightarrow> rstr \<Rightarrow> dnstype_filter option" where
  "parse_dnstype_filter rtypes s =
     (let filt = dnstype_loop rtypes dnstype_filter_default (split_on (cc CHR ''|'') s)
      in if dt_positive filt = [] \<and> dt_negative filt = [] then None else Some filt)"

fun denyallow_loop :: "puny_decoder \<Rightarrow> rstr list \<Rightarrow> rstr list" where
  "denyallow_loop puny [] = []"
| "denyallow_loop puny (i # rest) =
     (let item = trim i
      in if item = [] then denyallow_loop puny rest
         else case normalize_domain puny item of
           Inr normalized \<Rightarrow> normalized # denyallow_loop puny rest
         | Inl _ \<Rightarrow> denyallow_loop puny rest)"

definition parse_denyallow :: "puny_decoder \<Rightarrow> rstr \<Rightarrow> rstr list option" where
  "parse_denyallow puny s =
     (let domains = denyallow_loop puny (split_on (cc CHR ''|'') s)
      in if domains = [] then None else Some domains)"

definition valid_dnsrewrite_rcodes :: "rstr list" where
  "valid_dnsrewrite_rcodes =
     [lit ''NOERROR'', lit ''FORMERR'', lit ''SERVFAIL'', lit ''NXDOMAIN'', lit ''NOTIMP'', lit ''REFUSED'']"

definition is_valid_rcode :: "rstr \<Rightarrow> bool" where
  "is_valid_rcode rcode \<longleftrightarrow> List.member valid_dnsrewrite_rcodes (to_ascii_uppercase rcode)"

definition infer_rewrite_type :: "puny_decoder \<Rightarrow> rstr \<Rightarrow> (rstr \<times> rstr) option" where
  "infer_rewrite_type puny v =
     (case parse_ip v of
        Some ip \<Rightarrow> Some (case ip of V4 _ \<Rightarrow> lit ''A'' | V6 _ \<Rightarrow> lit ''AAAA'', v)
      | None \<Rightarrow>
          (case normalize_domain puny v of
             Inl _ \<Rightarrow> None
           | Inr _ \<Rightarrow> Some (lit ''CNAME'', v)))"

definition supported_dnsrewrite_types :: "rstr list" where
  "supported_dnsrewrite_types = [lit ''A'', lit ''AAAA'', lit ''CNAME'', lit ''PTR'', lit ''TXT'']"

definition rewrite_value_ok :: "puny_decoder \<Rightarrow> rstr \<Rightarrow> rstr \<Rightarrow> bool" where
  "rewrite_value_ok puny rtype v =
     (if rtype = lit ''A'' then parse_ipv4 v \<noteq> None
      else if rtype = lit ''AAAA'' then parse_ipv6 v \<noteq> None
      else if rtype = lit ''CNAME'' \<or> rtype = lit ''PTR'' then normalize_ok puny v \<noteq> None
      else if rtype = lit ''TXT'' then v \<noteq> []
      else False)"

definition validate_rewrite ::
  "puny_decoder \<Rightarrow> rtype_parser \<Rightarrow> rstr \<Rightarrow> rstr option \<Rightarrow> rstr option \<Rightarrow> dns_rewrite_rule option" where
  "validate_rewrite puny rtypes rcode rtype v =
     (case (rtype, v) of
        (None, None) \<Rightarrow>
          Some \<lparr>rw_rcode = rcode, rw_rtype = None, rw_value = None, rw_bare = False\<rparr>
      | (None, Some v) \<Rightarrow>
          do { (t, v') \<leftarrow> infer_rewrite_type puny v;
               Some \<lparr>rw_rcode = rcode, rw_rtype = Some t, rw_value = Some v', rw_bare = False\<rparr> }
      | (Some _, None) \<Rightarrow> None
      | (Some t, Some v) \<Rightarrow>
          if rtypes t = None then None
          else if \<not> List.member supported_dnsrewrite_types t then None
          else if \<not> rewrite_value_ok puny t v then None
          else Some \<lparr>rw_rcode = rcode, rw_rtype = Some t, rw_value = Some v, rw_bare = False\<rparr>)"

text \<open>\<^verbatim>\<open>parts.next().unwrap_or("").trim()\<close>\<close>

definition part_at :: "rstr list \<Rightarrow> nat \<Rightarrow> rstr" where
  "part_at parts n = (if n < length parts then trim (parts ! n) else [])"

definition parse_dnsrewrite ::
  "puny_decoder \<Rightarrow> rtype_parser \<Rightarrow> rstr \<Rightarrow> dns_rewrite_rule option" where
  "parse_dnsrewrite puny rtypes s =
     (let trimmed = trim s
      in if trimmed = [] then None
         else if contains_char (cc CHR '';'') trimmed
         then (let parts = splitn 3 (cc CHR '';'') trimmed;
                   rcode = to_ascii_uppercase (part_at parts 0);
                   rtype_raw = part_at parts 1;
                   value_raw = part_at parts 2
               in if \<not> is_valid_rcode rcode then None
                  else validate_rewrite puny rtypes rcode
                         (if rtype_raw = [] then None else Some (to_ascii_uppercase rtype_raw))
                         (if value_raw = [] then None else Some value_raw))
         else (let up = to_ascii_uppercase trimmed
               in if is_valid_rcode up
                  then Some \<lparr>rw_rcode = up, rw_rtype = None, rw_value = None, rw_bare = False\<rparr>
                  else do { (t, v) \<leftarrow> infer_rewrite_type puny trimmed;
                            Some \<lparr>rw_rcode = lit ''NOERROR'', rw_rtype = Some t,
                                  rw_value = Some v, rw_bare = False\<rparr> }))"


section \<open>Modifier lists\<close>

definition require_value :: "rstr \<Rightarrow> rstr option \<Rightarrow> rstr + rstr" where
  "require_value key v =
     (case v of
        Some (c # s) \<Rightarrow> Inr (c # s)
      | _ \<Rightarrow> Inl (lit ''modifier '' @ [39] @ key @ [39] @ lit '' requires a value''))"

definition invalid_value :: "rstr \<Rightarrow> rstr \<Rightarrow> rstr" where
  "invalid_value name val = lit ''invalid $'' @ name @ lit '' value '' @ [39] @ val @ [39]"

text \<open>A required value that is parsed; \<open>upd\<close> stores the result.\<close>

definition parsed_value ::
  "rstr \<Rightarrow> rstr \<Rightarrow> rstr option \<Rightarrow> (rstr \<Rightarrow> 'a option) \<Rightarrow> ('a \<Rightarrow> rule_modifiers) \<Rightarrow> rstr + rule_modifiers" where
  "parsed_value name key v parse upd =
     (case require_value key v of
        Inl e \<Rightarrow> Inl e
      | Inr val \<Rightarrow> (case parse val of
                      None \<Rightarrow> Inl (invalid_value name val)
                    | Some x \<Rightarrow> Inr (upd x)))"

definition bare_rewrite :: dns_rewrite_rule where
  "bare_rewrite = \<lparr>rw_rcode = lit ''NOERROR'', rw_rtype = None, rw_value = None, rw_bare = True\<rparr>"

text \<open>One pass of the loop over the options; \<open>opt\<close> is trimmed and not empty.\<close>

definition parse_option ::
  "puny_decoder \<Rightarrow> rtype_parser \<Rightarrow> rule_kind \<Rightarrow> rstr \<Rightarrow> rule_modifiers \<Rightarrow> rstr + rule_modifiers" where
  "parse_option puny rtypes kind opt m =
     (let (key, v) = (case split_once (cc CHR ''='') opt of
                        Some (k, v) \<Rightarrow> (trim k, Some (trim v))
                      | None \<Rightarrow> (opt, None))
      in if eq_ignore_ascii_case key (lit ''important'') then Inr (m\<lparr>m_important := True\<rparr>)
         else if eq_ignore_ascii_case key (lit ''badfilter'') then Inr (m\<lparr>m_badfilter := True\<rparr>)
         else if eq_ignore_ascii_case key (lit ''client'')
         then parsed_value (lit ''client'') key v parse_client_filter (\<lambda>x. m\<lparr>m_client := Some x\<rparr>)
         else if eq_ignore_ascii_case key (lit ''dnstype'')
         then parsed_value (lit ''dnstype'') key v (parse_dnstype_filter rtypes)
                (\<lambda>x. m\<lparr>m_dnstype := Some x\<rparr>)
         else if eq_ignore_ascii_case key (lit ''denyallow'')
         then parsed_value (lit ''denyallow'') key v (parse_denyallow puny)
                (\<lambda>x. m\<lparr>m_denyallow := Some x\<rparr>)
         else if eq_ignore_ascii_case key (lit ''dnsrewrite'')
         then (case v of
                 Some (c # s) \<Rightarrow>
                   (case parse_dnsrewrite puny rtypes (c # s) of
                      None \<Rightarrow> Inl (invalid_value (lit ''dnsrewrite'') (c # s))
                    | Some w \<Rightarrow> Inr (m\<lparr>m_dnsrewrite := Some w\<rparr>))
               | _ \<Rightarrow>
                   if kind = Allow then Inr (m\<lparr>m_dnsrewrite := Some bare_rewrite\<rparr>)
                   else Inl (lit ''modifier '' @ [39] @ lit ''dnsrewrite'' @ [39] @ lit '' requires a value''))
         else Inl (lit ''unsupported or unknown modifier '' @ [39] @ opt @ [39]))"

fun parse_options_loop ::
  "puny_decoder \<Rightarrow> rtype_parser \<Rightarrow> rule_kind \<Rightarrow> rstr list \<Rightarrow> rule_modifiers \<Rightarrow> rstr + rule_modifiers" where
  "parse_options_loop puny rtypes kind [] m = Inr m"
| "parse_options_loop puny rtypes kind (o1 # os) m =
     (let opt = trim o1
      in if opt = [] then parse_options_loop puny rtypes kind os m
         else case parse_option puny rtypes kind opt m of
           Inl e \<Rightarrow> Inl e
         | Inr m' \<Rightarrow> parse_options_loop puny rtypes kind os m')"

definition parse_modifiers ::
  "puny_decoder \<Rightarrow> rtype_parser \<Rightarrow> rstr \<Rightarrow> rule_kind \<Rightarrow> rstr + rule_modifiers" where
  "parse_modifiers puny rtypes options_str kind =
     parse_options_loop puny rtypes kind (split_modifier_list options_str) modifiers_default"


section \<open>Patterns\<close>

fun regex_terminator_loop :: "bool \<Rightarrow> bool \<Rightarrow> nat \<Rightarrow> rstr \<Rightarrow> nat option" where
  "regex_terminator_loop escaped in_class i [] = None"
| "regex_terminator_loop escaped in_class i (ch # s) =
     (if escaped then regex_terminator_loop False in_class (Suc i) s
      else if ch = 92 then regex_terminator_loop True in_class (Suc i) s
      else if ch = cc CHR ''['' then regex_terminator_loop False True (Suc i) s
      else if ch = cc CHR '']'' then regex_terminator_loop False False (Suc i) s
      else if ch = cc CHR ''/'' \<and> \<not> in_class then Some i
      else regex_terminator_loop False in_class (Suc i) s)"

definition find_regex_terminator :: "rstr \<Rightarrow> nat option" where
  "find_regex_terminator inner = regex_terminator_loop False False 0 inner"

definition starts_with :: "rchar \<Rightarrow> rstr \<Rightarrow> bool" where
  "starts_with c s \<longleftrightarrow> s \<noteq> [] \<and> hd s = c"

definition ends_with :: "rchar \<Rightarrow> rstr \<Rightarrow> bool" where
  "ends_with c s \<longleftrightarrow> s \<noteq> [] \<and> last s = c"

definition parse_pattern :: "puny_decoder \<Rightarrow> rstr \<Rightarrow> pattern option" where
  "parse_pattern puny raw_pattern =
     (let p = trim raw_pattern; bar = cc CHR ''|''; star = cc CHR ''*''; slash = cc CHR ''/''
      in if p = [] then None
         else if starts_with slash p \<and> ends_with slash p \<and> str_len p \<ge> 2
         then (let inner = butlast (tl p) in if inner = [] then None else Some (Regex inner))
         else if starts_with bar p \<and> ends_with bar p \<and> str_len p \<ge> 3 \<and> \<not> starts_with bar (tl p)
         then map_option Exact (normalize_ok puny (butlast (tl p)))
         else case strip_prefix (lit ''||'') p of
           Some domain_part \<Rightarrow>
             (let domain_cleaned = strip_suffix_or (lit ''^'') domain_part
              in if contains_char slash domain_cleaned then None
                 else if contains_char star domain_cleaned
                 then (let lowered = to_ascii_lowercase domain_cleaned
                       in if starts_with star lowered then Some (Wildcard lowered)
                          else Some (Wildcard (lit ''||'' @ lowered)))
                 else map_option Domain (normalize_ok puny domain_cleaned))
         | None \<Rightarrow>
             (case strip_prefix (lit ''|'') p of
                Some prefix_part \<Rightarrow>
                  if contains_char slash prefix_part then None
                  else if suffix (lit ''^'') prefix_part \<and> \<not> contains_char star (butlast prefix_part)
                  then map_option Exact (normalize_ok puny (butlast prefix_part))
                  else if contains_char star prefix_part
                  then Some (Wildcard (to_ascii_lowercase (strip_suffix_or (lit ''^'') prefix_part)))
                  else Some (Prefix (to_ascii_lowercase prefix_part))
              | None \<Rightarrow>
                  if contains_char star p
                  then (if starts_with star p \<and> ends_with star p \<and> str_len p \<ge> 3
                           \<and> \<not> contains_char star (butlast (tl p))
                        then Some (Substring (to_ascii_lowercase (butlast (tl p))))
                        else Some (Wildcard (to_ascii_lowercase p)))
                  else if contains_char (cc CHR ''.'') p \<and> \<not> contains_char slash p
                  then (case normalize_domain puny (strip_suffix_or (lit ''^'') p) of
                          Inr normalized \<Rightarrow> Some (Exact normalized)
                        | Inl _ \<Rightarrow> Some (Substring (to_ascii_lowercase p)))
                  else Some (Substring (to_ascii_lowercase p))))"


section \<open>Lines and lists\<close>

definition ignored_hostnames :: "rstr list" where
  "ignored_hostnames = map lit
     [''localhost'', ''localhost.localdomain'', ''local'', ''broadcasthost'', ''ip6-localhost'',
      ''ip6-loopback'', ''ip6-localnet'', ''ip6-mcastprefix'', ''ip6-allnodes'',
      ''ip6-allrouters'', ''ip6-allhosts'', ''0.0.0.0'', ''::1'', ''::'']"

definition is_comment :: "rstr \<Rightarrow> bool" where
  "is_comment trimmed \<longleftrightarrow>
     trimmed = [] \<or> starts_with (cc CHR ''#'') trimmed \<or> starts_with (cc CHR ''!'') trimmed \<or>
     prefix (lit ''[Adblock'') trimmed"

definition clean_line :: "rstr \<Rightarrow> rstr" where
  "clean_line trimmed =
     (case break_at (\<lambda>c. c = cc CHR ''#'' \<or> c = cc CHR ''!'') trimmed of
        Some (before, _) \<Rightarrow> trim before
      | None \<Rightarrow> trimmed)"

definition is_ignored_hostname :: "rstr \<Rightarrow> bool" where
  "is_ignored_hostname domain_token \<longleftrightarrow>
     List.member ignored_hostnames (strip_suffix_or (lit ''.'') (to_ascii_lowercase domain_token))"

definition hosts_rule :: "rstr \<Rightarrow> rstr \<Rightarrow> nat \<Rightarrow> rstr \<Rightarrow> rule" where
  "hosts_rule normalized src line_number raw =
     \<lparr>r_kind = Block, r_pattern = Exact normalized, r_modifiers = modifiers_default, r_source = src,
      r_line = line_number, r_raw = raw,
      r_canonical = compute_canonical Block (Exact normalized) modifiers_default\<rparr>"

text \<open>The pattern text and the option text of an ABP rule.\<close>

definition split_rule :: "rstr \<Rightarrow> (rstr \<times> rstr option) option" where
  "split_rule rest =
     (case strip_prefix (lit ''/'') rest of
        Some inner \<Rightarrow>
          do { close_idx \<leftarrow> find_regex_terminator inner;
               let actual_close = close_idx + 1;
               let regex_pat = take (Suc actual_close) rest;
               let after = trim (drop (Suc actual_close) rest);
               Some (regex_pat, strip_prefix (lit ''$'') after) }
      | None \<Rightarrow>
          (case split_once (cc CHR ''$'') rest of
             Some (pat, opts) \<Rightarrow> Some (trim pat, Some (trim opts))
           | None \<Rightarrow> Some (rest, None)))"

definition parse_line :: "puny_decoder \<Rightarrow> rtype_parser \<Rightarrow> rstr \<Rightarrow> rstr \<Rightarrow> nat \<Rightarrow> rule option" where
  "parse_line puny rtypes line src line_number =
     (let trimmed = trim line
      in if is_comment trimmed then None
         else let tokens = split_whitespace (clean_line trimmed)
         in if tokens \<noteq> [] \<and> parse_ip (hd tokens) \<noteq> None
            then (if length tokens < 2 then None
                  else if is_ignored_hostname (tokens ! 1) then None
                  else case normalize_domain puny (tokens ! 1) of
                    Inl _ \<Rightarrow> None
                  | Inr normalized \<Rightarrow> Some (hosts_rule normalized src line_number line))
            else let (kind, rest) = (case strip_prefix (lit ''@@'') trimmed of
                                       Some after_allow \<Rightarrow> (Allow, trim after_allow)
                                     | None \<Rightarrow> (Block, trimmed))
            in do { (pattern_part, options_part) \<leftarrow> split_rule rest;
                    modifiers \<leftarrow> (case options_part of
                                     None \<Rightarrow> Some modifiers_default
                                   | Some opts \<Rightarrow>
                                       (case parse_modifiers puny rtypes opts kind of
                                          Inl _ \<Rightarrow> None
                                        | Inr m \<Rightarrow> Some m));
                    p \<leftarrow> parse_pattern puny pattern_part;
                    Some \<lparr>r_kind = kind, r_pattern = p, r_modifiers = modifiers, r_source = src,
                          r_line = line_number, r_raw = line,
                          r_canonical = compute_canonical kind p modifiers\<rparr> })"

text \<open>The domains of a hosts line with several of them.\<close>

fun hosts_tokens_loop ::
  "puny_decoder \<Rightarrow> rstr \<Rightarrow> nat \<Rightarrow> rstr \<Rightarrow> rstr list \<Rightarrow> rule list \<times> nat \<Rightarrow> rule list \<times> nat" where
  "hosts_tokens_loop puny src n ip [] acc = acc"
| "hosts_tokens_loop puny src n ip (domain_token # ts) (rules, skipped) =
     (if is_ignored_hostname domain_token then hosts_tokens_loop puny src n ip ts (rules, skipped)
      else case normalize_domain puny domain_token of
        Inr normalized \<Rightarrow>
          hosts_tokens_loop puny src n ip ts
            (rules @ [hosts_rule normalized src n (ip @ lit '' '' @ domain_token)], skipped)
      | Inl _ \<Rightarrow> hosts_tokens_loop puny src n ip ts (rules, skipped + 1))"

fun parse_rules_loop ::
  "puny_decoder \<Rightarrow> rtype_parser \<Rightarrow> rstr \<Rightarrow> nat \<Rightarrow> rstr list \<Rightarrow> rule list \<times> nat \<Rightarrow> rule list \<times> nat" where
  "parse_rules_loop puny rtypes src i [] acc = acc"
| "parse_rules_loop puny rtypes src i (line # rest) (rules, skipped) =
     (let line_number = as_u32 (i + 1); trimmed = trim line
      in if is_comment trimmed then parse_rules_loop puny rtypes src (i + 1) rest (rules, skipped)
         else let tokens = split_whitespace (clean_line trimmed)
         in parse_rules_loop puny rtypes src (i + 1) rest
              (if length tokens > 2 \<and> parse_ip (hd tokens) \<noteq> None
               then hosts_tokens_loop puny src line_number (hd tokens) (tl tokens) (rules, skipped)
               else case parse_line puny rtypes line src line_number of
                 Some r \<Rightarrow> (rules @ [r], skipped)
               | None \<Rightarrow> (rules, skipped + 1)))"

definition parse_rules :: "puny_decoder \<Rightarrow> rtype_parser \<Rightarrow> rstr \<Rightarrow> rstr \<Rightarrow> rule list \<times> nat" where
  "parse_rules puny rtypes content src = parse_rules_loop puny rtypes src 0 (lines content) ([], 0)"

end
