(* ===== verification/Ipv6_Text.thy ===== *)
theory Ipv6_Text
  imports Rust_Net
begin

text \<open>
  IPv6 addresses are read back as they are printed, for all three forms the standard library
  prints: an address with an embedded IPv4 part, one with a compressed run of zero groups, and
  one with all eight groups.  With the IPv4 lemma of Rust_Net this gives the round trip for every
  \<^verbatim>\<open>IpAddr\<close>, which the client filters, the blocking mode and the rewrite table rely on.
\<close>

section \<open>Groups\<close>

lemma show_hex_length: "n < 16 ^ k \<Longrightarrow> 0 < k \<Longrightarrow> length (show_radix 16 n) \<le> k"
proof (induction k arbitrary: n)
  case (Suc k)
  show ?case
  proof (cases "n < 16")
    case True
    then show ?thesis by (subst show_radix.simps) simp
  next
    case False
    with Suc.prems have "n div 16 < 16 ^ k" "0 < k" by (auto intro!: gr0I simp: less_mult_imp_div_less)
    with Suc.IH have "length (show_radix 16 (n div 16)) \<le> k" by blast
    with False show ?thesis by (subst show_radix.simps) simp
  qed
qed simp

lemma show_hex_digits: "c \<in> set (show_radix 16 n) \<Longrightarrow> digit_val 16 c \<noteq> None"
  using digits_val_all [of 16 0 "show_radix 16 n" n c] digits_val_show_radix [of 16 n] by simp

lemma hex_not_sep: "digit_val 16 c \<noteq> None \<Longrightarrow> c \<noteq> 46 \<and> c \<noteq> 58"
  by (auto simp: digit_val_def Let_def)

lemma digit_val_seps [simp]: "digit_val 16 58 = None" "digit_val 10 58 = None" "digit_val 10 46 = None"
  by code_simp+

lemma read_hex_show:
  assumes "n < 65536" and "rest = [] \<or> hd rest = 58"
  shows "read_number 16 4 True 65536 (show_radix 16 n @ rest) = Some (n, rest)"
proof -
  have dv: "digits_val 16 0 (show_radix 16 n) = Some n" by (rule digits_val_show_radix) simp_all
  have sp: "span_digits 16 (show_radix 16 n @ rest) = (map (\<lambda>c. the (digit_val 16 c)) (show_radix 16 n), rest)"
    using show_hex_digits assms(2) by (intro span_digits_append) auto
  from show_hex_length [of n 4] assms(1) have "length (show_radix 16 n) \<le> 4" by simp
  with assms(1) show ?thesis
    unfolding read_number_def sp Let_def prod.case foldl_digits_val [OF dv] by simp
qed

lemma span_digits_rest: "snd (span_digits r s) = dropWhile (\<lambda>c. digit_val r c \<noteq> None) s"
  by (induction s) (auto split: option.splits prod.splits)

lemma read_ipv4_no_dot:
  assumes "dropWhile (\<lambda>c. digit_val 10 c \<noteq> None) s = [] \<or> hd (dropWhile (\<lambda>c. digit_val 10 c \<noteq> None) s) \<noteq> 46"
  shows "read_ipv4 s = None"
proof (cases "read_octet s")
  case (Some p)
  obtain v r where p: "p = (v, r)" by fastforce
  with Some have "r = snd (span_digits 10 s)"
    by (auto simp: read_octet_def read_number_def Let_def split: prod.splits if_splits)
  with assms have "r = [] \<or> hd r \<noteq> 46" by (simp add: span_digits_rest)
  with Some p show ?thesis by (cases r) (auto simp: read_ipv4_def read_sep_def read_char_def)
qed (simp add: read_ipv4_def)

lemma read_ipv4_hex:
  assumes "rest = [] \<or> hd rest = 58"
  shows "read_ipv4 (show_radix 16 n @ rest) = None"
proof (rule read_ipv4_no_dot)
  let ?d = "\<lambda>c. digit_val 10 c \<noteq> None"
  have drop: "dropWhile ?d (xs @ rest) = [] \<or> hd (dropWhile ?d (xs @ rest)) \<noteq> 46"
    if "46 \<notin> set xs" for xs
    using that assms by (induction xs) (cases rest; auto)+
  show "dropWhile ?d (show_radix 16 n @ rest) = [] \<or> hd (dropWhile ?d (show_radix 16 n @ rest)) \<noteq> 46"
    using show_hex_digits hex_not_sep by (intro drop) blast
qed

lemma read_ipv4_colon [simp]: "read_ipv4 (58 # u) = None" "read_ipv4 [] = None"
  by (simp_all add: read_ipv4_no_dot)

lemma read_number_colon [simp]:
  "read_number 16 4 True 65536 (58 # u) = None" "read_number 16 4 True 65536 [] = None"
  by (simp_all add: read_number_def)

abbreviation groups_tail :: "nat list \<Rightarrow> rstr" where
  "groups_tail gs \<equiv> concat (map (\<lambda>g. 58 # show_radix 16 g) gs)"

lemma fmt_subslice_Cons: "fmt_subslice (g # gs) = show_radix 16 g @ groups_tail gs"
  by (induction gs arbitrary: g) (simp_all add: fmt_subslice_def lit_simps)

lemma groups_tail_head: "t = [] \<or> hd t = 58 \<Longrightarrow> groups_tail gs @ t = [] \<or> hd (groups_tail gs @ t) = 58"
  by (cases gs) auto

lemma read_groups_tail:
  assumes "\<forall>g\<in>set gs. g < 65536" and "length gs \<le> k" and "t = [] \<or> (\<exists>u. t = 58 # 58 # u)"
  shows "read_groups (Suc i) k (groups_tail gs @ t) = (gs, False, t)"
  using assms(1,2)
proof (induction gs arbitrary: i k)
  case Nil
  then show ?case using assms(3) by (cases k) (auto simp: read_sep_def read_char_def)
next
  case (Cons g gs)
  then obtain k' where k: "k = Suc k'" by (cases k) auto
  have h: "groups_tail gs @ t = [] \<or> hd (groups_tail gs @ t) = 58"
    using assms(3) by (intro groups_tail_head) auto
  from Cons.IH [of k' "Suc i"] Cons.prems k show ?case
    using read_ipv4_hex [OF h, of g] read_hex_show [OF _ h, of g]
    by (auto simp: read_sep_def read_char_def)
qed

lemma read_groups_fmt:
  assumes "\<forall>g\<in>set gs. g < 65536" and "length gs \<le> k" and "t = [] \<or> (\<exists>u. t = 58 # 58 # u)"
  shows "read_groups 0 k (fmt_subslice gs @ t) = (gs, False, t)"
proof (cases gs)
  case Nil
  then show ?thesis
    using assms(3) by (cases k) (auto simp: fmt_subslice_def read_sep_def)
next
  case (Cons g gs')
  with assms(2) obtain k' where k: "k = Suc k'" by (cases k) auto
  have h: "groups_tail gs' @ t = [] \<or> hd (groups_tail gs' @ t) = 58"
    using assms(3) by (intro groups_tail_head) auto
  from read_groups_tail [of gs' k' t 0] assms Cons k show ?thesis
    using read_ipv4_hex [OF h, of g] read_hex_show [OF _ h, of g]
    by (auto simp: fmt_subslice_Cons read_sep_def)
qed


section \<open>The compressed run\<close>

definition zero_run :: "nat list \<Rightarrow> nat \<Rightarrow> nat \<times> nat \<Rightarrow> bool" where
  "zero_run gs i p \<longleftrightarrow> fst p + snd p \<le> i \<and> take (snd p) (drop (fst p) gs) = replicate (snd p) 0"

lemma zero_run_mono: "zero_run gs i p \<Longrightarrow> i \<le> j \<Longrightarrow> zero_run gs j p"
  by (auto simp: zero_run_def)

lemma longest_zeroes_run:
  assumes "rest = drop i gs" and "i \<le> length gs"
    and "snd longest = 0 \<or> zero_run gs i longest"
    and "snd current = 0 \<or> zero_run gs i current \<and> fst current + snd current = i"
  shows "snd (longest_zeroes i longest current rest) = 0 \<or>
         zero_run gs (length gs) (longest_zeroes i longest current rest)"
  using assms
proof (induction rest arbitrary: i longest current)
  case Nil
  then show ?case by (auto simp: zero_run_def)
next
  case (Cons g rest)
  then have d: "drop i gs = g # rest" by simp
  then have lt: "i < length gs" by (cases "i < length gs") auto
  from Cons_nth_drop_Suc [OF lt] d have i: "i < length gs" "rest = drop (Suc i) gs" "gs ! i = g"
    using lt by auto
  show ?case
  proof (cases "g = 0")
    case False
    then have "longest_zeroes i longest current (g # rest) = longest_zeroes (Suc i) longest (0, 0) rest"
      by (simp only: longest_zeroes.simps if_False)
    moreover have "snd longest = 0 \<or> zero_run gs (Suc i) longest"
      using zero_run_mono [of gs i longest "Suc i"] Cons.prems(3) by auto
    ultimately show ?thesis
      using Cons.IH [OF i(2) Suc_leI [OF i(1)], of longest "(0, 0)"] by simp
  next
    case True
    define cur where "cur = (if snd current = 0 then (i, 1) else (fst current, snd current + 1))"
    have ext: "zero_run gs (Suc i) cur \<and> fst cur + snd cur = Suc i"
    proof (cases "snd current = 0")
      case True
      with i \<open>g = 0\<close> show ?thesis by (auto simp: cur_def zero_run_def take_Suc_conv_app_nth)
    next
      case False
      with Cons.prems(4) i \<open>g = 0\<close> show ?thesis
        by (auto simp: cur_def zero_run_def take_Suc_conv_app_nth replicate_append_same)
    qed
    define lon where "lon = (if snd cur > snd longest then cur else longest)"
    have lon: "snd lon = 0 \<or> zero_run gs (Suc i) lon"
      using ext zero_run_mono [of gs i longest "Suc i"] Cons.prems(3) by (auto simp: lon_def)
    have "longest_zeroes i longest current (g # rest) = longest_zeroes (Suc i) lon cur rest"
      using True by (simp only: longest_zeroes.simps Let_def cur_def lon_def simp_thms if_True)
    with Cons.IH [OF i(2) Suc_leI [OF i(1)] lon, of cur] ext show ?thesis by simp
  qed
qed


section \<open>Segments\<close>

lemma foldl_digits:
  assumes "j \<le> Suc k"
  shows "foldl (\<lambda>a d. a * b + d) 0 (map (\<lambda>i. n div b ^ (k - i) mod b) [0..<j]) = n div b ^ (Suc k - j) mod (b ^ j :: nat)"
  using assms
proof (induction j)
  case (Suc j)
  then have e: "Suc k - j = Suc (k - j)" by simp
  have "n div b ^ Suc (k - j) = n div b ^ (k - j) div b" by (simp only: power_Suc2 div_mult2_eq)
  then have "n div b ^ Suc (k - j) mod b ^ j * b + n div b ^ (k - j) mod b = n div b ^ (k - j) mod b ^ Suc j"
    by (simp only: power_Suc [of b j] mod_mult2_eq mult.commute)
  with Suc e show ?case by simp
qed simp

lemma segments_value: "v6_of_segments (segments w) = w"
proof -
  have "unat w < 65536 ^ 8" using unsigned_less [of w, where ?'a = nat] by simp
  with foldl_digits [of 8 7 65536 "unat w"] show ?thesis by (simp add: v6_of_segments_def segments_def)
qed

lemma segments_facts: "length (segments w) = 8" "\<forall>g\<in>set (segments w). g < 65536"
  by (auto simp: segments_def)


section \<open>The round trip\<close>

lemma read_mapped:
  "read_groups 0 7 (lit ''ffff:'' @ show_ipv4 v) = ([65535, octets v ! 0 * 256 + octets v ! 1, octets v ! 2 * 256 + octets v ! 3], True, [])"
proof -
  have ff: "lit ''ffff:'' = show_radix 16 65535 @ [58]" by code_simp
  have v4: "read_ipv4 (show_ipv4 v) = Some (octets v, [])" by (rule read_ipv4_show)
  have seven: "7 = Suc (Suc (5 :: nat))" by simp
  have "read_groups 0 (Suc (Suc 5)) (show_radix 16 65535 @ 58 # show_ipv4 v) =
      ([65535, octets v ! 0 * 256 + octets v ! 1, octets v ! 2 * 256 + octets v ! 3], True, [])"
    using read_ipv4_hex [of "58 # show_ipv4 v" 65535] read_hex_show [of 65535 "58 # show_ipv4 v"] v4
    unfolding read_groups.simps(2) by (simp add: read_sep_def read_char_def)
  then show ?thesis unfolding ff seven by simp
qed

lemma octets_halves:
  assumes "unat v = a * 65536 + b" and "a < 65536" and "b < 65536"
  shows "octets v ! 0 * 256 + octets v ! 1 = a" "octets v ! 2 * 256 + octets v ! 3 = b"
proof -
  have u: "unat v = b + (a * 256) * 256" using assms by simp
  have d: "unat v div 256 = a * 256 + b div 256" "unat v mod 256 = b mod 256"
    unfolding u by (simp, simp only: mod_mult_self1)
  have "b div 256 < 256" using assms(3) by (simp add: less_mult_imp_div_less)
  then have m: "unat v div 256 mod 256 = b div 256" "unat v div 256 div 256 = a"
    unfolding d by simp_all
  have os: "octets v = [unat v div 256 div 256 div 256 mod 256, unat v div 256 div 256 mod 256,
      unat v div 256 mod 256, unat v mod 256]"
    by (simp add: octets_def upt_rec div_mult2_eq [symmetric])
  show "octets v ! 0 * 256 + octets v ! 1 = a" "octets v ! 2 * 256 + octets v ! 3 = b"
    unfolding os m d(2) using assms(2) by (simp_all add: less_mult_imp_div_less)
qed

lemma set_drop_lt: "\<forall>g\<in>set gs. g < (m :: nat) \<Longrightarrow> \<forall>g\<in>set (drop k gs). g < m"
  by (blast dest: in_set_dropD)

lemma read_ipv6_show: "read_ipv6 (show_ipv6 w) = Some (segments w, [])"
proof -
  let ?gs = "segments w"
  obtain st n where lz: "longest_zeroes 0 (0, 0) (0, 0) ?gs = (st, n)" by fastforce
  consider (mapped) "take 6 ?gs = [0, 0, 0, 0, 0, 65535]"
    | (run) "take 6 ?gs \<noteq> [0, 0, 0, 0, 0, 65535]" "n > 1"
    | (full) "take 6 ?gs \<noteq> [0, 0, 0, 0, 0, 65535]" "\<not> n > 1" by blast
  then show ?thesis
  proof cases
    case mapped
    define v :: "32 word" where "v = word_of_nat (?gs ! 6 * 65536 + ?gs ! 7)"
    have lt: "?gs ! 6 < 65536" "?gs ! 7 < 65536" using segments_facts [of w] by auto
    then have u: "unat v = ?gs ! 6 * 65536 + ?gs ! 7" unfolding v_def by (subst unsigned_of_nat) (simp add: take_bit_nat_eq_self)
    note o = octets_halves [OF u lt]
    have "drop 6 ?gs = [?gs ! 6, ?gs ! 7]"
      using Cons_nth_drop_Suc [of 6 ?gs] Cons_nth_drop_Suc [of 7 ?gs] segments_facts(1) [of w] by simp
    then have "?gs = take 6 ?gs @ [?gs ! 6, ?gs ! 7]" by (metis append_take_drop_id)
    moreover have "replicate 5 (0 :: nat) = [0, 0, 0, 0, 0]" by code_simp
    ultimately have gs: "replicate 5 0 @ [65535, ?gs ! 6, ?gs ! 7] = ?gs" using mapped by simp
    have t: "show_ipv6 w = 58 # 58 # lit ''ffff:'' @ show_ipv4 v"
      using mapped unfolding v_def show_ipv6_def Let_def by (simp add: lit_simps)
    have h: "read_groups 0 8 (58 # 58 # u) = ([], False, 58 # 58 # u)" for u
      using read_groups_fmt [of "[]" 8 "58 # 58 # u"] by (simp add: fmt_subslice_def)
    show ?thesis
      unfolding t read_ipv6_def h Let_def prod.case using read_mapped [of v] o gs
      by (simp add: read_char_def)
  next
    case run
    have "zero_run ?gs 8 (st, n)"
      using longest_zeroes_run [of ?gs 0 ?gs "(0, 0)" "(0, 0)"] lz run(2) segments_facts(1) [of w] by auto
    then have z: "st + n \<le> 8" "take n (drop st ?gs) = replicate n 0" by (auto simp: zero_run_def)
    have t: "show_ipv6 w = fmt_subslice (take st ?gs) @ 58 # 58 # fmt_subslice (drop (st + n) ?gs)"
      using run lz by (simp add: show_ipv6_def lit_simps Let_def)
    have h: "read_groups 0 8 (show_ipv6 w) = (take st ?gs, False, 58 # 58 # fmt_subslice (drop (st + n) ?gs))"
      unfolding t using segments_facts [of w] z run(2)
      by (intro read_groups_fmt) (auto dest: in_set_takeD)
    have tl: "read_groups 0 (7 - st) (fmt_subslice (drop (st + n) ?gs)) = (drop (st + n) ?gs, False, [])"
      using read_groups_fmt [of "drop (st + n) ?gs" "7 - st" "[]"] segments_facts [of w] run(2)
      by (simp add: set_drop_lt)
    have "?gs = take st ?gs @ take n (drop st ?gs) @ drop (st + n) ?gs"
      by (metis append_take_drop_id drop_drop add.commute)
    then have gs: "take st ?gs @ replicate n 0 @ drop (st + n) ?gs = ?gs" using z by simp
    show ?thesis
      unfolding read_ipv6_def h Let_def prod.case using tl gs z run(2) segments_facts(1) [of w]
      by (simp add: read_char_def)
  next
    case full
    then have "show_ipv6 w = fmt_subslice ?gs @ []" using lz by (simp add: show_ipv6_def Let_def)
    moreover have "read_groups 0 8 (fmt_subslice ?gs @ []) = (?gs, False, [])"
      using segments_facts [of w] by (intro read_groups_fmt) auto
    ultimately show ?thesis using segments_facts(1) [of w] by (simp add: read_ipv6_def)
  qed
qed

lemma read_ipv4_fmt: "t = [] \<or> hd t = 58 \<Longrightarrow> gs \<noteq> [] \<or> t \<noteq> [] \<Longrightarrow> read_ipv4 (fmt_subslice gs @ t) = None"
proof (cases gs)
  case (Cons g gs')
  assume "t = [] \<or> hd t = 58"
  from read_ipv4_hex [OF groups_tail_head [OF this], of g gs'] Cons show ?thesis by (simp add: fmt_subslice_Cons)
qed (cases t; auto simp: fmt_subslice_def)

lemma read_ipv4_show_v6: "read_ipv4 (show_ipv6 w) = None"
proof -
  have "segments w \<noteq> []" using segments_facts(1) [of w] by auto
  then show ?thesis
    using read_ipv4_fmt [of "[]" "segments w"] read_ipv4_fmt [of "58 # 58 # u" gs for u gs]
    by (auto simp: show_ipv6_def lit_simps Let_def split: prod.splits)
qed

theorem parse_ip_show: "parse_ip (show_ip ip) = Some ip"
proof (cases ip)
  case (V4 w)
  then show ?thesis by (simp add: parse_ip_show_v4)
next
  case (V6 w)
  then show ?thesis
    by (simp add: parse_ip_def read_ipv4_show_v6 parse_ipv6_def read_ipv6_show segments_value)
qed


section \<open>The characters of printed addresses\<close>

text \<open>The characters of a printed address or prefix length.\<close>

definition ip_char :: "rchar \<Rightarrow> bool" where
  "ip_char c \<longleftrightarrow> (48 \<le> c \<and> c \<le> 57) \<or> (97 \<le> c \<and> c \<le> 102) \<or> c = 46 \<or> c = 58"

lemma show_radix_chars: "r \<le> 16 \<Longrightarrow> 2 \<le> r \<Longrightarrow> \<forall>c\<in>set (show_radix r n). ip_char c"
proof (induction r n rule: show_radix.induct)
  case (1 r n)
  have "ip_char (digit_char k)" if "k < 16" for k
    using that by (auto simp: digit_char_def ip_char_def)
  with 1 show ?case
    by (subst show_radix.simps) (auto simp: less_le_trans [OF mod_less_divisor])
qed

lemma set_join: "set (join sep ps) \<subseteq> set sep \<union> (\<Union>p\<in>set ps. set p)"
  by (induction sep ps rule: join.induct) auto

lemma show_ip_chars: "\<forall>c\<in>set (show_ip ip). ip_char c"
proof -
  have dot: "ip_char 46" "ip_char 58" "ip_char 102" by (simp_all add: ip_char_def)
  have v4: "\<forall>c\<in>set (show_ipv4 w). ip_char c" for w
    using set_join [of "lit ''.''" "map show_nat (octets w)"] show_radix_chars [of 10] dot
    by (auto simp: show_ipv4_def lit_simps)
  have sub: "\<forall>c\<in>set (fmt_subslice gs). ip_char c" for gs
    using set_join [of "lit '':''" "map (show_radix 16) gs"] show_radix_chars [of 16] dot
    by (auto simp: fmt_subslice_def lit_simps)
  have "\<forall>c\<in>set (show_ipv6 w). ip_char c" for w
    using v4 sub dot by (auto simp: show_ipv6_def Let_def lit_simps split: prod.splits)
  with v4 show ?thesis by (cases ip) auto
qed

lemma join_ne: "ps \<noteq> [] \<Longrightarrow> \<forall>p\<in>set ps. p \<noteq> [] \<Longrightarrow> join sep ps \<noteq> []"
  by (cases ps rule: remdups_adj.cases) auto

lemma show_ip_ne: "show_ip ip \<noteq> []"
proof -
  have ne: "octets w4 \<noteq> []" "segments w6 \<noteq> []" for w4 w6 by (simp_all add: octets_def segments_def)
  have "show_ipv6 w \<noteq> []" for w
    using ne(2) [of w] by (auto simp: show_ipv6_def Let_def fmt_subslice_def lit_simps join_ne split: prod.splits)
  moreover have "show_ipv4 w \<noteq> []" for w
    using ne(1) [of w] by (simp add: show_ipv4_def join_ne)
  ultimately show ?thesis by (cases ip) auto
qed

end
