(* ===== verification/Client_Roundtrip.thy ===== *)
theory Client_Roundtrip
  imports Rule_Parser Ipv6_Text
begin

text \<open>
  The text forms of the \<^verbatim>\<open>$client\<close> modifier: splitting loses nothing, and the canonical text
  of a client filter, which identifies rules for \<^verbatim>\<open>$badfilter\<close>, parses back to the same
  matchers, quoted names included.
\<close>


section \<open>Splitting, quoting and unescaping\<close>

lemma join_Cons_ne: "ps \<noteq> [] \<Longrightarrow> join sep (p # ps) = p @ sep @ join sep ps"
  by (cases ps) auto

lemma split_quoted_ne [simp]: "split_quoted_loop sep s cur quote escaped prev \<noteq> []"
  by (induction s arbitrary: cur quote escaped prev) auto

lemma join_split_quoted:
  "join [sep] (split_quoted_loop sep s cur quote escaped prev) = cur @ s"
  by (induction s arbitrary: cur quote escaped prev) (auto simp: join_Cons_ne)

lemma unescape_Cons_plain: "c \<noteq> 92 \<Longrightarrow> unescape (c # s) = map_option ((#) c) (unescape s)"
  by (cases s) auto

lemma unescape_escape: "unescape (escape_client name) = Some name"
proof (induction name)
  case (Cons c name)
  have "client_special 92" by (simp add: client_special_def)
  with Cons show ?case
    by (cases "client_special c"; cases "c = 92") (auto simp: escape_client_def unescape_Cons_plain)
qed (simp add: escape_client_def)

lemma find_closing_escape:
  "find_closing 39 False (escape_client name @ 39 # rest) = Some (escape_client name, rest)"
proof (induction name)
  case (Cons c name)
  have "client_special 92" "client_special 39" by (simp_all add: client_special_def)
  with Cons show ?case
    by (cases "client_special c") (auto simp: escape_client_def)
qed (simp add: escape_client_def)

lemma unescape_plain: "92 \<notin> set s \<Longrightarrow> unescape s = Some s"
  by (induction s) (auto simp: unescape_Cons_plain)

lemma trim_quoted: "trim (39 # s @ [39]) = 39 # s @ [39]"
  by (rule trim_id) (simp add: is_whitespace_def)

lemma plain_name:
  assumes "\<not> needs_client_quoting name"
  shows "name \<noteq> []" and "hd name \<noteq> 126" and "c \<in> set name \<Longrightarrow> \<not> is_whitespace c"
    and "c \<in> set name \<Longrightarrow> \<not> client_special c" and "trim name = name"
proof -
  show ne: "name \<noteq> []" using assms by (simp add: needs_client_quoting_def)
  have ws: "\<forall>c\<in>set name. \<not> is_whitespace c \<and> \<not> client_special c"
    using assms by (auto simp: needs_client_quoting_def list_ex_iff)
  then show "c \<in> set name \<Longrightarrow> \<not> is_whitespace c" and "c \<in> set name \<Longrightarrow> \<not> client_special c"
    by simp_all
  show "hd name \<noteq> 126" using assms ne by (cases name) (auto simp: needs_client_quoting_def lit_simps)
  show "trim name = name" using ne ws by (intro trim_id) auto
qed

lemma parse_client_token_show:
  assumes "name \<noteq> []"
  shows "parse_client_token (show_matcher (Name name)) = Some name"
proof (cases "needs_client_quoting name")
  case True
  then show ?thesis
    using assms
    by (simp add: parse_client_token_def show_matcher_def trim_quoted is_quote_def find_closing_escape
        unescape_escape trim_id)
next
  case False
  note p = plain_name [OF False]
  have q: "client_special 92" "client_special 39" "client_special 34" by (simp_all add: client_special_def)
  obtain c s where cs: "name = c # s" using p(1) by (cases name) auto
  have "92 \<notin> set name" "\<not> is_quote c"
    using p(4) q cs by (auto simp: is_quote_def)
  then show ?thesis
    using False p(5) cs unescape_plain [of name]
    by (simp add: parse_client_token_def show_matcher_def)
qed


text \<open>A token that the splitting loop passes without leaving the unquoted state.\<close>

definition passes :: "rchar \<Rightarrow> rchar option \<Rightarrow> rstr \<Rightarrow> bool" where
  "passes sep prev tok \<longleftrightarrow>
     (\<forall>cur rest. \<exists>prev'. split_quoted_loop sep (tok @ rest) cur None False prev =
        split_quoted_loop sep rest (cur @ tok) None False prev')"

lemma passes_plain:
  assumes "\<forall>c\<in>set tok. c \<noteq> 92 \<and> \<not> is_quote c \<and> c \<noteq> sep"
  shows "passes sep prev tok"
  unfolding passes_def
proof (intro allI)
  fix cur rest
  show "\<exists>prev'. split_quoted_loop sep (tok @ rest) cur None False prev =
      split_quoted_loop sep rest (cur @ tok) None False prev'"
    using assms
  proof (induction tok arbitrary: cur prev)
    case (Cons c tok)
    from Cons.IH [of "cur @ [c]" "if is_whitespace c then prev else Some c"] Cons.prems
    show ?case by auto
  qed auto
qed

lemma quoted_body:
  "\<exists>prev'. split_quoted_loop sep (escape_client name @ rest) cur (Some 39) False prev =
     split_quoted_loop sep rest (cur @ escape_client name) (Some 39) False prev'"
proof (induction name arbitrary: cur prev)
  case Nil
  then show ?case by (auto simp: escape_client_def)
next
  case (Cons c name)
  have q: "client_special 92" "client_special 39" "client_special 34" by (simp_all add: client_special_def)
  have esc: "escape_client (c # name) = (if client_special c then [92, c] else [c]) @ escape_client name"
    by (simp add: escape_client_def)
  show ?case
  proof (cases "client_special c")
    case True
    then show ?thesis using Cons.IH [of "cur @ [92, c]" "Some c"] by (auto simp: esc)
  next
    case False
    with q have "c \<noteq> 92" "\<not> is_quote c" by (auto simp: is_quote_def)
    with False show ?thesis
      using Cons.IH [of "cur @ [c]" "if is_whitespace c then prev else Some c"] by (auto simp: esc)
  qed
qed

lemma passes_name:
  assumes "prev \<in> {None, Some sep, Some 126}" and "sep \<in> {44, 124}"
  shows "passes sep prev (show_matcher (Name name))"
proof (cases "needs_client_quoting name")
  case True
  show ?thesis
    unfolding passes_def
  proof (intro allI)
    fix cur rest
    obtain prev' where "split_quoted_loop sep (escape_client name @ 39 # rest) (cur @ [39]) (Some 39) False (Some 39) =
        split_quoted_loop sep (39 # rest) (cur @ 39 # escape_client name) (Some 39) False prev'"
      using quoted_body [of sep name "39 # rest" "cur @ [39]" "Some 39"] by auto
    with True assms show "\<exists>prev'. split_quoted_loop sep (show_matcher (Name name) @ rest) cur None False prev =
        split_quoted_loop sep rest (cur @ show_matcher (Name name)) None False prev'"
      by (auto simp: show_matcher_def is_quote_def quote_can_open_def lit_simps)
  qed
next
  case False
  have "client_special 92" "client_special 39" "client_special 34" "client_special 44" "client_special 124"
    by (simp_all add: client_special_def)
  then have "\<forall>c\<in>set name. c \<noteq> 92 \<and> \<not> is_quote c \<and> c \<noteq> sep"
    using plain_name(4) [OF False] assms(2) by (auto simp: is_quote_def)
  with False show ?thesis by (simp add: show_matcher_def passes_plain)
qed

lemma split_join_passes:
  assumes "toks \<noteq> []" and "\<forall>tok\<in>set toks. passes sep None tok \<and> passes sep (Some sep) tok"
    and "prev \<in> {None, Some sep}" and "sep \<noteq> 92" and "\<not> is_quote sep"
  shows "split_quoted_loop sep (join [sep] toks) [] None False prev = toks"
  using assms(1-3)
proof (induction toks arbitrary: prev)
  case (Cons t toks)
  from Cons.prems(2,3) have p: "passes sep prev t" by auto
  show ?case
  proof (cases "toks = []")
    case True
    with p show ?thesis unfolding passes_def by (metis append_Nil append_Nil2 join.simps(2) split_quoted_loop.simps(1))
  next
    case False
    from p obtain prev' where "split_quoted_loop sep (t @ sep # join [sep] toks) [] None False prev =
        split_quoted_loop sep (sep # join [sep] toks) t None False prev'"
      unfolding passes_def by (metis append_Nil)
    with False Cons.IH [of "Some sep"] Cons.prems(2) assms(4,5) show ?thesis
      by (simp add: join_Cons_ne quote_can_open_def)
  qed
qed simp


section \<open>Addresses as tokens\<close>

text \<open>The matchers whose text parses back: names as the parser produces them, every
  address, and prefixes no longer than the address.\<close>

definition matcher_ok :: "client_matcher \<Rightarrow> bool" where
  "matcher_ok m \<longleftrightarrow>
     (case m of
        Name n \<Rightarrow> n \<noteq> [] \<and> \<not> contains_char (cc CHR ''/'') n \<and> parse_ip n = None
      | Ip ip \<Rightarrow> True
      | Cidr ip p \<Rightarrow> p \<le> (case ip of V4 _ \<Rightarrow> 32 | V6 _ \<Rightarrow> 128))"

definition addr_char :: "rchar \<Rightarrow> bool" where
  "addr_char c \<longleftrightarrow> ip_char c \<or> c = 47"

lemma addr_char_plain: "addr_char c \<Longrightarrow> c \<noteq> 92 \<and> \<not> is_quote c \<and> c \<noteq> 44 \<and> c \<noteq> 124 \<and> c \<noteq> 126 \<and> \<not> is_whitespace c"
  by (auto simp: addr_char_def ip_char_def is_quote_def is_whitespace_def)

lemma addr_text:
  assumes "\<nexists>n. m = Name n"
  shows "\<forall>c\<in>set (show_matcher m). addr_char c" and "show_matcher m \<noteq> []"
  using assms show_ip_chars show_radix_chars [of 10] show_ip_ne
  by (cases m; force simp: show_matcher_def addr_char_def lit_simps)+

lemma parse_client_token_plain:
  assumes "\<forall>c\<in>set s. addr_char c" and "s \<noteq> []"
  shows "parse_client_token s = Some s"
proof -
  obtain c t where s: "s = c # t" using assms(2) by (cases s) auto
  have "trim s = s"
    using assms addr_char_plain by (intro trim_id) simp
  moreover have "unescape s = Some s" using assms(1) addr_char_plain by (intro unescape_plain) blast
  moreover have "\<not> is_quote c" using assms(1) addr_char_plain s by simp
  ultimately show ?thesis by (simp add: parse_client_token_def s)
qed

lemma parse_uint_show:
  assumes "n < bound"
  shows "parse_uint bound (show_nat n) = Some n"
proof -
  obtain c s where cs: "show_nat n = c # s" using show_radix_ne by (cases "show_nat n") auto
  have "ip_char c" using show_radix_chars [of 10 n] cs by simp
  then have "c \<noteq> 43" by (auto simp: ip_char_def)
  with digits_val_show_radix [of 10 n] cs assms show ?thesis by (simp add: parse_uint_def)
qed

lemma contains_slash_ip: "\<not> contains_char 47 (show_ip ip)"
  using show_ip_chars [of ip] by (auto simp: contains_char_def ip_char_def)

lemma parse_cidr_show:
  assumes "p \<le> (case ip of V4 _ \<Rightarrow> 32 | V6 _ \<Rightarrow> 128)"
  shows "parse_cidr (show_ip ip @ 47 # show_nat p) = Some (Cidr ip p)"
proof -
  have "47 \<notin> set (show_ip ip)" "47 \<notin> set (show_nat p)"
    using show_ip_chars [of ip] show_radix_chars [of 10 p] by (auto simp: ip_char_def)
  then have "split_on 47 (show_ip ip @ 47 # show_nat p) = [show_ip ip, show_nat p]"
    by (simp add: split_on_append split_on_id)
  moreover have "p < 256" using assms by (cases ip) auto
  ultimately show ?thesis
    using assms by (simp add: parse_cidr_def parse_uint_show parse_ip_show)
qed

lemma parse_matcher_show:
  assumes "matcher_ok m"
  shows "parse_client_token (show_matcher m) \<bind> parse_matcher = Some m"
proof (cases m)
  case (Name n)
  with assms parse_client_token_show [of n] show ?thesis
    by (simp add: matcher_ok_def parse_matcher_def)
next
  case (Ip ip)
  then have "parse_client_token (show_matcher m) = Some (show_ip ip)"
    using parse_client_token_plain [OF addr_text [of m]] by (simp add: show_matcher_def)
  with Ip assms contains_slash_ip show ?thesis by (simp add: matcher_ok_def parse_matcher_def parse_ip_show)
next
  case (Cidr ip p)
  then have "parse_client_token (show_matcher m) = Some (show_ip ip @ 47 # show_nat p)"
    using parse_client_token_plain [OF addr_text [of m]] by (simp add: show_matcher_def lit_simps)
  with Cidr assms parse_cidr_show [where ip = ip and p = p] show ?thesis
    by (simp add: matcher_ok_def parse_matcher_def contains_char_def)
qed


section \<open>Whole filters\<close>

definition client_tok :: "bool \<times> client_matcher \<Rightarrow> rstr" where
  "client_tok = (\<lambda>(neg, m). (if neg then lit ''~'' else []) @ show_matcher m)"

lemma show_matcher_ends:
  assumes "matcher_ok m"
  shows "show_matcher m \<noteq> [] \<and> \<not> is_whitespace (hd (show_matcher m)) \<and>
         \<not> is_whitespace (last (show_matcher m)) \<and> hd (show_matcher m) \<noteq> 126"
proof (cases "\<exists>n. m = Name n")
  case True
  then obtain n where n: "m = Name n" by blast
  show ?thesis
  proof (cases "needs_client_quoting n")
    case True
    then show ?thesis by (simp add: n show_matcher_def is_whitespace_def)
  next
    case False
    from plain_name(1,2) [OF False] plain_name(3) [OF False] False show ?thesis
      by (simp add: n show_matcher_def)
  qed
next
  case False
  from addr_text [of m] False have "\<forall>c\<in>set (show_matcher m). addr_char c" "show_matcher m \<noteq> []" by blast+
  then show ?thesis using addr_char_plain hd_in_set last_in_set by metis
qed

lemma client_tok_read:
  assumes "matcher_ok m"
  shows "trim (client_tok (neg, m)) = client_tok (neg, m)" and "client_tok (neg, m) \<noteq> []"
    and "split_neg (client_tok (neg, m)) = (neg, show_matcher m)"
proof -
  note e = show_matcher_ends [OF assms]
  show "trim (client_tok (neg, m)) = client_tok (neg, m)"
    by (rule trim_id) (use e in \<open>cases neg; simp add: client_tok_def lit_simps is_whitespace_def\<close>)
  show "client_tok (neg, m) \<noteq> []" using e by (simp add: client_tok_def)
  have "trim (show_matcher m) = show_matcher m" using e by (intro trim_id) simp
  moreover have "\<not> prefix [126] (show_matcher m)" using e by (cases "show_matcher m") auto
  ultimately show "split_neg (client_tok (neg, m)) = (neg, show_matcher m)"
    by (auto simp: split_neg_def client_tok_def strip_prefix_def lit_simps)
qed

lemma passes_tok:
  assumes "matcher_ok m" and "prev \<in> {None, Some 124}"
  shows "passes 124 prev (client_tok (neg, m))"
proof -
  have m: "passes 124 p (show_matcher m)" if "p \<in> {None, Some 124, Some 126}" for p
  proof (cases "\<exists>n. m = Name n")
    case True
    with passes_name [of p 124] that show ?thesis by auto
  next
    case False
    then show ?thesis using addr_text(1) [of m] addr_char_plain by (intro passes_plain) blast
  qed
  show ?thesis
  proof (cases neg)
    case True
    have "split_quoted_loop 124 (126 # s) cur None False prev = split_quoted_loop 124 s (cur @ [126]) None False (Some 126)"
      for s cur by (simp add: is_quote_def is_whitespace_def)
    with m [of "Some 126"] True show ?thesis
      unfolding passes_def client_tok_def by (auto simp: lit_simps) (metis append.assoc append_Cons append_Nil)
  next
    case False
    with m [of prev] assms(2) show ?thesis by (auto simp: client_tok_def)
  qed
qed

lemma client_tokens_loop_toks:
  assumes "\<forall>(neg, m)\<in>set prs. matcher_ok m"
  shows "client_tokens_loop filt (map client_tok prs) =
     Some (filt\<lparr>cf_positive := cf_positive filt @ map snd (filter (\<lambda>(neg, m). \<not> neg) prs),
               cf_negative := cf_negative filt @ map snd (filter (\<lambda>(neg, m). neg) prs)\<rparr>)"
  using assms
proof (induction prs arbitrary: filt)
  case (Cons x prs)
  obtain neg m where x: "x = (neg, m)" by fastforce
  with Cons.prems have ok: "matcher_ok m" by simp
  note c = client_tok_read [OF ok, of neg] and p = parse_matcher_show [OF ok]
  from p obtain item where item: "parse_client_token (show_matcher m) = Some item" "parse_matcher item = Some m"
    by (auto simp: bind_eq_Some_conv)
  show ?case
    using Cons.IH Cons.prems c item by (simp add: x)
qed simp

lemma sort_map: "sort (map f xs) = map f (sort_key f xs)"
  by (rule properties_for_sort) simp_all

lemma parse_client_toks:
  assumes ne: "prs \<noteq> []" and ok: "\<forall>(neg, m)\<in>set prs. matcher_ok m"
  shows "parse_client_filter (join [124] (map client_tok prs)) =
     Some \<lparr>cf_positive = map snd (filter (\<lambda>(neg, m). \<not> neg) prs),
           cf_negative = map snd (filter (\<lambda>(neg, m). neg) prs)\<rparr>"
proof -
  have "\<forall>tok\<in>set (map client_tok prs). passes 124 None tok \<and> passes 124 (Some 124) tok"
  proof
    fix tok
    assume "tok \<in> set (map client_tok prs)"
    then obtain neg m where "(neg, m) \<in> set prs" and tok: "tok = client_tok (neg, m)" by auto
    with ok have "matcher_ok m" by blast
    then show "passes 124 None tok \<and> passes 124 (Some 124) tok" by (simp add: tok passes_tok)
  qed
  with ne have "split_quoted_loop 124 (join [124] (map client_tok prs)) [] None False None = map client_tok prs"
    by (intro split_join_passes) (simp_all add: is_quote_def)
  moreover have "map snd (filter (\<lambda>(neg, m). \<not> neg) prs) \<noteq> [] \<or> map snd (filter (\<lambda>(neg, m). neg) prs) \<noteq> []"
    using ne by (cases prs) auto
  ultimately show ?thesis
    using client_tokens_loop_toks [OF ok]
    by (auto simp: parse_client_filter_def split_client_tokens_def client_filter_default_def)
qed

lemma client_filter_roundtrip_core:
  fixes f :: client_filter
  assumes "\<forall>m\<in>set (cf_positive f @ cf_negative f). matcher_ok m" and "cf_positive f @ cf_negative f \<noteq> []"
  shows "\<exists>f'. parse_client_filter (show_client_filter f) = Some f' \<and>
           mset (cf_positive f') = mset (cf_positive f) \<and> mset (cf_negative f') = mset (cf_negative f)"
proof -
  define prs where "prs = map (Pair False) (cf_positive f) @ map (Pair True) (cf_negative f)"
  define srt where "srt = sort_key client_tok prs"
  have "show_client_filter f = join [124] (sort (map client_tok prs))"
    by (simp add: show_client_filter_def client_tok_def prs_def lit_simps comp_def)
  then have shown: "show_client_filter f = join [124] (map client_tok srt)"
    by (simp only: sort_map srt_def)
  have mset: "mset srt = mset prs" by (simp add: srt_def)
  then have same: "set srt = set prs" "length srt = length prs" by (metis mset_eq_setD, metis mset_eq_length)
  have ok: "\<forall>(neg, m)\<in>set srt. matcher_ok m" using assms(1) unfolding same(1) by (auto simp: prs_def)
  have ne: "srt \<noteq> []" using assms(2) same(2) by (auto simp: prs_def)
  have perm: "mset (map snd (filter P srt)) = mset (map snd (filter P prs))" for P
    by (simp add: mset)
  have "map snd (filter (\<lambda>(neg, m). \<not> neg) prs) = cf_positive f"
    "map snd (filter (\<lambda>(neg, m). neg) prs) = cf_negative f"
    by (simp_all add: prs_def filter_map comp_def)
  then have "mset (map snd (filter (\<lambda>(neg, m). \<not> neg) srt)) = mset (cf_positive f)"
    "mset (map snd (filter (\<lambda>(neg, m). neg) srt)) = mset (cf_negative f)"
    by (simp_all only: perm)
  then show ?thesis unfolding shown parse_client_toks [OF ne ok] by (simp del: mset_map mset_filter)
qed


section \<open>Properties\<close>

text \<open>C23: the canonical text of a client filter is unambiguous: parsing it
  gives back the same positive and the same negative matchers (the printer sorts them), whatever
  quotes, backslashes, commas or bars the client names contain.\<close>

theorem client_filter_roundtrip:
  assumes "\<forall>m\<in>set (cf_positive f @ cf_negative f). matcher_ok m"
    and "cf_positive f @ cf_negative f \<noteq> []"
  shows "\<exists>f'. parse_client_filter (show_client_filter f) = Some f' \<and>
           mset (cf_positive f') = mset (cf_positive f) \<and> mset (cf_negative f') = mset (cf_negative f)"
  by (rule client_filter_roundtrip_core [OF assms])

theorem client_filter_roundtrip_witness:
  "let f = \<lparr>cf_positive = [Name (lit ''John, Doe|'' @ [39]), Ip (V6 1)], cf_negative = [Cidr (V4 167772160) 8]\<rparr>
   in \<exists>f'. parse_client_filter (show_client_filter f) = Some f' \<and>
        mset (cf_positive f') = mset (cf_positive f) \<and> mset (cf_negative f') = mset (cf_negative f)"
proof -
  let ?f = "\<lparr>cf_positive = [Name (lit ''John, Doe|'' @ [39]), Ip (V6 1)], cf_negative = [Cidr (V4 167772160) 8]\<rparr>"
  have "list_all matcher_ok (cf_positive ?f @ cf_negative ?f)" by code_simp
  then have "\<forall>m\<in>set (cf_positive ?f @ cf_negative ?f). matcher_ok m" by (simp only: list_all_iff)
  from client_filter_roundtrip [OF this] show ?thesis by (simp add: Let_def)
qed

text \<open>The quote-aware splitters of modifier lists and client values lose no
  character: joining the pieces with the separator gives the input back.\<close>

lemma split_lossless:
  "join (lit '','') (split_modifier_list s) = s \<and> join (lit ''|'') (split_client_tokens s) = s"
  by (simp add: split_modifier_list_def split_client_tokens_def join_split_quoted lit_simps)

end
