(* ===== verification/Rule_Invariants.thy ===== *)
theory Rule_Invariants
  imports Client_Roundtrip
begin

text \<open>
  What every rule returned by the parser satisfies, and that modifiers are never lost: the
  well-formedness of patterns and modifiers, and the accounting of a whole list.
\<close>


section \<open>Well-formed rules\<close>

definition is_lower :: "rstr \<Rightarrow> bool" where
  "is_lower s \<longleftrightarrow> to_ascii_lowercase s = s"

definition pattern_wf :: "puny_decoder \<Rightarrow> pattern \<Rightarrow> bool" where
  "pattern_wf puny p \<longleftrightarrow>
     (case p of
        Exact d \<Rightarrow> domain_wf puny d
      | Domain d \<Rightarrow> domain_wf puny d
      | Prefix s \<Rightarrow> is_lower s
      | Substring s \<Rightarrow> is_lower s \<and> s \<noteq> []
      | Wildcard s \<Rightarrow> is_lower s
      | Regex s \<Rightarrow> s \<noteq> [])"

definition rewrite_wf :: "puny_decoder \<Rightarrow> dns_rewrite_rule \<Rightarrow> bool" where
  "rewrite_wf puny w \<longleftrightarrow>
     (rw_rcode w) \<in> set valid_dnsrewrite_rcodes \<and>
     (case (rw_rtype w, rw_value w) of
        (None, None) \<Rightarrow> True
      | (Some t, Some v) \<Rightarrow> \<not> rw_bare w \<and> rewrite_value_ok puny t v
      | _ \<Rightarrow> False)"

definition modifiers_wf :: "puny_decoder \<Rightarrow> rule_kind \<Rightarrow> rule_modifiers \<Rightarrow> bool" where
  "modifiers_wf puny kind m \<longleftrightarrow>
     (case m_client m of None \<Rightarrow> True | Some f \<Rightarrow> cf_positive f \<noteq> [] \<or> cf_negative f \<noteq> []) \<and>
     (case m_dnstype m of None \<Rightarrow> True | Some f \<Rightarrow> dt_positive f \<noteq> [] \<or> dt_negative f \<noteq> []) \<and>
     (case m_denyallow m of None \<Rightarrow> True | Some ds \<Rightarrow> ds \<noteq> [] \<and> list_all (domain_wf puny) ds) \<and>
     (case m_dnsrewrite m of None \<Rightarrow> True
      | Some w \<Rightarrow> rewrite_wf puny w \<and> (rw_bare w \<longrightarrow> kind = Allow))"

definition rule_wf :: "puny_decoder \<Rightarrow> rule \<Rightarrow> bool" where
  "rule_wf puny r \<longleftrightarrow>
     pattern_wf puny (r_pattern r) \<and> modifiers_wf puny (r_kind r) (r_modifiers r) \<and>
     r_canonical r = compute_canonical (r_kind r) (r_pattern r) (r_modifiers r)"

lemma is_lower_lowercase [simp]: "is_lower (to_ascii_lowercase s)"
  by (simp add: is_lower_def to_ascii_lowercase_def)

lemma is_lower_append [simp]: "is_lower (a @ b) \<longleftrightarrow> is_lower a \<and> is_lower b"
  by (simp add: is_lower_def to_ascii_lowercase_def map_fix_iff ball_Un)

lemma is_lower_bars [simp]: "is_lower (lit ''||'')"
  by (simp add: is_lower_def to_ascii_lowercase_def lower_def lit_simps)

lemma lowercase_Nil [simp]: "to_ascii_lowercase s = [] \<longleftrightarrow> s = []"
  by (simp add: to_ascii_lowercase_def)

lemma normalize_domain_wf: "normalize_domain puny s = Inr d \<Longrightarrow> domain_wf puny d"
  using normalize_domain_Inr by blast

lemma normalize_ok_wf: "normalize_ok puny s = Some d \<Longrightarrow> domain_wf puny d"
  using normalize_domain_wf by (simp add: normalize_ok_Some)

lemma inner_ne:
  assumes "str_len p \<ge> 3" and "starts_with c p" and "ends_with c p" and "len_utf8 c = 1"
  shows "butlast (tl p) \<noteq> []"
proof
  assume e: "butlast (tl p) = []"
  obtain q where p: "p = c # q" using assms(2) by (cases p) (auto simp: starts_with_def)
  with e assms(3) have "q = [] \<or> q = [c]" by (cases q) (auto simp: ends_with_def split: if_splits)
  with p assms(1,4) show False by (auto simp: str_len_def)
qed

lemma pattern_wf_simps [simp]:
  "pattern_wf puny (Exact d) = domain_wf puny d" "pattern_wf puny (Domain d) = domain_wf puny d"
  "pattern_wf puny (Prefix s) = is_lower s" "pattern_wf puny (Substring s) = (is_lower s \<and> s \<noteq> [])"
  "pattern_wf puny (Wildcard s) = is_lower s" "pattern_wf puny (Regex s) = (s \<noteq> [])"
  by (simp_all add: pattern_wf_def)

lemma normalize_ok_pred [simp]: "pred_option (domain_wf puny) (normalize_ok puny s)"
  by (cases "normalize_ok puny s") (auto dest: normalize_ok_wf)

lemma parse_pattern_pred: "pred_option (pattern_wf puny) (parse_pattern puny raw)"
proof -
  have star: "len_utf8 42 = 1" by (simp add: len_utf8_def)
  note inner = inner_ne [OF _ _ _ star, of "trim raw"]
  have [simp]: "pred_option (pattern_wf puny) (map_option Exact (normalize_ok puny s))"
    "pred_option (pattern_wf puny) (map_option Domain (normalize_ok puny s))" for s
    by (simp_all add: option.pred_map comp_def)
  show ?thesis
    unfolding parse_pattern_def Let_def
    by (simp add: inner normalize_domain_wf split: option.split sum.split)
qed

lemma parse_pattern_wf: "parse_pattern puny raw = Some p \<Longrightarrow> pattern_wf puny p"
  using parse_pattern_pred [of puny raw] by simp

lemma uppercase_idem [simp]: "to_ascii_uppercase (to_ascii_uppercase s) = to_ascii_uppercase s"
  by (auto simp: to_ascii_uppercase_def upper_def)

lemma is_valid_rcode_upper:
  "is_valid_rcode (to_ascii_uppercase s) \<Longrightarrow> (to_ascii_uppercase s) \<in> set valid_dnsrewrite_rcodes"
  by (simp add: is_valid_rcode_def)

lemma infer_rewrite_type_ok:
  assumes "infer_rewrite_type puny v = Some (t, v')"
  shows "rewrite_value_ok puny t v'"
proof -
  have ne: "lit ''AAAA'' \<noteq> lit ''A''" "lit ''CNAME'' \<noteq> lit ''A''" "lit ''CNAME'' \<noteq> lit ''AAAA''" by code_simp+
  have "\<exists>w. parse_ipv4 v = Some w" if "parse_ip v = Some (V4 w)" for w
    using that parse_ip_v4 by blast
  moreover have "parse_ipv6 v = Some w" if "parse_ip v = Some (V6 w)" for w
    using that by (auto simp: parse_ip_def split: option.splits list.splits prod.splits)
  ultimately show ?thesis
    using assms ne
    by (auto simp: infer_rewrite_type_def rewrite_value_ok_def normalize_ok_def
        split: option.splits ip_addr.splits sum.splits)
qed

definition rewrite_plain :: "puny_decoder \<Rightarrow> dns_rewrite_rule \<Rightarrow> bool" where
  "rewrite_plain puny w \<longleftrightarrow> rewrite_wf puny w \<and> \<not> rw_bare w"

lemma infer_rewrite_pred:
  assumes "rcode \<in> set valid_dnsrewrite_rcodes"
  shows "pred_option (rewrite_plain puny)
    (infer_rewrite_type puny v \<bind> (\<lambda>(t, v'). Some \<lparr>rw_rcode = rcode, rw_rtype = Some t, rw_value = Some v', rw_bare = False\<rparr>))"
  using assms infer_rewrite_type_ok [of puny v]
  by (cases "infer_rewrite_type puny v") (auto simp: rewrite_plain_def rewrite_wf_def)

lemma validate_rewrite_pred:
  assumes "rcode \<in> set valid_dnsrewrite_rcodes"
  shows "pred_option (rewrite_plain puny) (validate_rewrite puny rtypes rcode t v)"
  using infer_rewrite_pred [OF assms] assms
  by (simp add: validate_rewrite_def rewrite_plain_def rewrite_wf_def split: option.split)

lemma parse_dnsrewrite_pred: "pred_option (rewrite_plain puny) (parse_dnsrewrite puny rtypes s)"
proof -
  have no: "(lit ''NOERROR'') \<in> set valid_dnsrewrite_rcodes" by code_simp
  show ?thesis
    unfolding parse_dnsrewrite_def Let_def
    by (simp add: infer_rewrite_pred [OF no] validate_rewrite_pred is_valid_rcode_upper)
      (simp add: rewrite_plain_def rewrite_wf_def is_valid_rcode_upper)
qed


section \<open>Modifiers\<close>

lemma denyallow_loop_wf: "list_all (domain_wf puny) (denyallow_loop puny ds)"
  by (induction ds) (auto simp: Let_def dest: normalize_domain_wf split: sum.split)

lemma parse_denyallow_wf: "parse_denyallow puny s = Some ds \<Longrightarrow> ds \<noteq> [] \<and> list_all (domain_wf puny) ds"
  using denyallow_loop_wf by (auto simp: parse_denyallow_def Let_def split: if_splits)

lemma parse_client_filter_ne:
  "parse_client_filter s = Some f \<Longrightarrow> cf_positive f \<noteq> [] \<or> cf_negative f \<noteq> []"
  by (auto simp: parse_client_filter_def bind_eq_Some_conv split: if_splits)

lemma parse_dnstype_filter_ne:
  "parse_dnstype_filter rtypes s = Some f \<Longrightarrow> dt_positive f \<noteq> [] \<or> dt_negative f \<noteq> []"
  by (auto simp: parse_dnstype_filter_def Let_def split: if_splits)

lemma parsed_value_Inr:
  "parsed_value name key v parse upd = Inr m \<Longrightarrow> \<exists>val x. v = Some val \<and> parse val = Some x \<and> m = upd x"
  by (auto simp: parsed_value_def require_value_def split: option.splits sum.splits list.splits)

definition opt_key :: "rstr \<Rightarrow> rstr" where
  "opt_key opt = (case split_once (cc CHR ''='') opt of Some (k, _) \<Rightarrow> trim k | None \<Rightarrow> opt)"

text \<open>The field of the modifiers that an option with key \<open>k\<close> must have set.\<close>

definition covered :: "rstr \<Rightarrow> rule_modifiers \<Rightarrow> bool" where
  "covered k m \<longleftrightarrow>
     eq_ignore_ascii_case k (lit ''important'') \<and> m_important m \<or>
     eq_ignore_ascii_case k (lit ''badfilter'') \<and> m_badfilter m \<or>
     eq_ignore_ascii_case k (lit ''client'') \<and> m_client m \<noteq> None \<or>
     eq_ignore_ascii_case k (lit ''dnstype'') \<and> m_dnstype m \<noteq> None \<or>
     eq_ignore_ascii_case k (lit ''denyallow'') \<and> m_denyallow m \<noteq> None \<or>
     eq_ignore_ascii_case k (lit ''dnsrewrite'') \<and> m_dnsrewrite m \<noteq> None"

text \<open>The six ways \<open>parse_option\<close> succeeds.\<close>

lemma parse_option_Inr:
  assumes "parse_option puny rtypes kind opt m = Inr m'"
  shows "(eq_ignore_ascii_case (opt_key opt) (lit ''important'') \<and> m' = m\<lparr>m_important := True\<rparr>) \<or>
    (eq_ignore_ascii_case (opt_key opt) (lit ''badfilter'') \<and> m' = m\<lparr>m_badfilter := True\<rparr>) \<or>
    (eq_ignore_ascii_case (opt_key opt) (lit ''client'') \<and>
       (\<exists>v x. parse_client_filter v = Some x \<and> m' = m\<lparr>m_client := Some x\<rparr>)) \<or>
    (eq_ignore_ascii_case (opt_key opt) (lit ''dnstype'') \<and>
       (\<exists>v x. parse_dnstype_filter rtypes v = Some x \<and> m' = m\<lparr>m_dnstype := Some x\<rparr>)) \<or>
    (eq_ignore_ascii_case (opt_key opt) (lit ''denyallow'') \<and>
       (\<exists>v x. parse_denyallow puny v = Some x \<and> m' = m\<lparr>m_denyallow := Some x\<rparr>)) \<or>
    (eq_ignore_ascii_case (opt_key opt) (lit ''dnsrewrite'') \<and>
       (\<exists>x. m' = m\<lparr>m_dnsrewrite := Some x\<rparr> \<and>
            ((\<exists>v. parse_dnsrewrite puny rtypes v = Some x) \<or> x = bare_rewrite \<and> kind = Allow)))"
proof -
  obtain key v where kv: "(case split_once (cc CHR ''='') opt of
      Some (k, v) \<Rightarrow> (trim k, Some (trim v)) | None \<Rightarrow> (opt, None)) = (key, v)" by fastforce
  then have key: "opt_key opt = key" by (auto simp: opt_key_def split: option.splits)
  show ?thesis
    using assms unfolding parse_option_def Let_def kv prod.case key
    by (simp only: split: if_split_asm)
      (auto dest!: parsed_value_Inr split: option.splits list.splits if_splits)
qed

lemma modifiers_wf_default: "modifiers_wf puny kind modifiers_default"
  by (simp add: modifiers_wf_def modifiers_default_def)

lemma rewrite_wf_bare: "rewrite_wf puny bare_rewrite"
proof -
  have "lit ''NOERROR'' \<in> set valid_dnsrewrite_rcodes" by code_simp
  then show ?thesis by (simp add: rewrite_wf_def bare_rewrite_def)
qed

lemma parse_dnsrewrite_wf:
  "parse_dnsrewrite puny rtypes v = Some w \<Longrightarrow> rewrite_wf puny w \<and> \<not> rw_bare w"
  using parse_dnsrewrite_pred [of puny rtypes v] by (simp add: rewrite_plain_def)

lemma parse_option_wf:
  assumes "parse_option puny rtypes kind opt m = Inr m'" and "modifiers_wf puny kind m"
  shows "modifiers_wf puny kind m'"
  using parse_option_Inr [OF assms(1)] assms(2)
  by (elim disjE conjE exE)
    (auto simp: modifiers_wf_def rewrite_wf_bare
      dest: parse_client_filter_ne parse_dnstype_filter_ne parse_denyallow_wf parse_dnsrewrite_wf)

lemma parse_options_loop_wf:
  "parse_options_loop puny rtypes kind os m = Inr m' \<Longrightarrow> modifiers_wf puny kind m \<Longrightarrow> modifiers_wf puny kind m'"
  by (induction os arbitrary: m) (auto simp: Let_def dest: parse_option_wf split: if_splits sum.splits)

lemma parse_option_covers:
  assumes "parse_option puny rtypes kind opt m = Inr m'"
  shows "covered (opt_key opt) m'" and "covered k m \<Longrightarrow> covered k m'"
  using parse_option_Inr [OF assms] by (elim disjE conjE exE; simp add: covered_def; blast)+

lemma parse_options_loop_keeps:
  "parse_options_loop puny rtypes kind os m = Inr m' \<Longrightarrow> covered k m \<Longrightarrow> covered k m'"
  by (induction os arbitrary: m) (auto simp: Let_def dest: parse_option_covers(2) split: if_splits sum.splits)

lemma parse_options_loop_covers:
  "parse_options_loop puny rtypes kind os m = Inr m' \<Longrightarrow> opt \<in> set os \<Longrightarrow> trim opt \<noteq> [] \<Longrightarrow>
   covered (opt_key (trim opt)) m'"
proof (induction os arbitrary: m)
  case (Cons x os)
  show ?case
  proof (cases "trim x = []")
    case True
    with Cons show ?thesis by auto
  next
    case False
    then obtain m1 where m1: "parse_option puny rtypes kind (trim x) m = Inr m1"
      "parse_options_loop puny rtypes kind os m1 = Inr m'"
      using Cons.prems(1) by (auto simp: Let_def split: sum.splits)
    show ?thesis
    proof (cases "opt = x")
      case True
      then show ?thesis
        using parse_options_loop_keeps [OF m1(2) parse_option_covers(1) [OF m1(1)]] by simp
    next
      case False
      with Cons.IH [OF m1(2)] Cons.prems(2,3) show ?thesis by simp
    qed
  qed
qed simp


section \<open>Lines and lists\<close>

lemma hosts_rule_wf: "domain_wf puny d \<Longrightarrow> rule_wf puny (hosts_rule d src n raw)"
  by (simp add: rule_wf_def hosts_rule_def modifiers_wf_default)

definition line_rule :: "puny_decoder \<Rightarrow> rstr \<Rightarrow> rstr \<Rightarrow> nat \<Rightarrow> rule \<Rightarrow> bool" where
  "line_rule puny line src n r \<longleftrightarrow> rule_wf puny r \<and> r_source r = src \<and> r_line r = n \<and> r_raw r = line"

lemma pred_option_bind: "pred_option P (x \<bind> f) \<longleftrightarrow> (\<forall>y. x = Some y \<longrightarrow> pred_option P (f y))"
  by (cases x) auto

lemma modifiers_part_wf:
  assumes "(case opts of None \<Rightarrow> Some modifiers_default
            | Some o1 \<Rightarrow> (case parse_modifiers puny rtypes o1 kind of Inl _ \<Rightarrow> None | Inr m \<Rightarrow> Some m)) = Some m"
  shows "modifiers_wf puny kind m"
  using assms parse_options_loop_wf [OF _ modifiers_wf_default]
  by (auto simp: parse_modifiers_def modifiers_wf_default split: option.splits sum.splits)

lemma parse_line_pred: "pred_option (line_rule puny line src n) (parse_line puny rtypes line src n)"
proof -
  have hosts: "line_rule puny line src n (hosts_rule d src n line)" if "normalize_domain puny t = Inr d" for t d
    using hosts_rule_wf normalize_domain_wf [OF that] by (simp add: line_rule_def hosts_rule_def)
  have abp: "line_rule puny line src n
      \<lparr>r_kind = kind, r_pattern = p, r_modifiers = m, r_source = src, r_line = n, r_raw = line,
       r_canonical = compute_canonical kind p m\<rparr>"
    if "parse_pattern puny q = Some p" "modifiers_wf puny kind m" for kind p m q
    using that by (simp add: line_rule_def rule_wf_def parse_pattern_wf)
  show ?thesis
    unfolding parse_line_def Let_def case_prod_beta
    by (auto simp only: pred_option_bind option.pred_inject option.simps
        intro: abp modifiers_part_wf split: if_split sum.split dest: hosts)
qed

lemma parse_line_invariant:
  "parse_line puny rtypes line src n = Some r \<Longrightarrow> line_rule puny line src n r"
  using parse_line_pred [of puny line src n rtypes] by simp

text \<open>What one line of a list contributes, on its own.\<close>

definition line_result :: "puny_decoder \<Rightarrow> rtype_parser \<Rightarrow> rstr \<Rightarrow> nat \<Rightarrow> rstr \<Rightarrow> rule list \<times> nat" where
  "line_result puny rtypes src i line = parse_rules_loop puny rtypes src i [line] ([], 0)"

lemma hosts_tokens_loop_acc:
  "hosts_tokens_loop puny src n ip ts (rules, k) =
     (rules @ fst (hosts_tokens_loop puny src n ip ts ([], 0)), k + snd (hosts_tokens_loop puny src n ip ts ([], 0)))"
proof (induction ts arbitrary: rules k)
  case (Cons t ts)
  let ?h = "hosts_tokens_loop puny src n ip ts"
  show ?case
  proof (cases "normalize_domain puny t")
    case (Inl e)
    show ?thesis using Cons.IH [of rules k] Cons.IH [of rules "k + 1"] Cons.IH [of "[]" 1] Inl by simp
  next
    case (Inr d)
    let ?r = "hosts_rule d src n (ip @ lit '' '' @ t)"
    show ?thesis
      using Cons.IH [of rules k] Cons.IH [of "rules @ [?r]" k] Cons.IH [of "[?r]" 0] Inr by simp
  qed
qed simp

lemma parse_rules_loop_step:
  "parse_rules_loop puny rtypes src i (line # rest) (rules, k) =
     parse_rules_loop puny rtypes src (i + 1) rest
       (rules @ fst (line_result puny rtypes src i line), k + snd (line_result puny rtypes src i line))"
proof -
  let ?toks = "split_whitespace (clean_line (trim line))"
  let ?multi = "length ?toks > 2 \<and> parse_ip (hd ?toks) \<noteq> None"
  note hosts = hosts_tokens_loop_acc [of puny src "as_u32 (i + 1)" "hd ?toks" "tl ?toks" rules k]
  consider "is_comment (trim line)" | "\<not> is_comment (trim line)" "?multi"
    | "\<not> is_comment (trim line)" "\<not> ?multi" by blast
  then show ?thesis
  proof cases
    case 1
    then show ?thesis by (simp add: line_result_def)
  next
    case 2
    then show ?thesis
      unfolding line_result_def parse_rules_loop.simps Let_def hosts by (simp only: if_True if_False simp_thms)
  next
    case 3
    then show ?thesis
      unfolding line_result_def parse_rules_loop.simps Let_def
      by (cases "parse_line puny rtypes line src (as_u32 (i + 1))") (simp_all only: if_False option.case, simp_all)
  qed
qed

lemma parse_rules_loop_lines:
  "parse_rules_loop puny rtypes src i ls (rules, k) =
     (rules @ concat (map (\<lambda>(j, l). fst (line_result puny rtypes src j l)) (enumerate i ls)),
      k + sum_list (map (\<lambda>(j, l). snd (line_result puny rtypes src j l)) (enumerate i ls)))"
proof (induction ls arbitrary: i rules k)
  case (Cons l ls)
  then show ?case by (simp only: parse_rules_loop_step) simp
qed simp

lemma hosts_tokens_loop_rules:
  assumes "r \<in> set (fst (hosts_tokens_loop puny src n ip ts ([], 0)))"
  shows "rule_wf puny r \<and> r_source r = src \<and> r_line r = n"
  using assms
proof (induction ts)
  case (Cons t ts)
  then show ?case
    using hosts_tokens_loop_acc [of puny src n ip ts "[]" 1] hosts_tokens_loop_acc [of puny src n ip ts "[_]" 0]
      hosts_rule_wf normalize_domain_wf
    by (auto simp: hosts_rule_def split: if_splits sum.splits)
qed simp

lemma line_result_rules:
  assumes "r \<in> set (fst (line_result puny rtypes src i line))"
  shows "rule_wf puny r \<and> r_source r = src \<and> r_line r = as_u32 (i + 1)"
  using assms hosts_tokens_loop_rules parse_line_invariant [unfolded line_rule_def]
  unfolding line_result_def parse_rules_loop.simps Let_def
  by (simp split: if_split_asm option.split_asm)


section \<open>Properties\<close>

text \<open>C21: every rule a list yields is well formed: exact and domain patterns hold
  normalized names, prefix, substring and wildcard patterns are lower case (queries are too),
  client, type and denyallow modifiers are not empty, a rewrite has a legal code and a value that
  fits its record type, the bare rewrite occurs on exception rules only, the canonical text is
  that of the rule, and the rule names its list and a line of it.\<close>

theorem parse_rules_wf:
  assumes "r \<in> set (fst (parse_rules puny rtypes content src))"
    and "length (lines content) < 4294967296"
  shows "rule_wf puny r \<and> r_source r = src \<and> 1 \<le> r_line r \<and> r_line r \<le> length (lines content)"
proof -
  from assms(1) obtain j l where j: "(j, l) \<in> set (enumerate 0 (lines content))"
    and r: "r \<in> set (fst (line_result puny rtypes src j l))"
    unfolding parse_rules_def parse_rules_loop_lines by auto
  from j have "j < length (lines content)" by (auto simp: in_set_enumerate_eq)
  with line_result_rules [OF r] assms(2) show ?thesis by (simp add: as_u32_def)
qed

theorem parse_rules_wf_witness:
  "list_all (\<lambda>r. rule_wf (\<lambda>_. None) r \<and> r_pattern r = Domain (lit ''ads.example.com''))
     (fst (parse_rules (\<lambda>_. None) (\<lambda>_. None) (lit ''||Ads.example.com^$important'') (lit ''list'')))"
proof -
  let ?c = "lit ''||Ads.example.com^$important''"
  have len: "length (lines ?c) = 1" by code_simp
  have pats: "map r_pattern (fst (parse_rules (\<lambda>_. None) (\<lambda>_. None) ?c (lit ''list''))) = [Domain (lit ''ads.example.com'')]"
    by code_simp
  have "rule_wf (\<lambda>_. None) r" if "r \<in> set (fst (parse_rules (\<lambda>_. None) (\<lambda>_. None) ?c (lit ''list'')))" for r
    using parse_rules_wf [OF that] len by simp
  with pats show ?thesis by (auto simp: map_eq_Cons_conv list_all_iff)
qed

text \<open>A list is parsed line by line: its rules are the rules of its lines
  in order and the skip counter is the sum of the lines' skips, so that no line, however
  malformed, changes what another line yields.\<close>

lemma parse_rules_linewise:
  "parse_rules puny rtypes content src =
     (concat (map (\<lambda>(i, l). fst (line_result puny rtypes src i l)) (enumerate 0 (lines content))),
      sum_list (map (\<lambda>(i, l). snd (line_result puny rtypes src i l)) (enumerate 0 (lines content))))"
  by (simp add: parse_rules_def parse_rules_loop_lines)




section \<open>Where parsing widens a rule\<close>

text \<open>An invalid \<^verbatim>\<open>$denyallow\<close> entry (here a raw IDN) is dropped and the rule is kept, so the
  rule blocks a name its author excluded.\<close>

lemma denyallow_entry_dropped:
  "parse_denyallow (\<lambda>_. None) (lit ''good.example|m'' @ [252] @ lit ''ller.example'') = Some [lit ''good.example'']"
  by code_simp

text \<open>Text after the closing slash that is not an option list is ignored: the URL path rule
  \<^verbatim>\<open>/ads/banner.gif\<close> becomes the regular expression \<^verbatim>\<open>ads\<close>, matched anywhere in a name.\<close>

lemma regex_tail_ignored:
  "map_option (\<lambda>r. (r_pattern r, r_modifiers r))
     (parse_line (\<lambda>_. None) (\<lambda>_. None) (lit ''/ads/banner.gif'') (lit ''list'') 1) =
   Some (Regex (lit ''ads''), modifiers_default)"
  by code_simp

text \<open>A plain domain is an exact pattern.\<close>

lemma plain_domain_is_exact:
  "parse_pattern (\<lambda>_. None) (lit ''example.com'') = Some (Exact (lit ''example.com''))"
  by code_simp

end
