(* ===== verification/Filter_Snapshot.thy ===== *)
theory Filter_Snapshot
  imports Rule_Compile Rule_Invariants
begin

text \<open>
  Compilation of a whole rule list into a snapshot and evaluation of a query against it
  (\<^verbatim>\<open>sito-filter/src/engine.rs\<close>, \<^verbatim>\<open>FilterSnapshot\<close> and the free functions below it).
  \<open>None\<close> at the outside of a result is an index panic.
\<close>


section \<open>Snapshots\<close>

record ('ac, 'dfa) filter_snapshot =
  fs_interner :: label_interner
  fs_allowlist :: "('ac, 'dfa) compiled_rule_set"
  fs_blocklist :: "('ac, 'dfa) compiled_rule_set"
  fs_rules :: "rule list"
  fs_rule_count :: nat
  fs_unavailable :: bool
  fs_dropped_regex_patterns :: nat

definition snapshot_default :: "('ac, 'dfa) filter_snapshot" where
  "snapshot_default =
     \<lparr>fs_interner = interner_new, fs_allowlist = compiled_default, fs_blocklist = compiled_default,
      fs_rules = [], fs_rule_count = 0, fs_unavailable = False, fs_dropped_regex_patterns = 0\<rparr>"

definition snapshot_unavailable :: "('ac, 'dfa) filter_snapshot" where
  "snapshot_unavailable = snapshot_default\<lparr>fs_unavailable := True\<rparr>"

definition add_pattern :: "rule_set_builder \<Rightarrow> pattern \<Rightarrow> nat \<Rightarrow> rule_set_builder" where
  "add_pattern b p rule_id =
     (case p of
        Exact d \<Rightarrow> add_exact b d rule_id
      | Domain d \<Rightarrow> add_domain b d rule_id
      | Prefix s \<Rightarrow> add_prefix b s rule_id
      | Substring s \<Rightarrow> add_substring b s rule_id
      | Wildcard w \<Rightarrow> add_wildcard b w rule_id
      | Regex r \<Rightarrow> add_regex b r rule_id)"

definition badfilter_set :: "rule list \<Rightarrow> rstr set" where
  "badfilter_set rules = set (map r_canonical (filter (\<lambda>r. m_badfilter (r_modifiers r)) rules))"

text \<open>The loop over the parsed rules: builders for both kinds and the active rules.\<close>

fun activate_loop ::
  "rstr set \<Rightarrow> rule list \<Rightarrow> rstr set \<Rightarrow> rule_set_builder \<times> rule_set_builder \<times> rule list \<Rightarrow>
   rule_set_builder \<times> rule_set_builder \<times> rule list" where
  "activate_loop bad [] seen st = st"
| "activate_loop bad (r # rs) seen (allow_builder, block_builder, active_rules) =
     (if m_badfilter (r_modifiers r) then activate_loop bad rs seen (allow_builder, block_builder, active_rules)
      else if r_canonical r \<in> bad then activate_loop bad rs seen (allow_builder, block_builder, active_rules)
      else if r_canonical r \<in> seen then activate_loop bad rs seen (allow_builder, block_builder, active_rules)
      else let rule_id = as_u32 (length active_rules)
           in activate_loop bad rs (insert (r_canonical r) seen)
                (case r_kind r of
                   Allow \<Rightarrow> (add_pattern allow_builder (r_pattern r) rule_id, block_builder, active_rules @ [r])
                 | Block \<Rightarrow> (allow_builder, add_pattern block_builder (r_pattern r) rule_id, active_rules @ [r])))"

definition compile_inner ::
  "('ac, 'dfa) matchers \<Rightarrow> rule list \<Rightarrow> compile_budget option \<Rightarrow> nat \<Rightarrow>
   (compile_budget_exceeded + ('ac, 'dfa) filter_snapshot) option" where
  "compile_inner M parsed_rules budget t =
     (let (allow_builder, block_builder, active_rules) =
            activate_loop (badfilter_set parsed_rules) parsed_rules {} (builder_new, builder_new, [])
      in do { allow_res \<leftarrow> build_with_budget M budget allow_builder interner_new t;
              case allow_res of
                Inl e \<Rightarrow> Some (Inl e)
              | Inr (allowlist, I1, t1) \<Rightarrow>
                  do { block_res \<leftarrow> build_with_budget M budget block_builder I1 t1;
                       Some (case block_res of
                               Inl e \<Rightarrow> Inl e
                             | Inr (blocklist, I2, t2) \<Rightarrow>
                                 Inr \<lparr>fs_interner = I2, fs_allowlist = allowlist, fs_blocklist = blocklist,
                                      fs_rules = active_rules, fs_rule_count = length active_rules,
                                      fs_unavailable = False,
                                      fs_dropped_regex_patterns =
                                        cs_dropped_regex_patterns allowlist + cs_dropped_regex_patterns blocklist\<rparr>) } })"

definition compile_with_budget ::
  "('ac, 'dfa) matchers \<Rightarrow> rule list \<Rightarrow> compile_budget option \<Rightarrow>
   (compile_budget_exceeded + ('ac, 'dfa) filter_snapshot) option" where
  "compile_with_budget M parsed_rules budget = compile_inner M parsed_rules budget 0"

definition snapshot_compile ::
  "('ac, 'dfa) matchers \<Rightarrow> rule list \<Rightarrow> ('ac, 'dfa) filter_snapshot option" where
  "snapshot_compile M parsed_rules =
     map_option (\<lambda>res. case res of Inr s \<Rightarrow> s | Inl e \<Rightarrow> snapshot_unavailable)
       (compile_inner M parsed_rules None 0)"


section \<open>Evaluation over collected candidates\<close>

definition client_scope :: "rule \<Rightarrow> client_context \<Rightarrow> bool" where
  "client_scope r client =
     (case m_client (r_modifiers r) of None \<Rightarrow> True | Some f \<Rightarrow> client_filter_matches f client)"

definition dnstype_scope :: "rule \<Rightarrow> nat \<Rightarrow> bool" where
  "dnstype_scope r qtype =
     (case m_dnstype (r_modifiers r) of None \<Rightarrow> True | Some f \<Rightarrow> dnstype_filter_matches f qtype)"

definition source_ref :: "rule \<Rightarrow> rule_ref" where
  "source_ref r = with_source (rule_ref_new (r_raw r)) (r_source r) (r_line r)"

text \<open>Stages 1 and 3 differ in the importance they look at; the tests are in source order.\<close>

fun allow_loop ::
  "rule list \<Rightarrow> bool \<Rightarrow> rstr \<Rightarrow> nat \<Rightarrow> client_context \<Rightarrow> nat list \<Rightarrow> verdict option option" where
  "allow_loop rules imp domain qtype client [] = Some None"
| "allow_loop rules imp domain qtype client (i # js) =
     do { r \<leftarrow> idx rules i;
          if m_important (r_modifiers r) \<noteq> imp then allow_loop rules imp domain qtype client js
          else if m_dnsrewrite (r_modifiers r) \<noteq> None then allow_loop rules imp domain qtype client js
          else if \<not> client_scope r client then allow_loop rules imp domain qtype client js
          else if denyallow_matches (r_modifiers r) domain then allow_loop rules imp domain qtype client js
          else if \<not> dnstype_scope r qtype then allow_loop rules imp domain qtype client js
          else Some (Some (VAllow (Some (source_ref r)))) }"

definition block_verdict :: "rule \<Rightarrow> verdict" where
  "block_verdict r =
     (case m_dnsrewrite (r_modifiers r) of
        Some w \<Rightarrow> VRewrite (DnsRewrite (rw_rcode w) (rw_rtype w) (rw_value w))
      | None \<Rightarrow> VBlock (BRule (source_ref r)))"

fun block_loop ::
  "rule list \<Rightarrow> bool \<Rightarrow> rstr \<Rightarrow> nat \<Rightarrow> client_context \<Rightarrow> nat list \<Rightarrow> verdict option option" where
  "block_loop rules imp domain qtype client [] = Some None"
| "block_loop rules imp domain qtype client (i # js) =
     do { r \<leftarrow> idx rules i;
          if m_important (r_modifiers r) \<noteq> imp then block_loop rules imp domain qtype client js
          else if denyallow_matches (r_modifiers r) domain then block_loop rules imp domain qtype client js
          else if \<not> client_scope r client then block_loop rules imp domain qtype client js
          else if \<not> dnstype_scope r qtype then block_loop rules imp domain qtype client js
          else Some (Some (block_verdict r)) }"

definition evaluate_important_candidates ::
  "('ac, 'dfa) filter_snapshot \<Rightarrow> rstr \<Rightarrow> nat \<Rightarrow> client_context \<Rightarrow> nat list \<Rightarrow> nat list \<Rightarrow>
   verdict option option" where
  "evaluate_important_candidates s domain qtype client allow_candidates block_candidates =
     do { v \<leftarrow> allow_loop (fs_rules s) True domain qtype client allow_candidates;
          case v of Some v \<Rightarrow> Some (Some v)
          | None \<Rightarrow> block_loop (fs_rules s) True domain qtype client block_candidates }"

definition evaluate_standard_allow_candidates ::
  "('ac, 'dfa) filter_snapshot \<Rightarrow> rstr \<Rightarrow> nat \<Rightarrow> client_context \<Rightarrow> nat list \<Rightarrow> verdict option option" where
  "evaluate_standard_allow_candidates s domain qtype client allow_candidates =
     allow_loop (fs_rules s) False domain qtype client allow_candidates"

definition evaluate_standard_block_candidates ::
  "('ac, 'dfa) filter_snapshot \<Rightarrow> rstr \<Rightarrow> nat \<Rightarrow> client_context \<Rightarrow> nat list \<Rightarrow> verdict option" where
  "evaluate_standard_block_candidates s domain qtype client block_candidates =
     map_option (\<lambda>v. case v of Some v \<Rightarrow> v | None \<Rightarrow> VAllow None)
       (block_loop (fs_rules s) False domain qtype client block_candidates)"

definition evaluate_standard_candidates ::
  "('ac, 'dfa) filter_snapshot \<Rightarrow> rstr \<Rightarrow> nat \<Rightarrow> client_context \<Rightarrow> nat list \<Rightarrow> nat list \<Rightarrow> verdict option" where
  "evaluate_standard_candidates s domain qtype client allow_candidates block_candidates =
     do { v \<leftarrow> evaluate_standard_allow_candidates s domain qtype client allow_candidates;
          case v of Some v \<Rightarrow> Some v
          | None \<Rightarrow> evaluate_standard_block_candidates s domain qtype client block_candidates }"

text \<open>The candidates of both lists.\<close>

definition snapshot_candidates ::
  "('ac, 'dfa) matchers \<Rightarrow> ('ac, 'dfa) filter_snapshot \<Rightarrow> rstr \<Rightarrow> (nat list \<times> nat list) option" where
  "snapshot_candidates M s domain =
     do { a \<leftarrow> collect_candidates M (fs_allowlist s) domain (fs_interner s) [];
          b \<leftarrow> collect_candidates M (fs_blocklist s) domain (fs_interner s) [];
          Some (a, b) }"

definition evaluate_important ::
  "('ac, 'dfa) matchers \<Rightarrow> ('ac, 'dfa) filter_snapshot \<Rightarrow> rstr \<Rightarrow> nat \<Rightarrow> client_context \<Rightarrow>
   verdict option option" where
  "evaluate_important M s domain qtype client =
     do { (a, b) \<leftarrow> snapshot_candidates M s domain;
          evaluate_important_candidates s domain qtype client a b }"

definition evaluate_standard ::
  "('ac, 'dfa) matchers \<Rightarrow> ('ac, 'dfa) filter_snapshot \<Rightarrow> rstr \<Rightarrow> nat \<Rightarrow> client_context \<Rightarrow> verdict option" where
  "evaluate_standard M s domain qtype client =
     do { (a, b) \<leftarrow> snapshot_candidates M s domain;
          evaluate_standard_candidates s domain qtype client a b }"

definition evaluate ::
  "('ac, 'dfa) matchers \<Rightarrow> ('ac, 'dfa) filter_snapshot \<Rightarrow> rstr \<Rightarrow> nat \<Rightarrow> client_context \<Rightarrow> verdict option" where
  "evaluate M s domain qtype client =
     do { (a, b) \<leftarrow> snapshot_candidates M s domain;
          v \<leftarrow> evaluate_important_candidates s domain qtype client a b;
          case v of Some v \<Rightarrow> Some v
          | None \<Rightarrow> evaluate_standard_candidates s domain qtype client a b }"


section \<open>Rewrites and their cancellation\<close>

definition modifier_scope_matches :: "rule \<Rightarrow> rstr \<Rightarrow> nat \<Rightarrow> client_context \<Rightarrow> bool" where
  "modifier_scope_matches r domain qtype client =
     (if denyallow_matches (r_modifiers r) domain then False
      else if \<not> client_scope r client then False
      else if \<not> dnstype_scope r qtype then False
      else True)"

text \<open>\<^verbatim>\<open>collect_rewrite_rules\<close> and \<^verbatim>\<open>collect_rewrite_cancellations\<close> run the same loop over the
  block and over the allow candidates.\<close>

fun rewrite_loop ::
  "rule list \<Rightarrow> bool \<Rightarrow> rstr \<Rightarrow> nat \<Rightarrow> client_context \<Rightarrow> nat list \<Rightarrow> dns_rewrite_rule list option" where
  "rewrite_loop rules imp domain qtype client [] = Some []"
| "rewrite_loop rules imp domain qtype client (i # js) =
     do { r \<leftarrow> idx rules i;
          rest \<leftarrow> rewrite_loop rules imp domain qtype client js;
          if m_important (r_modifiers r) \<noteq> imp then Some rest
          else if \<not> modifier_scope_matches r domain qtype client then Some rest
          else Some (case m_dnsrewrite (r_modifiers r) of Some w \<Rightarrow> w # rest | None \<Rightarrow> rest) }"

definition collect_rewrite_rules ::
  "('ac, 'dfa) filter_snapshot \<Rightarrow> rstr \<Rightarrow> nat \<Rightarrow> client_context \<Rightarrow> nat list \<Rightarrow> bool \<Rightarrow>
   dns_rewrite_rule list option" where
  "collect_rewrite_rules s domain qtype client block_candidates imp =
     rewrite_loop (fs_rules s) imp domain qtype client block_candidates"

definition collect_rewrite_cancellations ::
  "('ac, 'dfa) filter_snapshot \<Rightarrow> rstr \<Rightarrow> nat \<Rightarrow> client_context \<Rightarrow> nat list \<Rightarrow> bool \<Rightarrow>
   dns_rewrite_rule list option" where
  "collect_rewrite_cancellations s domain qtype client allow_candidates imp =
     rewrite_loop (fs_rules s) imp domain qtype client allow_candidates"

definition cancels_all :: "dns_rewrite_rule \<Rightarrow> bool" where
  "cancels_all w = rw_bare w"

definition rcode_eq :: "rstr \<Rightarrow> rstr \<Rightarrow> bool" where
  "rcode_eq x y \<longleftrightarrow>
     eq_ignore_ascii_case (if x = [] then lit ''NOERROR'' else x) (if y = [] then lit ''NOERROR'' else y)"

definition rtype_eq :: "rstr option \<Rightarrow> rstr option \<Rightarrow> bool" where
  "rtype_eq a b =
     (case (a, b) of (None, None) \<Rightarrow> True | (Some x, Some y) \<Rightarrow> eq_ignore_ascii_case x y | _ \<Rightarrow> False)"

definition rewrite_value_eq :: "puny_decoder \<Rightarrow> rstr \<Rightarrow> rstr \<Rightarrow> rstr \<Rightarrow> bool" where
  "rewrite_value_eq puny rtype av bv =
     (if rtype = lit ''A'' \<or> rtype = lit ''AAAA''
      then (case (parse_ip av, parse_ip bv) of (Some aip, Some bip) \<Rightarrow> aip = bip | _ \<Rightarrow> av = bv)
      else if rtype = lit ''CNAME'' \<or> rtype = lit ''PTR''
      then (case (normalize_ok puny av, normalize_ok puny bv) of
              (Some x, Some y) \<Rightarrow> eq_ignore_ascii_case x y | _ \<Rightarrow> False)
      else av = bv)"

definition same_rewrite :: "puny_decoder \<Rightarrow> dns_rewrite_rule \<Rightarrow> dns_rewrite_rule \<Rightarrow> bool" where
  "same_rewrite puny a b =
     (if rw_bare a \<noteq> rw_bare b then False
      else if \<not> rcode_eq (rw_rcode a) (rw_rcode b) \<or> \<not> rtype_eq (rw_rtype a) (rw_rtype b) then False
      else case map_option to_ascii_uppercase (rw_rtype a) of
        None \<Rightarrow> rw_value a = None \<and> rw_value b = None
      | Some rtype \<Rightarrow>
          (case (rw_value a, rw_value b) of
             (Some av, Some bv) \<Rightarrow> rewrite_value_eq puny rtype av bv
           | _ \<Rightarrow> False))"

fun cancel_loop :: "puny_decoder \<Rightarrow> dns_rewrite_rule list \<Rightarrow> dns_rewrite_rule list \<Rightarrow> dns_rewrite_rule list" where
  "cancel_loop puny rules [] = rules"
| "cancel_loop puny rules (c # cs) =
     cancel_loop puny (if cancels_all c then [] else filter (\<lambda>r. \<not> same_rewrite puny c r) rules) cs"

fun unique_loop :: "puny_decoder \<Rightarrow> dns_rewrite_rule list \<Rightarrow> dns_rewrite_rule list \<Rightarrow> dns_rewrite_rule list" where
  "unique_loop puny unique [] = unique"
| "unique_loop puny unique (r # rs) =
     unique_loop puny (if list_ex (\<lambda>seen. same_rewrite puny seen r) unique then unique else unique @ [r]) rs"

definition apply_rewrite_cancellations ::
  "puny_decoder \<Rightarrow> dns_rewrite_rule list \<Rightarrow> dns_rewrite_rule list \<Rightarrow> dns_rewrite_rule list" where
  "apply_rewrite_cancellations puny rules cancellations =
     unique_loop puny [] (cancel_loop puny rules cancellations)"


section \<open>Query names and limits\<close>

text \<open>\<open>ascii\<close> is \<^verbatim>\<open>qname.to_ascii()\<close>.\<close>

definition normalized_query_domain :: "puny_decoder \<Rightarrow> rstr \<Rightarrow> rstr" where
  "normalized_query_domain puny ascii =
     (case normalize_domain puny ascii of
        Inr d \<Rightarrow> d
      | Inl _ \<Rightarrow>
          (let fallback = to_ascii_lowercase (trim_end_matches (cc CHR ''.'') ascii)
           in if fallback = [] then lit ''.'' else fallback))"

fun regex_load :: "rule list \<Rightarrow> nat \<times> nat \<Rightarrow> nat \<times> nat" where
  "regex_load [] acc = acc"
| "regex_load (r # rs) (n, sz) =
     regex_load rs
       (case r_pattern r of
          Regex p \<Rightarrow> (n + 1, sz + str_len p)
        | Wildcard w \<Rightarrow> (n + 1, sz + str_len (wildcard_to_regex w))
        | _ \<Rightarrow> (n, sz))"

definition regex_load_exceeds_limits :: "rule list \<Rightarrow> rstr option" where
  "regex_load_exceeds_limits rules =
     (let (n, sz) = regex_load rules (0, 0)
      in if n > max_regex_patterns
         then Some (show_nat n @ lit '' regex/wildcard patterns exceed the limit of '' @ show_nat max_regex_patterns)
         else if sz > max_regex_pattern_bytes
         then Some (show_nat sz @ lit '' regex/wildcard pattern bytes exceed the limit of ''
                    @ show_nat max_regex_pattern_bytes)
         else None)"

end
