(* ===== verification/Config_Model.thy ===== *)
theory Config_Model
  imports Rust_Net
begin

text \<open>
  The configuration of \<^verbatim>\<open>crates/sito-core/src/config.rs\<close> and \<^verbatim>\<open>ConfigError\<close> of
  \<^verbatim>\<open>error.rs\<close>: the sections as records, their defaults, every \<^verbatim>\<open>validate\<close>, the
  resolution of effective sections, the exposure warnings and the (de)serialization of
  \<^verbatim>\<open>BlockingMode\<close>.

  A record \<open>config_env\<close> collects what the code takes from elsewhere: the Unicode case table
  behind \<^verbatim>\<open>str::to_lowercase\<close>, \<^verbatim>\<open>Name::from_str\<close> of hickory, the base64 decoder and the
  \<^verbatim>\<open>toml::Value\<close> accessors, with the value type \<open>'v\<close> abstract.  A validation is a list of
  checks, and \<open>first_err\<close> returns the first error, as a sequence of early returns does.
\<close>

section \<open>Errors and the environment\<close>

datatype config_error =
    ParseError rstr
  | is_Validation: Validation (err_field: rstr) (err_message: rstr)
  | IoError rstr

definition validation :: "rstr \<Rightarrow> rstr \<Rightarrow> config_error" where
  "validation f m = Validation f m"

type_synonym check = "config_error + unit"

fun first_err :: "check list \<Rightarrow> check" where
  "first_err [] = Inr ()"
| "first_err (Inl e # cs) = Inl e"
| "first_err (Inr u # cs) = first_err cs"

definition reject_if :: "bool \<Rightarrow> rstr \<Rightarrow> rstr \<Rightarrow> check" where
  "reject_if b f m = (if b then Inl (validation f m) else Inr ())"

definition quoted :: "rstr \<Rightarrow> rstr" where
  "quoted s = [39] @ s @ [39]"

text \<open>\<^verbatim>\<open>iter().enumerate()\<close> with a check per element\<close>

definition check_each :: "(nat \<Rightarrow> 'a \<Rightarrow> check) \<Rightarrow> 'a list \<Rightarrow> check" where
  "check_each f xs = first_err (map2 f [0..<length xs] xs)"

definition indexed :: "rstr \<Rightarrow> nat \<Rightarrow> rstr \<Rightarrow> rstr" where
  "indexed f i k = f @ lit ''['' @ show_nat i @ lit '']'' @ k"

section \<open>Sections with their defaults\<close>

record web_config =
  wc_enabled :: bool
  wc_bind :: ip_addr
  wc_port :: nat
  wc_trusted_proxies :: "ip_addr list"
  wc_metrics_auth :: bool

definition web_config_default :: web_config where
  "web_config_default =
     \<lparr>wc_enabled = True, wc_bind = V4 0, wc_port = 8080, wc_trusted_proxies = [], wc_metrics_auth = True\<rparr>"

record stats_config =
  sc_retention_days :: nat

definition stats_config_default :: stats_config where
  "stats_config_default = \<lparr>sc_retention_days = 90\<rparr>"

record auth_config =
  ac_session_ttl_hours :: nat
  ac_login_rate_limit :: nat
  ac_session_persist :: bool
  ac_token_default_ttl_days :: nat

definition auth_config_default :: auth_config where
  "auth_config_default =
     \<lparr>ac_session_ttl_hours = 24, ac_login_rate_limit = 5, ac_session_persist = True, ac_token_default_ttl_days = 90\<rparr>"

record server_config =
  sv_role :: rstr
  sv_instance_name :: rstr
  sv_data_dir :: rstr
  sv_log_level :: rstr
  sv_log_format :: rstr
  sv_update_require_signature :: bool

definition server_config_default :: server_config where
  "server_config_default =
     \<lparr>sv_role = lit ''master'', sv_instance_name = lit ''sito-main'', sv_data_dir = lit ''/var/lib/sito'',
      sv_log_level = lit ''info'', sv_log_format = lit ''json'', sv_update_require_signature = True\<rparr>"

record cache_config =
  ch_enabled :: bool
  ch_size_mb :: nat
  ch_min_ttl :: nat
  ch_max_ttl :: nat
  ch_negative_ttl_max :: nat
  ch_prefetch :: bool
  ch_serve_stale_hours :: nat

definition cache_config_default :: cache_config where
  "cache_config_default =
     \<lparr>ch_enabled = True, ch_size_mb = 64, ch_min_ttl = 60, ch_max_ttl = 86400,
      ch_negative_ttl_max = 3600, ch_prefetch = True, ch_serve_stale_hours = 12\<rparr>"

record dnssec_config =
  dc_mode :: rstr
  dc_validate :: bool
  dc_ntp :: "rstr list"
  dc_nta :: "rstr list"
  dc_trust_anchors :: "rstr list"

definition dnssec_config_default :: dnssec_config where
  "dnssec_config_default =
     \<lparr>dc_mode = lit ''validate'', dc_validate = True, dc_ntp = [], dc_nta = [], dc_trust_anchors = []\<rparr>"

record sni_cert_config =
  sn_domain :: rstr
  sn_cert :: rstr
  sn_key :: rstr

record tls_config =
  tl_cert :: "rstr option"
  tl_key :: "rstr option"
  tl_sni_certs :: "sni_cert_config list"

definition sni_tuples :: "tls_config \<Rightarrow> (rstr \<times> rstr \<times> rstr) list" where
  "sni_tuples t = map (\<lambda>s. (sn_domain s, sn_cert s, sn_key s)) (tl_sni_certs t)"

record dns_config =
  dn_bind :: "ip_addr list"
  dn_port :: nat
  dn_dot_port :: nat
  dn_doh_port :: nat
  dn_doq_port :: nat
  dn_doh3_port :: nat
  dn_doh_dedicated_hostname :: rstr
  dn_dot_padding :: bool
  dn_allow_plaintext_doh :: bool
  dn_tls :: "tls_config option"
  dn_edns_udp_size :: nat
  dn_rate_limit_per_ip :: nat
  dn_max_tcp_connections :: nat
  dn_cache :: cache_config
  dn_dnssec :: dnssec_config

definition max_rate_limit_per_ip :: nat where
  "max_rate_limit_per_ip = 1000000"

definition dns_config_default :: dns_config where
  "dns_config_default =
     \<lparr>dn_bind = [V4 0, V6 0], dn_port = 53, dn_dot_port = 853, dn_doh_port = 443, dn_doq_port = 0,
      dn_doh3_port = 443, dn_doh_dedicated_hostname = [], dn_dot_padding = False,
      dn_allow_plaintext_doh = False, dn_tls = None, dn_edns_udp_size = 1232,
      dn_rate_limit_per_ip = 20, dn_max_tcp_connections = 256, dn_cache = cache_config_default,
      dn_dnssec = dnssec_config_default\<rparr>"

datatype upstream_strategy = Parallel | Failover | LoadBalance

datatype upstream_ecs = EcsOff | EcsForward

record per_domain_upstream =
  pd_domains :: "rstr list"
  pd_servers :: "rstr list"

record upstream_config =
  uc_servers :: "rstr list"
  uc_bootstrap :: "ip_addr list"
  uc_strategy :: upstream_strategy
  uc_timeout_ms :: nat
  uc_probe_domain :: rstr
  uc_pool_size :: nat
  uc_ecs :: upstream_ecs
  uc_per_domain :: "per_domain_upstream list"

definition upstream_config_default :: upstream_config where
  "upstream_config_default =
     \<lparr>uc_servers = [lit ''1.1.1.1'', lit ''1.0.0.1''],
      uc_bootstrap = [V4 (v4_of_octets [9, 9, 9, 9]), V4 (v4_of_octets [149, 112, 112, 112])],
      uc_strategy = Failover, uc_timeout_ms = 5000, uc_probe_domain = lit ''example.com'',
      uc_pool_size = 4, uc_ecs = EcsOff, uc_per_domain = []\<rparr>"

datatype blocking_mode = ZeroIp | Nxdomain | Refused | CustomIp ip_addr | NullRdata

record filter_list_config =
  fl_name :: rstr
  fl_url :: rstr
  fl_enabled :: bool
  fl_refresh_hours :: "nat option"

record filtering_config =
  fc_enabled :: bool
  fc_refresh_interval_hours :: nat
  fc_blocking_mode :: blocking_mode
  fc_blocking_ttl :: nat
  fc_cname_cloaking :: bool
  fc_fail_closed :: bool
  fc_anti_doh_bypass :: rstr
  fc_max_rules :: nat
  fc_max_list_bytes :: nat
  fc_lists :: "filter_list_config list"
  fc_custom_rules :: "rstr list"
  fc_regex_compile_budget_ms :: "nat option"

definition filtering_config_default :: filtering_config where
  "filtering_config_default =
     \<lparr>fc_enabled = True, fc_refresh_interval_hours = 24, fc_blocking_mode = ZeroIp, fc_blocking_ttl = 10,
      fc_cname_cloaking = True, fc_fail_closed = True, fc_anti_doh_bypass = lit ''off'',
      fc_max_rules = 2000000, fc_max_list_bytes = 64 * 1024 * 1024, fc_lists = [], fc_custom_rules = [],
      fc_regex_compile_budget_ms = None\<rparr>"

record acme_config =
  am_enabled :: bool
  am_email :: "rstr option"
  am_domains :: "rstr list"
  am_staging :: bool
  am_cache_dir :: "rstr option"
  am_http_port :: nat

definition default_acme_http_port :: nat where
  "default_acme_http_port = 80"

record privacy_config =
  pc_anonymize_querylog :: bool

definition privacy_config_default :: privacy_config where
  "privacy_config_default = \<lparr>pc_anonymize_querylog = False\<rparr>"

record 'v config =
  cf_config_version :: nat
  cf_server :: server_config
  cf_dns :: dns_config
  cf_upstream :: upstream_config
  cf_filtering :: filtering_config
  cf_tls :: "tls_config option"
  cf_acme :: "acme_config option"
  cf_privacy :: privacy_config
  cf_clients :: "'v option"
  cf_rewrites :: "'v option"
  cf_web :: "'v option"
  cf_auth :: "'v option"
  cf_stats :: "'v option"
  cf_ha :: "'v option"
  cf_integrations :: "'v option"

definition config_default :: "'v config" where
  "config_default =
     \<lparr>cf_config_version = 1, cf_server = server_config_default, cf_dns = dns_config_default,
      cf_upstream = upstream_config_default, cf_filtering = filtering_config_default, cf_tls = None,
      cf_acme = None, cf_privacy = privacy_config_default, cf_clients = None, cf_rewrites = None,
      cf_web = None, cf_auth = None, cf_stats = None, cf_ha = None, cf_integrations = None\<rparr>"

record 'v config_env =
  ce_lower :: "rstr \<Rightarrow> rstr"
  ce_name_err :: "rstr \<Rightarrow> rstr option"
  ce_base64 :: "rstr \<Rightarrow> rstr + nat list"
  ce_as_table :: "'v \<Rightarrow> (rstr \<Rightarrow> 'v option) option"
  ce_into_table :: "'v \<Rightarrow> (rstr \<Rightarrow> 'v option) option"
  ce_as_bool :: "'v \<Rightarrow> bool option"
  ce_as_str :: "'v \<Rightarrow> rstr option"
  ce_as_array :: "'v \<Rightarrow> 'v list option"
  ce_into_web :: "'v \<Rightarrow> rstr + web_config"
  ce_into_auth :: "'v \<Rightarrow> rstr + auth_config"
  ce_into_stats :: "'v \<Rightarrow> rstr + stats_config"
  ce_from_web :: "web_config \<Rightarrow> 'v option"
  ce_from_str :: "rstr \<Rightarrow> rstr + 'v config"

end
