(* ===== verification/Filter_Lifecycle.thy ===== *)
theory Filter_Lifecycle
  imports Filter_Snapshot Config_Model "HOL-Library.AList"
begin

text \<open>
  The engine around the snapshot, \<^verbatim>\<open>HostsFilterEngine\<close> of
  \<^verbatim>\<open>crates/sito-filter/src/engine.rs\<close>: status, reloads, the drop guard, group rule sets, the
  refresh schedule and the guarded evaluation.

  The engine state is a record of the cells the code swaps atomically; the map of per-list rules
  is an association list with distinct keys.  Everything a reload takes from outside is in
  \<open>reload_env\<close>: the result of fetching a list (under a byte cap), whether the blocking task was
  cancelled and the text of the join error, and the clock readings.  A panic inside the blocking
  task surfaces as a join error, as tokio reports it; a panic while the group rule sets are rebuilt
  unwinds out of the reload and is the result \<open>Panicked\<close>.  The compile observer and the log
  are outputs only and are left out.
\<close>

section \<open>State\<close>

datatype filter_error =
    DownloadFailed rstr rstr rstr
  | ListTooLarge rstr nat nat
  | FilterIo rstr rstr
  | InvalidUrl rstr rstr
  | CacheCorrupted rstr rstr
  | CompileTaskFailed rstr
  | NoSourcesLoaded nat rstr
  | TooManyRules nat nat
  | CompileBudgetExceeded nat nat

fun show_filter_error :: "filter_error \<Rightarrow> rstr" where
  "show_filter_error (DownloadFailed l u e) =
     lit ''Failed to download blocklist '' @ [39] @ l @ [39] @ lit '' from '' @ [39] @ u @ [39] @ lit '': '' @ e"
| "show_filter_error (ListTooLarge l sz lim) =
     lit ''Blocklist '' @ [39] @ l @ [39] @ lit '' exceeded size limit of '' @ show_nat lim @
     lit '' bytes (actual: '' @ show_nat sz @ lit '' bytes)''"
| "show_filter_error (FilterIo p e) = lit ''I/O error for path '' @ [39] @ p @ [39] @ lit '': '' @ e"
| "show_filter_error (InvalidUrl u r) = lit ''Invalid URL '' @ [39] @ u @ [39] @ lit '': '' @ r"
| "show_filter_error (CacheCorrupted p r) =
     lit ''Cached blocklist '' @ [39] @ p @ [39] @ lit '' failed its integrity check: '' @ r"
| "show_filter_error (CompileTaskFailed m) = lit ''Rule compilation task failed: '' @ m"
| "show_filter_error (NoSourcesLoaded n d) =
     lit ''No filter list sources could be loaded ('' @ show_nat n @ lit '' failed): '' @ d"
| "show_filter_error (TooManyRules n lim) =
     lit ''Filter rule set exceeds the configured limit of '' @ show_nat lim @ lit '' rules (parsed: '' @ show_nat n @ lit '')''"
| "show_filter_error (CompileBudgetExceeded el lim) =
     lit ''Regex compilation exceeded the configured budget of '' @ show_nat lim @ lit '' ms (elapsed: '' @ show_nat el @
     lit '' ms); previous snapshot retained''"

datatype filter_state = Disabled | Loading | Ready | Failed

record filter_status =
  st_state :: filter_state
  st_rule_count :: nat
  st_loaded_lists :: nat
  st_failed_lists :: "rstr list"
  st_last_error :: "rstr option"
  st_last_compile_ms :: "nat option"

definition status_default :: filter_status where
  "status_default =
     \<lparr>st_state = Loading, st_rule_count = 0, st_loaded_lists = 0, st_failed_lists = [],
      st_last_error = None, st_last_compile_ms = None\<rparr>"

record group_rule_set =
  gr_name :: rstr
  gr_lists :: "rstr list"
  gr_custom_rules :: "rstr list"

type_synonym list_rules = "(rstr \<times> rule list) list"

record ('ac, 'dfa) filter_engine =
  he_snapshot :: "('ac, 'dfa) filter_snapshot"
  he_config :: filtering_config
  he_list_rules :: list_rules
  he_status :: filter_status
  he_group_defs :: "group_rule_set list"
  he_group_snapshots :: "rstr \<Rightarrow> ('ac, 'dfa) filter_snapshot option"

record ('ac, 'dfa) filter_libs =
  lb_puny :: puny_decoder
  lb_rtypes :: rtype_parser
  lb_matchers :: "('ac, 'dfa) matchers"

record reload_env =
  re_fetch :: "nat \<Rightarrow> rstr \<Rightarrow> rstr \<Rightarrow> rstr option"
  re_cancelled :: bool
  re_join_error :: rstr
  re_budget_clock :: "nat \<Rightarrow> nat"
  re_group_clock :: "rstr \<Rightarrow> nat \<Rightarrow> nat"
  re_elapsed_ns :: nat

datatype reload_result = Done "filter_error + nat" | Panicked

definition engine_new :: "filtering_config \<Rightarrow> ('ac, 'dfa) filter_engine" where
  "engine_new config =
     \<lparr>he_snapshot = snapshot_unavailable, he_config = config, he_list_rules = [],
      he_status = status_default\<lparr>st_state := if fc_enabled config then Loading else Disabled\<rparr>,
      he_group_defs = [], he_group_snapshots = (\<lambda>_. None)\<rparr>"


section \<open>Group rule sets\<close>

definition budget_of :: "nat option \<Rightarrow> (nat \<Rightarrow> nat) \<Rightarrow> compile_budget option" where
  "budget_of ms clock = map_option (\<lambda>ms. \<lparr>cb_elapsed = clock, cb_max = ms * 1000000\<rparr>) ms"

definition group_rules :: "('ac, 'dfa) filter_libs \<Rightarrow> list_rules \<Rightarrow> group_rule_set \<Rightarrow> rule list" where
  "group_rules L lrs def =
     concat (map (\<lambda>n. case map_of lrs n of Some rs \<Rightarrow> rs | None \<Rightarrow> []) (gr_lists def)) @
     concat (map (\<lambda>t. fst (parse_rules (lb_puny L) (lb_rtypes L) t (lit ''group:'' @ gr_name def))) (gr_custom_rules def))"

definition is_regex_rule :: "rule \<Rightarrow> bool" where
  "is_regex_rule r = (case r_pattern r of Regex _ \<Rightarrow> True | Wildcard _ \<Rightarrow> True | _ \<Rightarrow> False)"

text \<open>The rule set that is compiled for a group: truncated to the rule limit, without regexes when
  they exceed the regex limits.\<close>

definition group_rules_limited :: "nat \<Rightarrow> rule list \<Rightarrow> rule list" where
  "group_rules_limited max_rules rules =
     (let rules = (if length rules > max_rules then take max_rules rules else rules)
      in if regex_load_exceeds_limits rules \<noteq> None then filter (\<lambda>r. \<not> is_regex_rule r) rules else rules)"

fun rebuild_groups_loop ::
  "('ac, 'dfa) filter_libs \<Rightarrow> (rstr \<Rightarrow> nat \<Rightarrow> nat) \<Rightarrow> filtering_config \<Rightarrow> list_rules \<Rightarrow>
   (rstr \<Rightarrow> ('ac, 'dfa) filter_snapshot option) \<Rightarrow> group_rule_set list \<Rightarrow>
   (rstr \<Rightarrow> ('ac, 'dfa) filter_snapshot option) \<Rightarrow> (rstr \<Rightarrow> ('ac, 'dfa) filter_snapshot option) option" where
  "rebuild_groups_loop L clock config lrs previous [] compiled = Some compiled"
| "rebuild_groups_loop L clock config lrs previous (def # defs) compiled =
     (let rules = group_rules L lrs def;
          limited = group_rules_limited (fc_max_rules config) rules
      in if rules = [] \<or> limited = [] then rebuild_groups_loop L clock config lrs previous defs compiled
         else case compile_with_budget (lb_matchers L) limited
                     (budget_of (fc_regex_compile_budget_ms config) (clock (gr_name def))) of
             None \<Rightarrow> None
           | Some (Inr snapshot) \<Rightarrow>
               rebuild_groups_loop L clock config lrs previous defs (compiled(gr_name def \<mapsto> snapshot))
           | Some (Inl e) \<Rightarrow>
               rebuild_groups_loop L clock config lrs previous defs
                 (case previous (gr_name def) of
                    Some s \<Rightarrow> compiled(gr_name def \<mapsto> s)
                  | None \<Rightarrow> compiled))"

definition rebuild_group_snapshots ::
  "('ac, 'dfa) filter_libs \<Rightarrow> (rstr \<Rightarrow> nat \<Rightarrow> nat) \<Rightarrow> list_rules \<Rightarrow> ('ac, 'dfa) filter_engine \<Rightarrow>
   ('ac, 'dfa) filter_engine option" where
  "rebuild_group_snapshots L clock lrs e =
     map_option (\<lambda>g. e\<lparr>he_group_snapshots := g\<rparr>)
       (rebuild_groups_loop L clock (he_config e) lrs (he_group_snapshots e) (he_group_defs e) (\<lambda>_. None))"

definition set_group_rules ::
  "('ac, 'dfa) filter_libs \<Rightarrow> (rstr \<Rightarrow> nat \<Rightarrow> nat) \<Rightarrow> group_rule_set list \<Rightarrow> ('ac, 'dfa) filter_engine \<Rightarrow>
   ('ac, 'dfa) filter_engine option" where
  "set_group_rules L clock groups e =
     rebuild_group_snapshots L clock (he_list_rules e) (e\<lparr>he_group_defs := groups\<rparr>)"

definition group_snapshot :: "('ac, 'dfa) filter_engine \<Rightarrow> rstr \<Rightarrow> ('ac, 'dfa) filter_snapshot option" where
  "group_snapshot e name = he_group_snapshots e name"


section \<open>Accessors\<close>

definition engine_rule_count :: "('ac, 'dfa) filter_engine \<Rightarrow> nat" where
  "engine_rule_count e = fs_rule_count (he_snapshot e)"

definition dropped_regex_patterns :: "('ac, 'dfa) filter_engine \<Rightarrow> nat" where
  "dropped_regex_patterns e = fs_dropped_regex_patterns (he_snapshot e)"

definition unavailable_for_fail_closed :: "('ac, 'dfa) filter_engine \<Rightarrow> bool" where
  "unavailable_for_fail_closed e \<longleftrightarrow>
     fc_enabled (he_config e) \<and> fc_fail_closed (he_config e) \<and> fs_unavailable (he_snapshot e)"

definition set_status :: "filter_status \<Rightarrow> ('ac, 'dfa) filter_engine \<Rightarrow> ('ac, 'dfa) filter_engine" where
  "set_status s e = e\<lparr>he_status := s\<rparr>"

definition set_snapshot :: "('ac, 'dfa) filter_snapshot \<Rightarrow> ('ac, 'dfa) filter_engine \<Rightarrow> ('ac, 'dfa) filter_engine" where
  "set_snapshot s e = e\<lparr>he_snapshot := s\<rparr>"


section \<open>Reloading\<close>

definition count_loaded_lists :: "rstr list \<Rightarrow> rstr list \<Rightarrow> nat" where
  "count_loaded_lists fetched failed = length (filter (\<lambda>n. n \<notin> set failed) fetched)"

text \<open>The fetch loop: contents, names fetched, names failed.\<close>

fun fetch_loop ::
  "(rstr \<Rightarrow> rstr \<Rightarrow> rstr option) \<Rightarrow> rstr list option \<Rightarrow> filter_list_config list \<Rightarrow>
   (rstr \<times> rstr) list \<times> rstr list \<times> rstr list \<Rightarrow> (rstr \<times> rstr) list \<times> rstr list \<times> rstr list" where
  "fetch_loop fetch only [] acc = acc"
| "fetch_loop fetch only (l # ls) (contents, fetched, failed) =
     (if \<not> fl_enabled l then fetch_loop fetch only ls (contents, fetched, failed)
      else if (case only of None \<Rightarrow> False | Some names \<Rightarrow> fl_name l \<notin> set names)
      then fetch_loop fetch only ls (contents, fetched, failed)
      else case fetch (fl_name l) (fl_url l) of
          Some content \<Rightarrow>
            fetch_loop fetch only ls (contents @ [(fl_name l, content)], fetched @ [fl_name l], failed)
        | None \<Rightarrow> fetch_loop fetch only ls (contents, fetched, failed @ [fl_name l]))"

text \<open>The merge loop of the blocking task: the rule map and the rejected lists.\<close>

fun merge_loop ::
  "('ac, 'dfa) filter_libs \<Rightarrow> (rstr \<times> rstr) list \<Rightarrow> list_rules \<times> rstr list \<Rightarrow> list_rules \<times> rstr list" where
  "merge_loop L [] acc = acc"
| "merge_loop L ((name, content) # cs) (m, rejected) =
     (let rules = fst (parse_rules (lb_puny L) (lb_rtypes L) content name)
      in if regex_load_exceeds_limits rules \<noteq> None then merge_loop L cs (m, rejected @ [name])
         else merge_loop L cs (AList.update name rules m, rejected))"

definition custom_rules_parsed :: "('ac, 'dfa) filter_libs \<Rightarrow> rstr list \<Rightarrow> rule list" where
  "custom_rules_parsed L texts =
     concat (map (\<lambda>t. fst (parse_rules (lb_puny L) (lb_rtypes L) t (lit ''custom''))) texts)"

text \<open>Rules in id order: lists sorted by name, custom rules last.\<close>

definition all_rules :: "list_rules \<Rightarrow> rule list \<Rightarrow> rule list" where
  "all_rules m custom = concat (map snd (sort_key fst m)) @ custom"

definition reload_task ::
  "('ac, 'dfa) filter_libs \<Rightarrow> (nat \<Rightarrow> nat) \<Rightarrow> filtering_config \<Rightarrow> list_rules \<Rightarrow> (rstr \<times> rstr) list \<Rightarrow>
   (filter_error + ('ac, 'dfa) filter_snapshot \<times> nat \<times> list_rules \<times> rstr list) option" where
  "reload_task L clock config base contents =
     (let enabled_names = map fl_name (filter fl_enabled (fc_lists config));
          (m, rejected) = merge_loop L contents (filter (\<lambda>(n, _). n \<in> set enabled_names) base, []);
          custom = custom_rules_parsed L (fc_custom_rules config)
      in case regex_load_exceeds_limits custom of
           Some reason \<Rightarrow> Some (Inl (CompileTaskFailed reason))
         | None \<Rightarrow>
             (let total = sum_list (map (\<lambda>(_, rs). length rs) m) + length custom
              in if total > fc_max_rules config then Some (Inl (TooManyRules total (fc_max_rules config)))
                 else map_option (\<lambda>res. case res of
                        Inl e \<Rightarrow> Inl (CompileBudgetExceeded (ex_elapsed_ms e) (ex_limit_ms e))
                      | Inr s \<Rightarrow> Inr (s, fs_rule_count s, m, rejected))
                    (compile_with_budget (lb_matchers L) (all_rules m custom)
                       (budget_of (fc_regex_compile_budget_ms config) clock))))"

definition failed_details :: "rstr list \<Rightarrow> rstr" where
  "failed_details failed =
     lit ''all '' @ show_nat (length failed) @ lit '' configured filter source(s) failed to load: '' @ join (lit '', '') failed"

text \<open>What a reload does with the outcome of the blocking task; \<open>None\<close> is a join error.\<close>

definition finish_reload ::
  "('ac, 'dfa) filter_libs \<Rightarrow> reload_env \<Rightarrow> bool \<Rightarrow> rstr list \<Rightarrow> rstr list \<Rightarrow>
   (filter_error + ('ac, 'dfa) filter_snapshot \<times> nat \<times> list_rules \<times> rstr list) option \<Rightarrow>
   ('ac, 'dfa) filter_engine \<Rightarrow> ('ac, 'dfa) filter_engine \<times> reload_result" where
  "finish_reload L R apply_drop_guard fetched failed task e =
     (let prev_count = fs_rule_count (he_snapshot e);
          ms = Some (duration_millis (re_elapsed_ns R));
          status = (\<lambda>state n failed err. \<lparr>st_state = state, st_rule_count = n,
                      st_loaded_lists = count_loaded_lists fetched failed, st_failed_lists = failed,
                      st_last_error = err, st_last_compile_ms = ms\<rparr>)
      in case task of
         None \<Rightarrow>
           (set_status (status Failed prev_count failed (Some (re_join_error R))) e,
            Done (Inl (CompileTaskFailed (re_join_error R))))
       | Some (Inl err) \<Rightarrow>
           if prev_count = 0
           then (set_status (status Failed 0 failed (Some (show_filter_error err)))
                   (set_snapshot snapshot_unavailable e), Done (Inl err))
           else (set_status (status Ready prev_count failed (Some (show_filter_error err))) e, Done (Inl err))
       | Some (Inr (new_snapshot, n, new_list_rules, rejected)) \<Rightarrow>
           (let failed = failed @ rejected
            in if apply_drop_guard \<and> prev_count > 0 \<and> (n = 0 \<or> sat_mul64 n 2 < prev_count)
               then (set_status (status Ready prev_count failed
                       (Some (lit ''rule count dropped from '' @ show_nat prev_count @ lit '' to '' @ show_nat n @
                              lit '' (>50%); retained previous snapshot''))) e, Done (Inr prev_count))
               else if n = 0 \<and> failed \<noteq> [] \<and> prev_count = 0
               then (set_status (status Failed 0 failed (Some (failed_details failed)))
                       (set_snapshot snapshot_unavailable e),
                     Done (Inl (NoSourcesLoaded (length failed) (failed_details failed))))
               else let e1 = (set_snapshot new_snapshot e)\<lparr>he_list_rules := new_list_rules\<rparr>
                    in case rebuild_group_snapshots L (re_group_clock R) new_list_rules e1 of
                         None \<Rightarrow> (e1, Panicked)
                       | Some e2 \<Rightarrow>
                           (set_status (status Ready n failed
                              (if failed = [] then None
                               else Some (show_nat (length failed) @ lit '' list(s) failed to load: '' @
                                          join (lit '', '') failed))) e2,
                            Done (Inr n))))"

text \<open>The branch for disabled filtering\<close>

definition reload_disabled :: "('ac, 'dfa) filter_engine \<Rightarrow> ('ac, 'dfa) filter_engine" where
  "reload_disabled e =
     set_status (status_default\<lparr>st_state := Disabled\<rparr>) ((set_snapshot snapshot_default e)\<lparr>he_list_rules := []\<rparr>)"

definition reload_internal ::
  "('ac, 'dfa) filter_libs \<Rightarrow> reload_env \<Rightarrow> filtering_config \<Rightarrow> bool \<Rightarrow> rstr list option \<Rightarrow>
   ('ac, 'dfa) filter_engine \<Rightarrow> ('ac, 'dfa) filter_engine \<times> reload_result" where
  "reload_internal L R config apply_drop_guard only_lists e =
     (if \<not> fc_enabled config then (reload_disabled e, Done (Inr 0))
      else let (contents, fetched, failed) =
                 fetch_loop (re_fetch R (fc_max_list_bytes config)) only_lists (fc_lists config) ([], [], []);
               task = (if re_cancelled R then None
                       else reload_task L (re_budget_clock R) config (he_list_rules e) contents)
           in finish_reload L R apply_drop_guard fetched failed task e)"

definition reload :: "('ac, 'dfa) filter_libs \<Rightarrow> reload_env \<Rightarrow> ('ac, 'dfa) filter_engine \<Rightarrow> ('ac, 'dfa) filter_engine \<times> reload_result" where
  "reload L R e = reload_internal L R (he_config e) True None e"

definition reload_with_config ::
  "('ac, 'dfa) filter_libs \<Rightarrow> reload_env \<Rightarrow> filtering_config \<Rightarrow> ('ac, 'dfa) filter_engine \<Rightarrow>
   ('ac, 'dfa) filter_engine \<times> reload_result" where
  "reload_with_config L R config e =
     (case reload_internal L R config False None e of
        (e', Done (Inr n)) \<Rightarrow> (e'\<lparr>he_config := config\<rparr>, Done (Inr n))
      | r \<Rightarrow> r)"

definition reload_lists ::
  "('ac, 'dfa) filter_libs \<Rightarrow> reload_env \<Rightarrow> rstr list \<Rightarrow> ('ac, 'dfa) filter_engine \<Rightarrow>
   ('ac, 'dfa) filter_engine \<times> reload_result" where
  "reload_lists L R names e = reload_internal L R (he_config e) True (Some names) e"

text \<open>\<^verbatim>\<open>init\<close> and \<^verbatim>\<open>init_with_observer\<close>: a failed first load is only logged.\<close>

definition engine_init ::
  "('ac, 'dfa) filter_libs \<Rightarrow> reload_env \<Rightarrow> filtering_config \<Rightarrow> ('ac, 'dfa) filter_engine \<times> reload_result" where
  "engine_init L R config = reload L R (engine_new config)"


section \<open>The refresh schedule\<close>

text \<open>Durations and instants are nanoseconds.  An instant holds its seconds in an \<^verbatim>\<open>i64\<close>;
  adding past that panics, which is \<open>None\<close>.\<close>

definition from_secs :: "nat \<Rightarrow> nat" where
  "from_secs s = s * 1000000000"

definition instant_add :: "nat \<Rightarrow> nat \<Rightarrow> nat option" where
  "instant_add t d = (if (t + d) div 1000000000 < 9223372036854775808 then Some (t + d) else None)"

definition hours_interval :: "nat \<Rightarrow> nat" where
  "hours_interval h = from_secs (sat_mul64 (max h 1) 3600)"

definition list_interval :: "filtering_config \<Rightarrow> filter_list_config \<Rightarrow> nat" where
  "list_interval config l =
     (case fl_refresh_hours l of
        None \<Rightarrow> hours_interval (fc_refresh_interval_hours config)
      | Some h \<Rightarrow> hours_interval h)"

fun schedule_loop ::
  "filtering_config \<Rightarrow> nat \<Rightarrow> filter_list_config list \<Rightarrow> (rstr \<Rightarrow> nat option) \<times> rstr list \<times> nat option \<Rightarrow>
   ((rstr \<Rightarrow> nat option) \<times> rstr list \<times> nat option) option" where
  "schedule_loop config now [] st = Some st"
| "schedule_loop config now (l # ls) (next_due, due, soonest) =
     do { at \<leftarrow> instant_add now (list_interval config l);
          let entry = (case next_due (fl_name l) of Some t \<Rightarrow> t | None \<Rightarrow> at)
          in schedule_loop config now ls
               (next_due(fl_name l \<mapsto> entry),
                if entry \<le> now then due @ [fl_name l] else due,
                Some (case soonest of None \<Rightarrow> entry | Some s \<Rightarrow> min s entry)) }"

definition refresh_schedule ::
  "filtering_config \<Rightarrow> (rstr \<Rightarrow> nat option) \<Rightarrow> nat \<Rightarrow> ((rstr \<Rightarrow> nat option) \<times> nat \<times> rstr list) option" where
  "refresh_schedule config next_due now =
     (let enabled = filter fl_enabled (fc_lists config);
          kept = (\<lambda>n. if n \<in> fl_name ` set enabled then next_due n else None)
      in do { (next_due', due, soonest) \<leftarrow> schedule_loop config now enabled (kept, [], None);
              Some (next_due',
                    if due = [] then (case soonest of None \<Rightarrow> hours_interval (fc_refresh_interval_hours config) | Some s \<Rightarrow> s - now)
                    else 0,
                    due) })"

text \<open>After a refresh each due list is rescheduled from its own interval.\<close>

fun reschedule_loop :: "filtering_config \<Rightarrow> nat \<Rightarrow> rstr list \<Rightarrow> (rstr \<Rightarrow> nat option) \<Rightarrow> (rstr \<Rightarrow> nat option) option" where
  "reschedule_loop config now [] next_due = Some next_due"
| "reschedule_loop config now (n # ns) next_due =
     (let interval = (case List.find (\<lambda>l. fl_name l = n) (fc_lists config) of
                        Some l \<Rightarrow> list_interval config l
                      | None \<Rightarrow> hours_interval (fc_refresh_interval_hours config))
      in do { at \<leftarrow> instant_add now interval; reschedule_loop config now ns (next_due(n \<mapsto> at)) })"

text \<open>One turn of the refresh task: it sleeps, or refreshes the due lists (\<open>now'\<close> is the clock
  after the reload) and reschedules them.\<close>

datatype ('ac, 'dfa) refresh_turn =
    Sleep nat "rstr \<Rightarrow> nat option"
  | Refreshed "('ac, 'dfa) filter_engine" "rstr \<Rightarrow> nat option"

definition refresh_turn ::
  "('ac, 'dfa) filter_libs \<Rightarrow> reload_env \<Rightarrow> nat \<Rightarrow> nat \<Rightarrow> ('ac, 'dfa) filter_engine \<Rightarrow> (rstr \<Rightarrow> nat option) \<Rightarrow>
   ('ac, 'dfa) refresh_turn option" where
  "refresh_turn L R now now' e next_due =
     do { (next_due', sleep_for, due) \<leftarrow> refresh_schedule (he_config e) next_due now;
          if due = [] then Some (Sleep sleep_for next_due')
          else case reload_lists L R due e of
              (e', Panicked) \<Rightarrow> None
            | (e', Done r) \<Rightarrow> map_option (Refreshed e') (reschedule_loop (he_config e') now' due next_due') }"


section \<open>Guarded evaluation\<close>

text \<open>\<open>ascii\<close> is the ASCII text of the query name.\<close>

definition engine_evaluate_important ::
  "('ac, 'dfa) filter_libs \<Rightarrow> ('ac, 'dfa) filter_engine \<Rightarrow> rstr \<Rightarrow> nat \<Rightarrow> client_context \<Rightarrow> verdict option option" where
  "engine_evaluate_important L e ascii qtype client =
     (if \<not> fc_enabled (he_config e) then Some None
      else if fc_fail_closed (he_config e) \<and> fs_unavailable (he_snapshot e)
      then Some (Some (VBlock BFilterUnavailable))
      else evaluate_important (lb_matchers L) (he_snapshot e) (normalized_query_domain (lb_puny L) ascii) qtype client)"

definition engine_evaluate_standard ::
  "('ac, 'dfa) filter_libs \<Rightarrow> ('ac, 'dfa) filter_engine \<Rightarrow> rstr \<Rightarrow> nat \<Rightarrow> client_context \<Rightarrow> verdict option" where
  "engine_evaluate_standard L e ascii qtype client =
     (if \<not> fc_enabled (he_config e) then Some (VAllow None)
      else if fc_fail_closed (he_config e) \<and> fs_unavailable (he_snapshot e)
      then Some (VBlock BFilterUnavailable)
      else evaluate_standard (lb_matchers L) (he_snapshot e) (normalized_query_domain (lb_puny L) ascii) qtype client)"

definition engine_evaluate ::
  "('ac, 'dfa) filter_libs \<Rightarrow> ('ac, 'dfa) filter_engine \<Rightarrow> rstr \<Rightarrow> nat \<Rightarrow> client_context \<Rightarrow> verdict option" where
  "engine_evaluate L e ascii qtype client =
     (if \<not> fc_enabled (he_config e) then Some (VAllow None)
      else if fc_fail_closed (he_config e) \<and> fs_unavailable (he_snapshot e)
      then Some (VBlock BFilterUnavailable)
      else evaluate (lb_matchers L) (he_snapshot e) (normalized_query_domain (lb_puny L) ascii) qtype client)"

end
