(* ===== verification/Compile_Correct.thy ===== *)
theory Compile_Correct
  imports Rule_Compile
begin

text \<open>
  The compiled lookup structures answer as a linear scan over the rules would: the regex
  batches account for every pattern, and a lookup returns exactly the rules whose pattern
  matches, under the documented behaviour of the search automata (\<open>engines_ok\<close>).
\<close>


section \<open>Bisecting a batch that does not compile\<close>

lemma check_budget_None [simp]: "check_budget None t = Inr t"
  by (simp add: check_budget_def)

definition mk_batch :: "('ac, 'dfa) matchers \<Rightarrow> rstr list \<times> nat list list \<Rightarrow> 'dfa regex_batch" where
  "mk_batch M = (\<lambda>(ps, rs). \<lparr>rb_dfa = the (dfa_build M ps), rb_pattern_to_rules = rs\<rparr>)"

definition zipped :: "(rstr list \<times> nat list list) list \<Rightarrow> (rstr \<times> nat list) list" where
  "zipped gs = concat (map (\<lambda>(ps, rs). zip ps rs) gs)"

lemma zipped_simps [simp]: "zipped [] = []" "zipped ((ps, rs) # gs) = zip ps rs @ zipped gs"
  "zipped (gs @ hs) = zipped gs @ zipped hs"
  by (simp_all add: zipped_def)

text \<open>What a run of the batch builder did: the groups it compiled and the entries it dropped.\<close>

definition batch_run ::
  "('ac, 'dfa) matchers \<Rightarrow> (rstr \<times> nat list) list \<Rightarrow> (rstr list \<times> nat list list) list \<Rightarrow>
   (rstr \<times> nat list) list \<Rightarrow> bool" where
  "batch_run M es gs ds \<longleftrightarrow>
     (\<forall>(ps, rs)\<in>set gs. dfa_build M ps \<noteq> None \<and> length ps = length rs \<and> ps \<noteq> []) \<and>
     mset (zipped gs) + mset ds = mset es \<and> (\<forall>(p, _)\<in>set ds. dfa_build M [p] = None)"

lemma batch_run_append:
  "batch_run M es gs ds \<Longrightarrow> batch_run M es' gs' ds' \<Longrightarrow> batch_run M (es @ es') (gs @ gs') (ds @ ds')"
  by (auto simp: batch_run_def add_ac)

lemma batch_run_Nil: "batch_run M [] [] []"
  by (simp add: batch_run_def)

lemma build_regex_batch_run:
  assumes "length ps = length rs" and "build_regex_batch M budget ps rs st = Inr st'"
  shows "\<exists>gs ds. batch_run M (zip ps rs) gs ds \<and>
           fst st' = fst st @ map (mk_batch M) gs \<and> fst (snd st') = fst (snd st) + length ds"
  using assms
proof (induction M budget ps rs st arbitrary: st' rule: build_regex_batch.induct)
  case (1 M budget ps rs batches dropped t)
  note simps = build_regex_batch.simps [of M budget ps rs batches dropped t]
  show ?case
  proof (cases "ps = []")
    case True
    with 1(4) have "st' = (batches, dropped, t)" unfolding simps by simp
    with True show ?thesis by (intro exI [of _ "[]"]) (simp add: batch_run_Nil)
  next
    case False
    then obtain t' where t': "check_budget budget t = Inr t'" using 1(4) by (auto simp: simps split: sum.splits)
    show ?thesis
    proof (cases "dfa_build M ps")
      case (Some d)
      with 1(3,4) False t' show ?thesis
        by (intro exI [of _ "[(ps, rs)]"] exI [of _ "[]"]) (auto simp: simps batch_run_def mk_batch_def)
    next
      case None
      show ?thesis
      proof (cases "length ps = 1")
        case True
        then obtain p r where "ps = [p]" "rs = [r]" using 1(3)
          by (metis One_nat_def length_0_conv length_Suc_conv)
        moreover have "st' = (batches, dropped + 1, t')"
          using 1(4) False True None t' unfolding simps by simp
        ultimately show ?thesis
          using None by (intro exI [of _ "[]"] exI [of _ "[(p, r)]"]) (simp add: batch_run_def)
      next
        case long: False
        let ?m = "length ps div 2"
        obtain st1 where st1: "build_regex_batch M budget (take ?m ps) (take ?m rs) (batches, dropped, t') = Inr st1"
          "build_regex_batch M budget (drop ?m ps) (drop ?m rs) st1 = Inr st'"
          using 1(4) False t' None long by (auto simp: simps Let_def split: sum.splits)
        obtain gs1 ds1 where a: "batch_run M (zip (take ?m ps) (take ?m rs)) gs1 ds1"
          "fst st1 = batches @ map (mk_batch M) gs1" "fst (snd st1) = dropped + length ds1"
          using 1(1) [OF False t' None long refl _ st1(1)] 1(3) by auto
        obtain gs2 ds2 where b: "batch_run M (zip (drop ?m ps) (drop ?m rs)) gs2 ds2"
          "fst st' = fst st1 @ map (mk_batch M) gs2" "fst (snd st') = fst (snd st1) + length ds2"
          using 1(2) [OF False t' None long refl st1(1) _ st1(2)] 1(3) by auto
        have "zip (take ?m ps) (take ?m rs) @ zip (drop ?m ps) (drop ?m rs) = zip ps rs"
          by (metis append_take_drop_id drop_zip take_zip)
        with batch_run_append [OF a(1) b(1)] a b show ?thesis
          by (intro exI [of _ "gs1 @ gs2"] exI [of _ "ds1 @ ds2"]) simp
      qed
    qed
  qed
qed

lemma build_regex_batch_total: "\<exists>st'. build_regex_batch M None ps rs st = Inr st'"
proof (induction M "None :: compile_budget option" ps rs st rule: build_regex_batch.induct)
  case (1 M ps rs batches dropped t)
  then show ?case
    by (subst build_regex_batch.simps) (fastforce simp: Let_def split: option.splits sum.splits)
qed


lemma chunks_Nil [simp]: "chunks n [] = []"
  by (subst chunks.simps) simp

lemma concat_chunks: "0 < n \<Longrightarrow> concat (chunks n xs) = xs"
proof (induction n xs rule: chunks.induct)
  case (1 n xs)
  then show ?case by (subst chunks.simps) auto
qed

lemma zipped_chunks:
  "0 < n \<Longrightarrow> length ps = length rs \<Longrightarrow> zipped (zip (chunks n ps) (chunks n rs)) = zip ps rs"
proof (induction n ps arbitrary: rs rule: chunks.induct)
  case (1 n ps)
  show ?case
  proof (cases "ps = []")
    case False
    with 1(3) have "rs \<noteq> []" by auto
    with False 1(2) have "zipped (zip (chunks n ps) (chunks n rs)) =
        zip (take n ps) (take n rs) @ zipped (zip (chunks n (drop n ps)) (chunks n (drop n rs)))"
      by (subst (1 2) chunks.simps) simp
    with 1 False show ?thesis by (simp add: take_zip [symmetric] drop_zip [symmetric])
  qed (use 1 in simp)
qed

lemma chunks_lengths:
  "0 < n \<Longrightarrow> length ps = length rs \<Longrightarrow> \<forall>(p, r)\<in>set (zip (chunks n ps) (chunks n rs)). length p = length r \<and> length p \<le> n"
proof (induction n ps arbitrary: rs rule: chunks.induct)
  case (1 n ps)
  show ?case
  proof (cases "ps = []")
    case False
    with 1(3) have "rs \<noteq> []" by auto
    with False 1(2,3) 1(1) [of "drop n rs"] show ?thesis by (subst (1 2) chunks.simps) auto
  qed simp
qed

lemma build_chunks_run:
  assumes "\<forall>(p, r)\<in>set cs. length p = length r" and "build_chunks M budget cs st = Inr st'"
  shows "\<exists>gs ds. batch_run M (zipped cs) gs ds \<and>
           fst st' = fst st @ map (mk_batch M) gs \<and> fst (snd st') = fst (snd st) + length ds"
  using assms
proof (induction cs arbitrary: st)
  case Nil
  then show ?case by (intro exI [of _ "[]"]) (simp add: batch_run_Nil)
next
  case (Cons c cs)
  obtain p r where c: "c = (p, r)" by fastforce
  obtain batches dropped t where st: "st = (batches, dropped, t)" by (metis prod_cases3)
  from Cons.prems(2) obtain t' st1 where "build_regex_batch M budget p r (batches, dropped, t') = Inr st1"
    and rest: "build_chunks M budget cs st1 = Inr st'"
    by (auto simp: c st split: sum.splits)
  from build_regex_batch_run [OF _ this(1)] Cons.prems(1) obtain gs1 ds1 where
    a: "batch_run M (zip p r) gs1 ds1" "fst st1 = batches @ map (mk_batch M) gs1" "fst (snd st1) = dropped + length ds1"
    by (auto simp: c)
  from Cons.IH [OF _ rest] Cons.prems(1) obtain gs2 ds2 where
    b: "batch_run M (zipped cs) gs2 ds2" "fst st' = fst st1 @ map (mk_batch M) gs2"
    "fst (snd st') = fst (snd st1) + length ds2" by (auto simp: c)
  from batch_run_append [OF a(1) b(1)] a b show ?case
    by (intro exI [of _ "gs1 @ gs2"] exI [of _ "ds1 @ ds2"]) (simp add: c st)
qed

lemma build_chunks_total: "\<exists>st'. build_chunks M None cs st = Inr st'"
proof (induction cs arbitrary: st)
  case (Cons c cs)
  obtain p r where c: "c = (p, r)" by fastforce
  obtain batches dropped t where st: "st = (batches, dropped, t)" by (metis prod_cases3)
  obtain st1 where "build_regex_batch M None p r (batches, dropped, t) = Inr st1"
    using build_regex_batch_total by blast
  with Cons.IH [of st1] show ?case by (simp add: c st)
qed auto


section \<open>Grouping rule ids by pattern\<close>

lemma map_of_entry_push: "map_of (entry_push es k i) = (map_of es)(k \<mapsto> unwrap_or (map_of es k) [] @ [i])"
  by (induction es k i rule: entry_push.induct) (auto simp: unwrap_or_def fun_eq_iff)

lemma keys_entry_push: "set (map fst (entry_push es k i)) = insert k (set (map fst es))"
  by (induction es k i rule: entry_push.induct) auto

lemma distinct_entry_push: "distinct (map fst es) \<Longrightarrow> distinct (map fst (entry_push es k i))"
proof (induction es k i rule: entry_push.induct)
  case (2 k' js es k i)
  then show ?case using keys_entry_push [of es k i] by auto
qed simp

lemma group_entries_snoc: "group_entries (ps @ [(k, i)]) = entry_push (group_entries ps) k i"
  by (simp add: group_entries_def)

lemma group_entries_facts:
  "distinct (map fst (group_entries ps)) \<and>
   (\<forall>k. unwrap_or (map_of (group_entries ps) k) [] = ids_for ps k) \<and>
   (\<forall>k. map_of (group_entries ps) k \<noteq> Some [])"
proof (induction ps rule: rev_induct)
  case Nil
  then show ?case by (simp add: group_entries_def unwrap_or_def)
next
  case (snoc x ps)
  obtain k i where x: "x = (k, i)" by fastforce
  from snoc show ?case
    unfolding x group_entries_snoc map_of_entry_push
    by (auto simp: distinct_entry_push unwrap_or_def)
qed

lemma set_group_entries:
  "(k, ids) \<in> set (group_entries ps) \<longleftrightarrow> ids = ids_for ps k \<and> ids \<noteq> []"
proof -
  note f = group_entries_facts [of ps]
  have "(k, ids) \<in> set (group_entries ps) \<longleftrightarrow> map_of (group_entries ps) k = Some ids"
    using f by (simp add: map_of_eq_Some_iff)
  also have "\<dots> \<longleftrightarrow> ids = ids_for ps k \<and> ids \<noteq> []"
    using f by (cases "map_of (group_entries ps) k") (auto simp: unwrap_or_def dest: spec [of _ k])
  finally show ?thesis .
qed


section \<open>The contract of the matching engines\<close>

text \<open>
  What the crates document: the overlapping search reports exactly the patterns that occur in
  the text, the DFA search (match kind All) exactly the patterns whose regex matches somewhere,
  and iterating a map yields each entry once, in some order.  \<open>rm p s\<close> is the meaning of a
  regex.
\<close>

definition engines_ok :: "('ac, 'dfa) matchers \<Rightarrow> (rstr \<Rightarrow> rstr \<Rightarrow> bool) \<Rightarrow> bool" where
  "engines_ok M rm \<longleftrightarrow>
     (\<forall>ps ac s. ac_build M ps = Some ac \<longrightarrow> set (ac_find M ac s) = {i. i < length ps \<and> sublist (ps ! i) s}) \<and>
     (\<forall>ps d s. dfa_build M ps = Some d \<longrightarrow>
        (\<exists>is'. dfa_find M d s = Some is' \<and> set is' = {i. i < length ps \<and> rm (ps ! i) s})) \<and>
     (\<forall>es. mset (hash_iter M es) = mset es)"

lemma set_sorted_entries:
  assumes "engines_ok M rm"
  shows "set (sorted_entries M ps) = set (group_entries ps)"
    and "length (sorted_entries M ps) = length (group_entries ps)"
proof -
  have "mset (sorted_entries M ps) = mset (group_entries ps)"
    using assms by (simp add: sorted_entries_def engines_ok_def)
  then show "set (sorted_entries M ps) = set (group_entries ps)"
    "length (sorted_entries M ps) = length (group_entries ps)"
    using mset_eq_setD mset_eq_length by blast+
qed

lemma set_rules_at: "set (rules_at table js) = {r. \<exists>i\<in>set js. i < length table \<and> r \<in> set (table ! i)}"
  by (auto simp: rules_at_def unwrap_or_def idx_def split: option.splits if_splits)

definition entry_hits :: "(rstr \<Rightarrow> bool) \<Rightarrow> (rstr \<times> nat list) list \<Rightarrow> nat set" where
  "entry_hits P es = {r. \<exists>p ids. (p, ids) \<in> set es \<and> P p \<and> r \<in> set ids}"

lemma entry_hits_group: "entry_hits P (group_entries ps) = {r. \<exists>p. (p, r) \<in> set ps \<and> P p}"
  by (auto simp: entry_hits_def set_group_entries set_ids_for) (metis empty_iff empty_set mem_Collect_eq set_ids_for)

lemma rules_at_hits:
  assumes "length ps = length rs" and "set js = {i. i < length ps \<and> P (ps ! i)}"
  shows "set (rules_at rs js) = entry_hits P (zip ps rs)"
  using assms by (auto simp: set_rules_at entry_hits_def set_zip)

lemma build_ac_hits:
  assumes ok: "engines_ok M rm" and b: "build_ac M subs = (ac, table)" and "subs = [] \<or> ac \<noteq> None"
  shows "set (case ac of None \<Rightarrow> [] | Some a \<Rightarrow> rules_at table (ac_find M a s)) =
         {r. \<exists>p. (p, r) \<in> set subs \<and> sublist p s}"
proof (cases "subs = []")
  case True
  with b show ?thesis by (auto simp: build_ac_def)
next
  case False
  let ?es = "sorted_entries M subs"
  from False b assms(3) obtain a where a: "ac = Some a" "ac_build M (map fst ?es) = Some a" "table = map snd ?es"
    by (auto simp: build_ac_def Let_def split: option.splits)
  have "set (ac_find M a s) = {i. i < length (map fst ?es) \<and> sublist (map fst ?es ! i) s}"
    using ok a(2) unfolding engines_ok_def by blast
  then have "set (rules_at (map snd ?es) (ac_find M a s)) = entry_hits (\<lambda>p. sublist p s) (zip (map fst ?es) (map snd ?es))"
    by (intro rules_at_hits) simp_all
  also have "\<dots> = entry_hits (\<lambda>p. sublist p s) (group_entries subs)"
    using set_sorted_entries(1) [OF ok] by (simp add: zip_map_fst_snd entry_hits_def)
  finally show ?thesis by (simp add: a entry_hits_group)
qed

lemma batch_candidates_hits:
  assumes ok: "engines_ok M rm" and "dfa_build M ps \<noteq> None" and "length ps = length rs"
  shows "set (batch_candidates M s (mk_batch M (ps, rs))) = entry_hits (\<lambda>p. rm p s) (zip ps rs)"
proof -
  from assms(2) obtain d where d: "dfa_build M ps = Some d" by blast
  with ok obtain js where "dfa_find M d s = Some js" "set js = {i. i < length ps \<and> rm (ps ! i) s}"
    unfolding engines_ok_def by blast
  with rules_at_hits [OF assms(3)] show ?thesis
    by (simp add: batch_candidates_def mk_batch_def d)
qed

lemma entry_hits_append [simp]: "entry_hits P (xs @ ys) = entry_hits P xs \<union> entry_hits P ys"
  by (auto simp: entry_hits_def)

section \<open>Compiling the regexes\<close>

lemma filter_split_mset: "mset (filter P xs) + mset (filter (\<lambda>x. \<not> P x) xs) = mset xs"
  by (induction xs) auto

lemma sum_batch_sizes:
  assumes "batch_run M es gs ds"
  shows "sum_list (map (\<lambda>b. length (rb_pattern_to_rules b)) (map (mk_batch M) gs)) = length (zipped gs)"
proof -
  have "\<forall>(ps, rs)\<in>set gs. length ps = length rs" using assms by (auto simp: batch_run_def)
  then show ?thesis by (induction gs) (auto simp: mk_batch_def)
qed

lemma batch_run_size: "batch_run M es gs ds \<Longrightarrow> length (zipped gs) + length ds = length es"
  unfolding batch_run_def by (metis size_mset size_union)

text \<open>The groups that survive the batch limit, and what is dropped in all.\<close>

lemma build_regexes_run:
  assumes ok: "engines_ok M rm" and b: "build_regexes M budget res t = Inr (bs, dropped, t')"
  shows "\<exists>gs ds. bs = map (mk_batch M) gs \<and>
           (\<forall>(ps, rs)\<in>set gs. dfa_build M ps \<noteq> None \<and> length ps = length rs) \<and>
           mset (zipped gs) + mset ds = mset (sorted_entries M res) \<and> length ds = dropped \<and>
           length bs \<le> max_regex_batches"
proof -
  let ?es = "sorted_entries M res"
  let ?long = "\<lambda>(pat, _). str_len pat > max_regex_pattern_len"
  let ?kept = "filter (\<lambda>e. \<not> ?long e) ?es" and ?oversized = "filter ?long ?es"
  have split: "mset ?kept + mset ?oversized = mset ?es"
    using filter_split_mset [of ?long ?es] by (simp add: add.commute)
  have lens: "length ?kept + length ?oversized = length ?es"
    using sum_length_filter_compl [of ?long ?es] by simp
  have kept: "filter (\<lambda>(pat, _). \<not> str_len pat > max_regex_pattern_len) ?es = ?kept"
    by (intro filter_cong) auto
  have none: ?thesis if "bs = []" "dropped = length ?es"
    using that by (intro exI [of _ "[]"] exI [of _ ?es]) simp
  show ?thesis
  proof (cases "res = []")
    case True
    then have "?es = []" using set_sorted_entries(2) [OF ok, of res] by (simp add: group_entries_def)
    with True b none show ?thesis by (simp add: build_regexes_def)
  next
    case False
    note b' = b [unfolded build_regexes_def Let_def kept]
    consider "length ?kept > max_regex_patterns \<or> sum_list (map str_len (map fst ?kept)) > max_regex_pattern_bytes"
      | "\<not> (length ?kept > max_regex_patterns \<or> sum_list (map str_len (map fst ?kept)) > max_regex_pattern_bytes)"
        "?kept = []"
      | "\<not> (length ?kept > max_regex_patterns \<or> sum_list (map str_len (map fst ?kept)) > max_regex_pattern_bytes)"
        "?kept \<noteq> []" by blast
    then show ?thesis
    proof cases
      case 1
      with b' False have "bs = []" "dropped = length ?oversized + length ?kept" by auto
      with lens show ?thesis by (intro none) simp_all
    next
      case 2
      with b' False have "bs = []" "dropped = length ?oversized" by auto
      with lens 2(2) show ?thesis by (intro none) simp_all
    next
      case 3
      let ?cs = "zip (chunks regex_batch_size (map fst ?kept)) (chunks regex_batch_size (map snd ?kept))"
      have pos: "0 < regex_batch_size" by (simp add: regex_batch_size_def)
      from b' False 3 obtain batches d where
        run: "build_chunks M budget ?cs ([], 0, t) = Inr (batches, d, t')"
        and trunc: "truncate_batches batches d = (bs, dropped - length ?oversized)" "length ?oversized \<le> dropped"
        by (auto split: sum.splits prod.splits)
      have "\<forall>(p, r)\<in>set ?cs. length p = length r"
        using chunks_lengths [OF pos, of "map fst ?kept" "map snd ?kept"] by auto
      from build_chunks_run [OF this run] obtain gs ds where
        "batch_run M (zipped ?cs) gs ds" "batches = map (mk_batch M) gs" "d = length ds" by auto
      moreover have "zipped ?cs = ?kept"
        by (simp add: zipped_chunks [OF pos] zip_map_fst_snd)
      ultimately have gs: "batch_run M ?kept gs ds" "batches = map (mk_batch M) gs" "d = length ds" by simp_all
      let ?n = max_regex_batches
      have tk: "batch_run M (zipped (take ?n gs)) (take ?n gs) []"
        using gs(1) by (auto simp: batch_run_def dest!: in_set_takeD)
      have dr: "batch_run M (zipped (drop ?n gs)) (drop ?n gs) []"
        using gs(1) by (auto simp: batch_run_def dest!: in_set_dropD)
      have cut: "zipped (take ?n gs) @ zipped (drop ?n gs) = zipped gs"
        by (simp flip: zipped_simps(3))
      have "bs = map (mk_batch M) (take ?n gs)"
        and "dropped = length ?oversized + length ds + length (zipped (drop ?n gs))"
        using trunc gs(2,3) sum_batch_sizes [OF dr]
        by (auto simp: truncate_batches_def take_map drop_map split: if_splits)
      moreover have "mset (zipped (take ?n gs)) + mset (?oversized @ ds @ zipped (drop ?n gs)) = mset ?es"
      proof -
        have "mset (zipped gs) + mset ds = mset ?kept" using gs(1) unfolding batch_run_def by blast
        then have "mset (zipped (take ?n gs) @ zipped (drop ?n gs)) + mset ds + mset ?oversized = mset ?es"
          unfolding cut by (simp only: split)
        then show ?thesis by (simp add: ac_simps del: mset_filter)
      qed
      ultimately show ?thesis
        using tk by (intro exI [of _ "take ?n gs"] exI [of _ "?oversized @ ds @ zipped (drop ?n gs)"])
          (auto simp: batch_run_def)
    qed
  qed
qed


lemma regex_hits:
  assumes ok: "engines_ok M rm" and b: "build_regexes M budget res t = Inr (bs, dropped, t')"
  shows "set (concat (map (batch_candidates M s) bs)) \<subseteq> {r. \<exists>p. (p, r) \<in> set res \<and> rm p s}"
    and "dropped = 0 \<Longrightarrow> set (concat (map (batch_candidates M s) bs)) = {r. \<exists>p. (p, r) \<in> set res \<and> rm p s}"
proof -
  from build_regexes_run [OF assms] obtain gs ds where
    bs: "bs = map (mk_batch M) gs" and gs: "\<forall>(ps, rs)\<in>set gs. dfa_build M ps \<noteq> None \<and> length ps = length rs"
    and m: "mset (zipped gs) + mset ds = mset (sorted_entries M res)" and d: "length ds = dropped" by blast
  have hits: "set (concat (map (batch_candidates M s) bs)) = entry_hits (\<lambda>p. rm p s) (zipped gs)"
    using gs unfolding bs
  proof (induction gs)
    case (Cons g gs)
    obtain ps rs where g: "g = (ps, rs)" by fastforce
    with Cons batch_candidates_hits [OF ok, of ps rs s] show ?case by simp
  qed (simp add: entry_hits_def)
  have all: "entry_hits (\<lambda>p. rm p s) (sorted_entries M res) = {r. \<exists>p. (p, r) \<in> set res \<and> rm p s}"
    using set_sorted_entries(1) [OF ok, of res] entry_hits_group [of "\<lambda>p. rm p s" res] by (simp add: entry_hits_def)
  have "set (zipped gs) \<union> set ds = set (sorted_entries M res)"
    using arg_cong [OF m, of set_mset] by simp
  then have "entry_hits (\<lambda>p. rm p s) (zipped gs) \<union> entry_hits (\<lambda>p. rm p s) ds =
      entry_hits (\<lambda>p. rm p s) (sorted_entries M res)"
    unfolding entry_hits_def by blast
  with hits all d show "set (concat (map (batch_candidates M s) bs)) \<subseteq> {r. \<exists>p. (p, r) \<in> set res \<and> rm p s}"
    and "dropped = 0 \<Longrightarrow> set (concat (map (batch_candidates M s) bs)) = {r. \<exists>p. (p, r) \<in> set res \<and> rm p s}"
    by (auto simp: entry_hits_def [of _ "[]"])
qed


lemma build_chunks_no_error: "build_chunks M None cs st \<noteq> Inl e"
  using build_chunks_total [of M cs st] by auto

lemma build_regexes_no_error: "build_regexes M None res t \<noteq> Inl e"
  by (simp add: build_regexes_def Let_def build_chunks_no_error split: sum.split prod.split)


section \<open>Whole rule sets\<close>

definition builder_hits :: "(rstr \<Rightarrow> rstr \<Rightarrow> bool) \<Rightarrow> rule_set_builder \<Rightarrow> rstr \<Rightarrow> nat set" where
  "builder_hits rm b s =
     set (unwrap_or (b_exact_rules b s) []) \<union>
     {r. \<exists>d. (d, r) \<in> set (b_trie_domains b) \<and> matches_domain_suffix (clean_domain s) (clean_domain d)} \<union>
     {r. \<exists>p. (p, r) \<in> set (b_prefixes b) \<and> p \<noteq> [] \<and> prefix p s} \<union>
     {r. \<exists>p. (p, r) \<in> set (b_substrings b) \<and> sublist p s} \<union>
     {r. \<exists>p. (p, r) \<in> set (b_regexes b) \<and> rm p s}"

definition complete_set :: "('ac, 'dfa) compiled_rule_set \<Rightarrow> rule_set_builder \<Rightarrow> bool" where
  "complete_set cs b \<longleftrightarrow> cs_dropped_regex_patterns cs = 0 \<and> (b_substrings b = [] \<or> cs_ac cs \<noteq> None)"

definition builder_fits :: "rule_set_builder \<Rightarrow> bool" where
  "builder_fits b \<longleftrightarrow> total_labels (b_trie_domains b) < 4294967296 \<and> total_len (b_prefixes b) < 4294967296"

definition compiled_rep ::
  "('ac, 'dfa) matchers \<Rightarrow> label_interner \<Rightarrow> ('ac, 'dfa) compiled_rule_set \<Rightarrow> rule_set_builder \<Rightarrow> bool" where
  "compiled_rep M I cs b \<longleftrightarrow>
     cs_exact_rules cs = b_exact_rules b \<and>
     suffix_rep I (cs_trie cs) (label_paths (b_trie_domains b)) \<and>
     prefix_insert_all prefix_trie_new (b_prefixes b) = Some (cs_prefix_trie cs) \<and>
     build_ac M (b_substrings b) = (cs_ac cs, cs_ac_pattern_to_rules cs) \<and>
     (\<exists>budget t t'. build_regexes M budget (b_regexes b) t =
        Inr (cs_regex_batches cs, cs_dropped_regex_patterns cs, t'))"

lemma compiled_rep_mono:
  "compiled_rep M I cs b \<Longrightarrow> interner_inv I' \<Longrightarrow> li_map I \<subseteq>\<^sub>m li_map I' \<Longrightarrow> compiled_rep M I' cs b"
  using suffix_rep_mono unfolding compiled_rep_def by blast

lemma build_with_budget_rep:
  assumes inv: "interner_inv I" and fits: "builder_fits b"
    and room: "length (li_labels I) + total_labels (b_trie_domains b) \<le> 4294967296"
  shows "\<exists>res. build_with_budget M budget b I t = Some res \<and>
    (budget = None \<longrightarrow> \<not> isl res) \<and>
    (\<forall>cs I' t'. res = Inr (cs, I', t') \<longrightarrow>
       compiled_rep M I' cs b \<and> interner_inv I' \<and> li_map I \<subseteq>\<^sub>m li_map I' \<and>
       length (li_labels I') \<le> length (li_labels I) + total_labels (b_trie_domains b))"
proof (cases "check_budget budget t")
  case (Inl e)
  then show ?thesis by (cases budget) (auto simp: build_with_budget_def)
next
  case (Inr t1)
  have rep0: "suffix_rep I suffix_trie_new []"
    using inv sfx.inv_empty sfx.ids_at_empty by (simp add: suffix_rep_def suffix_trie_new_def)
  have "length suffix_trie_new + total_labels (b_trie_domains b) \<le> 4294967296"
    using fits by (simp add: builder_fits_def suffix_trie_new_def)
  from suffix_insert_all_spec [OF rep0 this room] obtain trie I' where
    st: "suffix_insert_all suffix_trie_new (b_trie_domains b) I = Some (trie, I')"
    "suffix_rep I' trie (label_paths (b_trie_domains b))" "li_map I \<subseteq>\<^sub>m li_map I'"
    "length (li_labels I') \<le> length (li_labels I) + total_labels (b_trie_domains b)" by auto
  obtain pt where pt: "prefix_insert_all prefix_trie_new (b_prefixes b) = Some pt"
    using prefix_trie_lookup_spec fits unfolding builder_fits_def by blast
  obtain ac table where ac: "build_ac M (b_substrings b) = (ac, table)" by fastforce
  have inv': "interner_inv I'" using st(2) by (simp add: suffix_rep_def)
  show ?thesis
  proof (cases "build_regexes M budget (b_regexes b) t1")
    case err: (Inl e)
    then have "budget \<noteq> None" using build_regexes_no_error by metis
    with st pt ac Inr err show ?thesis by (simp add: build_with_budget_def)
  next
    case res: (Inr x)
    obtain bs d t2 where x: "x = (bs, d, t2)" by (metis prod_cases3)
    from st pt ac Inr res inv' show ?thesis
      unfolding x by (auto simp: build_with_budget_def compiled_rep_def)
  qed
qed

lemma prefix_hits:
  "set (concat (sort_key min_rule_id (filter (\<lambda>g. g \<noteq> []) (map (ids_for ps) (tl (prefixes s)))))) =
     {r. \<exists>p. (p, r) \<in> set ps \<and> p \<noteq> [] \<and> prefix p s}"
proof -
  have "p \<in> set (tl (prefixes s)) \<longleftrightarrow> p \<noteq> [] \<and> prefix p s" for p
    by (cases s) (auto simp: prefix_Cons)
  then show ?thesis by (auto simp: set_ids_for) (metis empty_iff empty_set mem_Collect_eq set_ids_for)
qed

lemma collect_candidates_hits:
  assumes ok: "engines_ok M rm" and rep: "compiled_rep M I cs b" and fits: "builder_fits b"
  shows "\<exists>ids. collect_candidates M cs s I c = Some (c @ ids) \<and> set ids \<subseteq> builder_hits rm b s \<and>
           (complete_set cs b \<longrightarrow> set ids = builder_hits rm b s)"
proof -
  let ?ex = "unwrap_or (b_exact_rules b s) []"
  obtain sids where s: "suffix_lookup_candidates (cs_trie cs) s I (c @ ?ex) = Some ((c @ ?ex) @ sids)"
    "set sids = {r. \<exists>d. (d, r) \<in> set (b_trie_domains b) \<and> matches_domain_suffix (clean_domain s) (clean_domain d)}"
    using suffix_lookup_set rep unfolding compiled_rep_def by blast
  let ?pids = "concat (sort_key min_rule_id (filter (\<lambda>g. g \<noteq> []) (map (ids_for (b_prefixes b)) (tl (prefixes s)))))"
  have p: "prefix_lookup_candidates (cs_prefix_trie cs) s c' = Some (c' @ ?pids)" for c'
    using prefix_trie_lookup_spec [of "b_prefixes b" s c'] fits rep
    unfolding builder_fits_def compiled_rep_def by auto
  let ?aids = "case cs_ac cs of None \<Rightarrow> [] | Some a \<Rightarrow> rules_at (cs_ac_pattern_to_rules cs) (ac_find M a s)"
  let ?A = "{r. \<exists>p. (p, r) \<in> set (b_substrings b) \<and> sublist p s}"
  have bac: "build_ac M (b_substrings b) = (cs_ac cs, cs_ac_pattern_to_rules cs)"
    using rep unfolding compiled_rep_def by blast
  have a: "set ?aids \<subseteq> ?A" "b_substrings b = [] \<or> cs_ac cs \<noteq> None \<Longrightarrow> set ?aids = ?A"
    using build_ac_hits [OF ok bac, of s] by (cases "cs_ac cs"; auto)+
  let ?rids = "concat (map (batch_candidates M s) (cs_regex_batches cs))"
  let ?R = "{r. \<exists>p. (p, r) \<in> set (b_regexes b) \<and> rm p s}"
  have r: "set ?rids \<subseteq> ?R" "cs_dropped_regex_patterns cs = 0 \<Longrightarrow> set ?rids = ?R"
    using rep regex_hits [OF ok] unfolding compiled_rep_def by blast+
  have "collect_candidates M cs s I c = Some (c @ ?ex @ sids @ ?pids @ ?aids @ ?rids)"
    using rep s(1) p by (simp add: collect_candidates_def compiled_rep_def)
  moreover have "set (?ex @ sids @ ?pids @ ?aids @ ?rids) \<subseteq> builder_hits rm b s"
    using s(2) a(1) r(1) prefix_hits [of "b_prefixes b" s] unfolding builder_hits_def set_append by blast
  moreover have "set (?ex @ sids @ ?pids @ ?aids @ ?rids) = builder_hits rm b s" if "complete_set cs b"
    using that s(2) a(2) r(2) prefix_hits [of "b_prefixes b" s]
    unfolding builder_hits_def set_append complete_set_def by blast
  ultimately show ?thesis by blast
qed


section \<open>A reference implementation of the engines\<close>

text \<open>Linear search, with \<open>rm\<close> as the meaning of a regex, satisfies the contract.\<close>

definition scan_matchers :: "(rstr \<Rightarrow> rstr \<Rightarrow> bool) \<Rightarrow> (rstr \<Rightarrow> bool) \<Rightarrow> (rstr list, rstr list) matchers" where
  "scan_matchers rm valid =
     \<lparr>ac_build = (\<lambda>ps. Some ps),
      ac_find = (\<lambda>ps s. filter (\<lambda>i. sublist (ps ! i) s) [0..<length ps]),
      dfa_build = (\<lambda>ps. if list_all valid ps then Some ps else None),
      dfa_find = (\<lambda>ps s. Some (filter (\<lambda>i. rm (ps ! i) s) [0..<length ps])),
      hash_iter = rev\<rparr>"

lemma engines_ok_scan: "engines_ok (scan_matchers rm valid) rm"
  by (auto simp: engines_ok_def scan_matchers_def split: if_splits)


section \<open>Properties\<close>

text \<open>C24: building a batch terminates and loses nothing: every input pattern
  ends up, with its rules, either in a group that compiled or among the dropped ones, and a
  pattern is dropped only when it does not compile on its own; one bad pattern never drops its
  neighbours.\<close>

theorem regex_batch_isolates:
  assumes "length ps = length rs"
  shows "\<exists>gs ds t'. build_regex_batch M None ps rs ([], 0, t) = Inr (map (mk_batch M) gs, length ds, t') \<and>
           batch_run M (zip ps rs) gs ds"
proof -
  obtain st where st: "build_regex_batch M None ps rs ([], 0, t) = Inr st"
    using build_regex_batch_total by blast
  from build_regex_batch_run [OF assms st] st show ?thesis by (cases st) auto
qed

theorem regex_batch_isolates_witness:
  "let M = scan_matchers (=) (\<lambda>p. p \<noteq> lit ''('') in
   \<exists>gs (ds :: (rstr \<times> nat list) list) t'. build_regex_batch M None [lit ''a'', lit ''('', lit ''b''] [[0], [1], [2]] ([], 0, 0) =
       Inr (map (mk_batch M) gs, length ds, t') \<and> length ds = 1"
proof -
  let ?M = "scan_matchers (=) (\<lambda>p. p \<noteq> lit ''('')"
  have "length [lit ''a'', lit ''('', lit ''b''] = length [[0], [1], [2 :: nat]]" by simp
  from regex_batch_isolates [OF this, of ?M 0] obtain gs t' and ds :: "(rstr \<times> nat list) list" where
    r: "build_regex_batch ?M None [lit ''a'', lit ''('', lit ''b''] [[0], [1], [2]] ([], 0, 0) =
       Inr (map (mk_batch ?M) gs, length ds, t')" by blast
  have "(case build_regex_batch ?M None [lit ''a'', lit ''('', lit ''b''] [[0], [1], [2]] ([], 0, 0) of
      Inr (_, d, _) \<Rightarrow> d = 1 | Inl _ \<Rightarrow> False)" by code_simp
  then have "length ds = 1" unfolding r by simp
  with r show ?thesis unfolding Let_def by blast
qed

text \<open>The regex stage of a build keeps at most 512 batches, and the patterns in
  the batches together with the dropped counter are exactly the distinct patterns: nothing is
  lost silently, whatever limit applied.\<close>

lemma regex_accounting:
  assumes "engines_ok M rm" and "build_regexes M budget res t = Inr (bs, dropped, t')"
  shows "sum_list (map (\<lambda>b. length (rb_pattern_to_rules b)) bs) + dropped = length (group_entries res) \<and>
         length bs \<le> max_regex_batches"
proof -
  from build_regexes_run [OF assms] obtain gs ds where
    bs: "bs = map (mk_batch M) gs" and gs: "\<forall>(ps, rs)\<in>set gs. dfa_build M ps \<noteq> None \<and> length ps = length rs"
    and m: "mset (zipped gs) + mset ds = mset (sorted_entries M res)" and d: "length ds = dropped"
    and l: "length bs \<le> max_regex_batches" by blast
  have "sum_list (map (\<lambda>b. length (rb_pattern_to_rules b)) bs) = length (zipped gs)"
    using gs unfolding bs by (induction gs) (auto simp: mk_batch_def)
  moreover have "length (zipped gs) + length ds = length (sorted_entries M res)"
    using arg_cong [OF m, of size] by simp
  ultimately show ?thesis using set_sorted_entries(2) [OF assms(1), of res] d l by simp
qed

lemma regex_accounting_witness:
  "\<exists>bs dropped t'. build_regexes (scan_matchers (=) (\<lambda>p. p \<noteq> lit ''('')) None
       [(lit ''a'', 0), (lit ''('', 1), (lit ''a'', 2)] 0 = Inr (bs, dropped, t') \<and>
     sum_list (map (\<lambda>b. length (rb_pattern_to_rules b)) bs) + dropped = 2"
proof -
  let ?M = "scan_matchers (=) (\<lambda>p. p \<noteq> lit ''('')" and ?r = "[(lit ''a'', 0), (lit ''('', 1), (lit ''a'', 2)]"
  obtain bs dropped t' where b: "build_regexes ?M None ?r 0 = Inr (bs, dropped, t')"
    using build_regexes_no_error [of ?M ?r 0] by (cases "build_regexes ?M None ?r 0") auto
  have "length (group_entries ?r) = 2" by code_simp
  with regex_accounting [OF engines_ok_scan b] b show ?thesis by auto
qed

end
