(* ===== verification/Filter_Correct.thy ===== *)
theory Filter_Correct
  imports Filter_Snapshot Compile_Correct
begin

text \<open>
  The filter decides as its rules say.  A snapshot is related to the list of rules it was
  compiled from (\<open>snapshot_rep\<close>); the abstract decision \<open>decides\<close> speaks of rules, patterns and
  modifiers only, and evaluation on the compiled structures refines it.
\<close>


section \<open>Which rules a snapshot contains\<close>

text \<open>The first rule of each canonical text.\<close>

fun first_rules :: "rstr set \<Rightarrow> rule list \<Rightarrow> rule list" where
  "first_rules seen [] = []"
| "first_rules seen (r # rs) =
     (if r_canonical r \<in> seen then first_rules seen rs
      else r # first_rules (insert (r_canonical r) seen) rs)"

definition active_rules :: "rule list \<Rightarrow> rule list" where
  "active_rules parsed =
     first_rules {} (filter (\<lambda>r. \<not> m_badfilter (r_modifiers r) \<and> r_canonical r \<notin> badfilter_set parsed) parsed)"

definition kind_builder_from :: "rule_set_builder \<Rightarrow> rule_kind \<Rightarrow> nat \<Rightarrow> rule list \<Rightarrow> rule_set_builder" where
  "kind_builder_from b k n rs =
     foldl (\<lambda>b (i, r). if r_kind r = k then add_pattern b (r_pattern r) i else b) b (enumerate n rs)"

lemma kind_builder_simps [simp]:
  "kind_builder_from b k n [] = b"
  "kind_builder_from b k n (r # rs) =
     kind_builder_from (if r_kind r = k then add_pattern b (r_pattern r) n else b) k (Suc n) rs"
  by (simp_all add: kind_builder_from_def)

lemma first_rules_length: "length (first_rules seen rs) \<le> length rs"
  by (induction seen rs rule: first_rules.induct) auto

lemma activate_loop_spec:
  assumes "length act + length rs \<le> 4294967296"
  shows "activate_loop bad rs seen (ab, bb, act) =
    (let new = first_rules seen (filter (\<lambda>r. \<not> m_badfilter (r_modifiers r) \<and> r_canonical r \<notin> bad) rs)
     in (kind_builder_from ab Allow (length act) new, kind_builder_from bb Block (length act) new, act @ new))"
  using assms
proof (induction rs arbitrary: seen ab bb act)
  case (Cons r rs)
  have "as_u32 (length act) = length act" using Cons.prems by (simp add: as_u32_def)
  with Cons show ?case by (cases "r_kind r") (auto simp: Let_def)
qed (simp add: Let_def)


section \<open>The rules a name matches\<close>

definition pattern_matches :: "(rstr \<Rightarrow> rstr \<Rightarrow> bool) \<Rightarrow> pattern \<Rightarrow> rstr \<Rightarrow> bool" where
  "pattern_matches rm p s =
     (case p of
        Exact d \<Rightarrow> s = d
      | Domain d \<Rightarrow> matches_domain_suffix (clean_domain s) (clean_domain d)
      | Prefix q \<Rightarrow> q \<noteq> [] \<and> prefix q s
      | Substring q \<Rightarrow> sublist q s
      | Wildcard w \<Rightarrow> rm (wildcard_to_regex w) s
      | Regex q \<Rightarrow> rm q s)"

lemma builder_hits_new: "builder_hits rm builder_new s = {}"
  by (simp add: builder_hits_def builder_new_def unwrap_or_def)

lemma builder_hits_add:
  "builder_hits rm (add_pattern b p i) s = builder_hits rm b s \<union> (if pattern_matches rm p s then {i} else {})"
  by (cases p)
    (auto simp: add_pattern_def builder_hits_def pattern_matches_def add_exact_def add_domain_def
      add_prefix_def add_substring_def add_wildcard_def add_regex_def unwrap_or_def split: option.splits)

lemma kind_builder_hits:
  "builder_hits rm (kind_builder_from b k n rs) s =
     builder_hits rm b s \<union> {n + i |i. i < length rs \<and> r_kind (rs ! i) = k \<and> pattern_matches rm (r_pattern (rs ! i)) s}"
proof (induction rs arbitrary: b n)
  case (Cons r rs)
  have "{n + i |i. i < length (r # rs) \<and> r_kind ((r # rs) ! i) = k \<and> pattern_matches rm (r_pattern ((r # rs) ! i)) s} =
    (if r_kind r = k \<and> pattern_matches rm (r_pattern r) s then {n} else {}) \<union>
    {Suc n + i |i. i < length rs \<and> r_kind (rs ! i) = k \<and> pattern_matches rm (r_pattern (rs ! i)) s}"
    by (auto simp: less_Suc_eq_0_disj) 
  with Cons.IH show ?case by (auto simp: builder_hits_add)
qed simp

definition pattern_labels :: "pattern \<Rightarrow> nat" where
  "pattern_labels p = (case p of Domain d \<Rightarrow> length (label_path d) | _ \<Rightarrow> 0)"

definition pattern_chars :: "pattern \<Rightarrow> nat" where
  "pattern_chars p = (case p of Prefix q \<Rightarrow> length q | _ \<Rightarrow> 0)"

text \<open>No counter of the compiler wraps: fewer than $2^{32}$ rules, labels and prefix characters.\<close>

definition rules_fit :: "rule list \<Rightarrow> bool" where
  "rules_fit rs \<longleftrightarrow>
     length rs < 4294967296 \<and>
     sum_list (map (pattern_labels \<circ> r_pattern) rs) < 4294967296 \<and>
     sum_list (map (pattern_chars \<circ> r_pattern) rs) < 4294967296"

lemma add_pattern_sizes:
  "total_labels (b_trie_domains (add_pattern b p i)) = total_labels (b_trie_domains b) + pattern_labels p"
  "total_len (b_prefixes (add_pattern b p i)) = total_len (b_prefixes b) + pattern_chars p"
  by (cases p; simp add: add_pattern_def pattern_labels_def pattern_chars_def total_labels_def total_len_def
      add_exact_def add_domain_def add_prefix_def add_substring_def add_wildcard_def add_regex_def)+

lemma kind_builder_sizes:
  "total_labels (b_trie_domains (kind_builder_from a Allow n rs)) + total_labels (b_trie_domains (kind_builder_from b Block n rs)) =
     total_labels (b_trie_domains a) + total_labels (b_trie_domains b) + sum_list (map (pattern_labels \<circ> r_pattern) rs)"
  "total_len (b_prefixes (kind_builder_from a Allow n rs)) + total_len (b_prefixes (kind_builder_from b Block n rs)) =
     total_len (b_prefixes a) + total_len (b_prefixes b) + sum_list (map (pattern_chars \<circ> r_pattern) rs)"
proof (induction rs arbitrary: a b n)
  case (Cons r rs)
  {
    case 1
    show ?case using Cons.IH(1) by (cases "r_kind r") (simp_all add: add_pattern_sizes)
  next
    case 2
    show ?case using Cons.IH(2) by (cases "r_kind r") (simp_all add: add_pattern_sizes)
  }
qed simp_all

lemma first_rules_sum:
  "sum_list (map f (first_rules seen rs)) \<le> (sum_list (map f rs) :: nat)"
  by (induction seen rs rule: first_rules.induct) (auto intro: le_trans)

lemma filter_sum: "sum_list (map f (filter P rs)) \<le> (sum_list (map f rs) :: nat)"
  by (induction rs) auto

lemma active_rules_fit: "rules_fit parsed \<Longrightarrow> rules_fit (active_rules parsed)"
proof -
  let ?f = "filter (\<lambda>r. \<not> m_badfilter (r_modifiers r) \<and> r_canonical r \<notin> badfilter_set parsed) parsed"
  have "length (active_rules parsed) \<le> length parsed"
    unfolding active_rules_def using first_rules_length [of "{}" ?f] length_filter_le le_trans by blast
  moreover have "sum_list (map g (active_rules parsed)) \<le> sum_list (map g parsed)" for g :: "rule \<Rightarrow> nat"
    unfolding active_rules_def using first_rules_sum [of g "{}" ?f] filter_sum le_trans by blast
  ultimately show "rules_fit parsed \<Longrightarrow> rules_fit (active_rules parsed)"
    unfolding rules_fit_def by (meson le_less_trans)
qed


section \<open>Compiled snapshots\<close>

abbreviation kind_builder :: "rule_kind \<Rightarrow> rule list \<Rightarrow> rule_set_builder" where
  "kind_builder k rs \<equiv> kind_builder_from builder_new k 0 rs"

definition snapshot_rep :: "('ac, 'dfa) matchers \<Rightarrow> ('ac, 'dfa) filter_snapshot \<Rightarrow> rule list \<Rightarrow> bool" where
  "snapshot_rep M s rs \<longleftrightarrow>
     fs_rules s = rs \<and> fs_rule_count s = length rs \<and> \<not> fs_unavailable s \<and>
     compiled_rep M (fs_interner s) (fs_allowlist s) (kind_builder Allow rs) \<and>
     compiled_rep M (fs_interner s) (fs_blocklist s) (kind_builder Block rs) \<and>
     fs_dropped_regex_patterns s =
       cs_dropped_regex_patterns (fs_allowlist s) + cs_dropped_regex_patterns (fs_blocklist s)"

lemma kind_builder_fits:
  assumes "rules_fit rs"
  shows "builder_fits (kind_builder k rs)"
    and "total_labels (b_trie_domains (kind_builder Allow rs)) + total_labels (b_trie_domains (kind_builder Block rs)) < 4294967296"
proof -
  have z: "total_labels (b_trie_domains builder_new) = 0" "total_len (b_prefixes builder_new) = 0"
    by (simp_all add: builder_new_def total_labels_def total_len_def)
  note s = kind_builder_sizes [of builder_new 0 rs builder_new]
  show "total_labels (b_trie_domains (kind_builder Allow rs)) + total_labels (b_trie_domains (kind_builder Block rs)) < 4294967296"
    using s(1) z assms by (simp add: rules_fit_def)
  show "builder_fits (kind_builder k rs)"
    using s z assms by (cases k) (simp_all add: rules_fit_def builder_fits_def)
qed

lemma compile_inner_rep:
  assumes "rules_fit parsed"
  shows "\<exists>res. compile_inner M parsed budget t = Some res \<and> (budget = None \<longrightarrow> \<not> isl res) \<and>
           (\<forall>s. res = Inr s \<longrightarrow> snapshot_rep M s (active_rules parsed))"
proof -
  let ?rs = "active_rules parsed"
  note fit = active_rules_fit [OF assms]
  have act: "activate_loop (badfilter_set parsed) parsed {} (builder_new, builder_new, []) =
      (kind_builder Allow ?rs, kind_builder Block ?rs, ?rs)"
    using activate_loop_spec [of "[]" parsed] assms by (simp add: rules_fit_def active_rules_def Let_def)
  have small: "length (li_labels interner_new) + total_labels (b_trie_domains (kind_builder Allow ?rs)) \<le> 4294967296"
    using kind_builder_fits(2) [OF fit] by (simp add: interner_new_def)
  from build_with_budget_rep [OF interner_inv_new kind_builder_fits(1) [OF fit] small, of M budget t]
  obtain ra where ra: "build_with_budget M budget (kind_builder Allow ?rs) interner_new t = Some ra"
    "budget = None \<longrightarrow> \<not> isl ra" "\<forall>cs I' t'. ra = Inr (cs, I', t') \<longrightarrow>
       compiled_rep M I' cs (kind_builder Allow ?rs) \<and> interner_inv I' \<and>
       length (li_labels I') \<le> total_labels (b_trie_domains (kind_builder Allow ?rs))"
    by (auto simp: interner_new_def)
  show ?thesis
  proof (cases ra)
    case (Inl e)
    with ra act show ?thesis by (simp add: compile_inner_def)
  next
    case (Inr x)
    then obtain allow I1 t1 where x: "ra = Inr (allow, I1, t1)" by (metis prod_cases3)
    with ra(3) have a: "compiled_rep M I1 allow (kind_builder Allow ?rs)" "interner_inv I1"
      "length (li_labels I1) \<le> total_labels (b_trie_domains (kind_builder Allow ?rs))" by blast+
    have "length (li_labels I1) + total_labels (b_trie_domains (kind_builder Block ?rs)) \<le> 4294967296"
      using a(3) kind_builder_fits(2) [OF fit] by linarith
    from build_with_budget_rep [OF a(2) kind_builder_fits(1) [OF fit] this, of M budget t1]
    obtain rb where rb: "build_with_budget M budget (kind_builder Block ?rs) I1 t1 = Some rb"
      "budget = None \<longrightarrow> \<not> isl rb" "\<forall>cs I' t'. rb = Inr (cs, I', t') \<longrightarrow>
         compiled_rep M I' cs (kind_builder Block ?rs) \<and> interner_inv I' \<and> li_map I1 \<subseteq>\<^sub>m li_map I'"
      by blast
    show ?thesis
    proof (cases rb)
      case (Inl e)
      with ra rb x act show ?thesis by (simp add: compile_inner_def)
    next
      case (Inr y)
      then obtain block I2 t2 where y: "rb = Inr (block, I2, t2)" by (metis prod_cases3)
      with rb(3) have b: "compiled_rep M I2 block (kind_builder Block ?rs)" "interner_inv I2"
        "li_map I1 \<subseteq>\<^sub>m li_map I2" by blast+
      from compiled_rep_mono [OF a(1) b(2,3)] b(1) ra rb x y act show ?thesis
        by (simp add: compile_inner_def snapshot_rep_def)
    qed
  qed
qed

definition hits :: "(rstr \<Rightarrow> rstr \<Rightarrow> bool) \<Rightarrow> rule_kind \<Rightarrow> rule list \<Rightarrow> rstr \<Rightarrow> nat set" where
  "hits rm k rs domain = {i. i < length rs \<and> r_kind (rs ! i) = k \<and> pattern_matches rm (r_pattern (rs ! i)) domain}"

definition is_substring :: "pattern \<Rightarrow> bool" where
  "is_substring p = (case p of Substring _ \<Rightarrow> True | _ \<Rightarrow> False)"

text \<open>No structure failed to compile.\<close>

definition snapshot_complete :: "('ac, 'dfa) filter_snapshot \<Rightarrow> bool" where
  "snapshot_complete s \<longleftrightarrow>
     fs_dropped_regex_patterns s = 0 \<and>
     (cs_ac (fs_allowlist s) \<noteq> None \<or> list_all (\<lambda>r. \<not> (r_kind r = Allow \<and> is_substring (r_pattern r))) (fs_rules s)) \<and>
     (cs_ac (fs_blocklist s) \<noteq> None \<or> list_all (\<lambda>r. \<not> (r_kind r = Block \<and> is_substring (r_pattern r))) (fs_rules s))"

lemma kind_builder_substrings:
  "list_all (\<lambda>r. \<not> (r_kind r = k \<and> is_substring (r_pattern r))) rs \<Longrightarrow> b_substrings b = [] \<Longrightarrow>
   b_substrings (kind_builder_from b k n rs) = []"
proof (induction rs arbitrary: b n)
  case (Cons r rs)
  then show ?case
    by (cases "r_pattern r") (auto simp: add_pattern_def add_exact_def add_domain_def add_prefix_def
        add_wildcard_def add_regex_def is_substring_def)
qed simp

lemma snapshot_candidates_hits:
  assumes ok: "engines_ok M rm" and rep: "snapshot_rep M s rs" and fit: "rules_fit rs"
  shows "\<exists>a b. snapshot_candidates M s domain = Some (a, b) \<and>
           set a \<subseteq> hits rm Allow rs domain \<and> set b \<subseteq> hits rm Block rs domain \<and>
           (snapshot_complete s \<longrightarrow> set a = hits rm Allow rs domain \<and> set b = hits rm Block rs domain)"
proof -
  have kb: "builder_hits rm (kind_builder k rs) domain = hits rm k rs domain" for k
    by (simp add: kind_builder_hits builder_hits_new hits_def)
  have reps: "compiled_rep M (fs_interner s) (fs_allowlist s) (kind_builder Allow rs)"
    "compiled_rep M (fs_interner s) (fs_blocklist s) (kind_builder Block rs)"
    and rules: "fs_rules s = rs"
    and drop: "fs_dropped_regex_patterns s =
       cs_dropped_regex_patterns (fs_allowlist s) + cs_dropped_regex_patterns (fs_blocklist s)"
    using rep by (simp_all add: snapshot_rep_def)
  have new: "b_substrings builder_new = []" by (simp add: builder_new_def)
  have comp: "snapshot_complete s \<Longrightarrow> complete_set (fs_allowlist s) (kind_builder Allow rs)"
    "snapshot_complete s \<Longrightarrow> complete_set (fs_blocklist s) (kind_builder Block rs)"
    using drop rules kind_builder_substrings [OF _ new]
    by (auto simp: snapshot_complete_def complete_set_def)
  obtain a where a: "collect_candidates M (fs_allowlist s) domain (fs_interner s) [] = Some a"
    "set a \<subseteq> hits rm Allow rs domain" "snapshot_complete s \<longrightarrow> set a = hits rm Allow rs domain"
    using collect_candidates_hits [OF ok reps(1) kind_builder_fits(1) [OF fit], of domain "[]"] comp(1) kb by auto
  obtain b where b: "collect_candidates M (fs_blocklist s) domain (fs_interner s) [] = Some b"
    "set b \<subseteq> hits rm Block rs domain" "snapshot_complete s \<longrightarrow> set b = hits rm Block rs domain"
    using collect_candidates_hits [OF ok reps(2) kind_builder_fits(1) [OF fit], of domain "[]"] comp(2) kb by auto
  from a b show ?thesis by (simp add: snapshot_candidates_def)
qed


section \<open>The precedence of rules\<close>

definition allow_tier :: "bool \<Rightarrow> rstr \<Rightarrow> nat \<Rightarrow> client_context \<Rightarrow> rule \<Rightarrow> bool" where
  "allow_tier imp domain qtype client r \<longleftrightarrow>
     m_important (r_modifiers r) = imp \<and> m_dnsrewrite (r_modifiers r) = None \<and>
     modifier_scope_matches r domain qtype client"

definition block_tier :: "bool \<Rightarrow> rstr \<Rightarrow> nat \<Rightarrow> client_context \<Rightarrow> rule \<Rightarrow> bool" where
  "block_tier imp domain qtype client r \<longleftrightarrow>
     m_important (r_modifiers r) = imp \<and> modifier_scope_matches r domain qtype client"

lemma allow_loop_find:
  assumes "\<forall>i\<in>set js. i < length rs"
  shows "allow_loop rs imp domain qtype client js =
    Some (map_option (\<lambda>i. VAllow (Some (source_ref (rs ! i)))) (find (\<lambda>i. allow_tier imp domain qtype client (rs ! i)) js))"
  using assms by (induction js) (auto simp: idx_def allow_tier_def modifier_scope_matches_def)

lemma block_loop_find:
  assumes "\<forall>i\<in>set js. i < length rs"
  shows "block_loop rs imp domain qtype client js =
    Some (map_option (\<lambda>i. block_verdict (rs ! i)) (find (\<lambda>i. block_tier imp domain qtype client (rs ! i)) js))"
  using assms by (induction js) (auto simp: idx_def block_tier_def modifier_scope_matches_def)

text \<open>The abstract decision: the rules of a kind that match the name and whose modifiers apply,
  by tier, the first non-empty tier deciding.\<close>

definition tier_rules ::
  "(rstr \<Rightarrow> rstr \<Rightarrow> bool) \<Rightarrow> rule_kind \<Rightarrow> (rule \<Rightarrow> bool) \<Rightarrow> rule list \<Rightarrow> rstr \<Rightarrow> rule set" where
  "tier_rules rm k P rs domain = {r \<in> set rs. r_kind r = k \<and> pattern_matches rm (r_pattern r) domain \<and> P r}"

definition decides ::
  "(rstr \<Rightarrow> rstr \<Rightarrow> bool) \<Rightarrow> rule list \<Rightarrow> rstr \<Rightarrow> nat \<Rightarrow> client_context \<Rightarrow> verdict \<Rightarrow> bool" where
  "decides rm rs domain qtype client v \<longleftrightarrow>
     (let A = (\<lambda>imp. tier_rules rm Allow (allow_tier imp domain qtype client) rs domain);
          B = (\<lambda>imp. tier_rules rm Block (block_tier imp domain qtype client) rs domain)
      in if A True \<noteq> {} then \<exists>r\<in>A True. v = VAllow (Some (source_ref r))
         else if B True \<noteq> {} then \<exists>r\<in>B True. v = block_verdict r
         else if A False \<noteq> {} then \<exists>r\<in>A False. v = VAllow (Some (source_ref r))
         else if B False \<noteq> {} then \<exists>r\<in>B False. v = block_verdict r
         else v = VAllow None)"

text \<open>The verdict comes from a rule that matches and applies, or is the default.\<close>

definition justified ::
  "(rstr \<Rightarrow> rstr \<Rightarrow> bool) \<Rightarrow> rule list \<Rightarrow> rstr \<Rightarrow> nat \<Rightarrow> client_context \<Rightarrow> verdict \<Rightarrow> bool" where
  "justified rm rs domain qtype client v \<longleftrightarrow>
     v = VAllow None \<or>
     (\<exists>imp. (\<exists>r\<in>tier_rules rm Allow (allow_tier imp domain qtype client) rs domain. v = VAllow (Some (source_ref r))) \<or>
            (\<exists>r\<in>tier_rules rm Block (block_tier imp domain qtype client) rs domain. v = block_verdict r))"

lemma find_hits:
  assumes "set js \<subseteq> hits rm k rs domain"
  shows "find (\<lambda>i. P (rs ! i)) js = Some i \<Longrightarrow> rs ! i \<in> tier_rules rm k P rs domain"
    and "set js = hits rm k rs domain \<Longrightarrow> find (\<lambda>i. P (rs ! i)) js = None \<Longrightarrow> tier_rules rm k P rs domain = {}"
proof -
  show "rs ! i \<in> tier_rules rm k P rs domain" if "find (\<lambda>i. P (rs ! i)) js = Some i"
  proof -
    from that have "i \<in> set js" "P (rs ! i)" by (auto simp: find_Some_iff in_set_conv_nth)
    with assms show ?thesis by (auto simp: hits_def tier_rules_def)
  qed
  show "tier_rules rm k P rs domain = {}" if "set js = hits rm k rs domain" "find (\<lambda>i. P (rs ! i)) js = None"
    using that by (auto simp: find_None_iff hits_def tier_rules_def in_set_conv_nth)
qed

lemma evaluate_cases:
  assumes ok: "engines_ok M rm" and rep: "snapshot_rep M s rs" and fit: "rules_fit rs"
  shows "\<exists>v. evaluate M s domain qtype client = Some v \<and> justified rm rs domain qtype client v \<and>
           (snapshot_complete s \<longrightarrow> decides rm rs domain qtype client v)"
proof -
  from snapshot_candidates_hits [OF assms, of domain] obtain a b where
    ab: "snapshot_candidates M s domain = Some (a, b)" "set a \<subseteq> hits rm Allow rs domain"
    "set b \<subseteq> hits rm Block rs domain"
    "snapshot_complete s \<longrightarrow> set a = hits rm Allow rs domain \<and> set b = hits rm Block rs domain" by blast
  have rules: "fs_rules s = rs" using rep by (simp add: snapshot_rep_def)
  have bnd: "\<forall>i\<in>set a. i < length rs" "\<forall>i\<in>set b. i < length rs"
    using ab(2,3) by (auto simp: hits_def)
  let ?A = "\<lambda>imp. find (\<lambda>i. allow_tier imp domain qtype client (rs ! i)) a"
  let ?B = "\<lambda>imp. find (\<lambda>i. block_tier imp domain qtype client (rs ! i)) b"
  have ev: "evaluate M s domain qtype client =
      Some (case ?A True of Some i \<Rightarrow> VAllow (Some (source_ref (rs ! i))) | None \<Rightarrow>
           (case ?B True of Some i \<Rightarrow> block_verdict (rs ! i) | None \<Rightarrow>
           (case ?A False of Some i \<Rightarrow> VAllow (Some (source_ref (rs ! i))) | None \<Rightarrow>
           (case ?B False of Some i \<Rightarrow> block_verdict (rs ! i) | None \<Rightarrow> VAllow None))))"
    by (simp add: evaluate_def ab(1) evaluate_important_candidates_def evaluate_standard_candidates_def
        evaluate_standard_allow_candidates_def evaluate_standard_block_candidates_def rules
        allow_loop_find [OF bnd(1)] block_loop_find [OF bnd(2)] split: option.split)
  note fa = find_hits [OF ab(2), of "allow_tier _ domain qtype client"]
    and fb = find_hits [OF ab(3), of "block_tier _ domain qtype client"]
  show ?thesis
    unfolding ev justified_def decides_def Let_def option.inject
    using ab(4) fa(1) [of True] fa(1) [of False] fb(1) [of True] fb(1) [of False]
      fa(2) [of True] fa(2) [of False] fb(2) [of True] fb(2) [of False]
    by (cases "?A True"; cases "?B True"; cases "?A False"; cases "?B False") (simp; blast)+
qed


section \<open>Independence of the hash order\<close>

lemma build_regex_batch_hash:
  "build_regex_batch (M\<lparr>hash_iter := h\<rparr>) budget ps rs st = build_regex_batch M budget ps rs st"
proof (induction M budget ps rs st rule: build_regex_batch.induct)
  case (1 M budget ps rs batches dropped t)
  show ?case
    unfolding build_regex_batch.simps [of "M\<lparr>hash_iter := h\<rparr>" budget ps rs batches dropped t]
      build_regex_batch.simps [of M budget ps rs batches dropped t]
    using 1 by (simp add: Let_def split: option.split sum.split)
qed

lemma build_chunks_hash: "build_chunks (M\<lparr>hash_iter := h\<rparr>) budget cs st = build_chunks M budget cs st"
  by (induction M budget cs st rule: build_chunks.induct)
    (simp_all add: build_regex_batch_hash split: sum.split)

definition perm_iter :: "('ac, 'dfa) matchers \<Rightarrow> bool" where
  "perm_iter M \<longleftrightarrow> (\<forall>es. mset (hash_iter M es) = mset es)"

lemma list_min_in: "xs \<noteq> [] \<Longrightarrow> \<exists>m\<in>set xs. list_min xs = Some m"
  using list_min_Some by (cases "list_min xs") force+

lemma min_rule_id_in: "rs \<noteq> [] \<Longrightarrow> min_rule_id rs \<in> set rs"
  using list_min_in [of rs] by (auto simp: min_rule_id_def)

lemma group_keys_inj:
  assumes "distinct (map snd ps)"
  shows "inj_on (\<lambda>(_, rules). min_rule_id rules) (set (group_entries ps))"
proof (rule inj_onI, clarify)
  fix k1 ids1 k2 ids2
  assume e: "(k1, ids1) \<in> set (group_entries ps)" "(k2, ids2) \<in> set (group_entries ps)"
    and eq: "min_rule_id ids1 = min_rule_id ids2"
  from e have i: "ids1 = ids_for ps k1" "ids1 \<noteq> []" "ids2 = ids_for ps k2" "ids2 \<noteq> []"
    unfolding set_group_entries by blast+
  have "(k1, min_rule_id ids1) \<in> set ps" "(k2, min_rule_id ids2) \<in> set ps"
    using min_rule_id_in [OF i(2)] min_rule_id_in [OF i(4)] i(1,3) by (simp_all add: set_ids_for)
  with assms eq have "k1 = k2" by (metis distinct_map inj_onD prod.inject snd_conv)
  with i show "k1 = k2 \<and> ids1 = ids2" by simp
qed

lemma sorted_entries_unique:
  fixes M M' :: "('ac, 'dfa) matchers"
  assumes "perm_iter M" and "perm_iter M'" and "distinct (map snd ps)"
  shows "sorted_entries M ps = sorted_entries M' ps"
proof -
  let ?f = "\<lambda>(_ :: rstr, rules). min_rule_id rules"
  note inj = group_keys_inj [OF assms(3)]
  have perm: "mset (sorted_entries N ps) = mset (group_entries ps)" if "perm_iter N" for N :: "('ac, 'dfa) matchers"
    using that by (simp add: sorted_entries_def perm_iter_def)
  have st: "set (sorted_entries N ps) = set (group_entries ps)" if "perm_iter N" for N :: "('ac, 'dfa) matchers"
    using perm [OF that] by (rule mset_eq_setD)
  have dg: "distinct (group_entries ps)"
    using group_entries_facts [of ps] by (simp add: distinct_map)
  have ds: "distinct (map ?f (sorted_entries N ps))" if "perm_iter N" for N :: "('ac, 'dfa) matchers"
    using dg mset_eq_imp_distinct_iff [OF perm [OF that]] inj st [OF that]
    by (simp add: distinct_map)
  have so: "sorted (map ?f (sorted_entries N ps))" for N :: "('ac, 'dfa) matchers"
    by (simp add: sorted_entries_def)
  show ?thesis
    by (rule map_sorted_distinct_set_unique [of ?f]) (use inj st assms ds so in simp_all)
qed

lemma kind_builder_ids:
  assumes "\<forall>x\<in>snd ` (set (b_substrings b) \<union> set (b_regexes b)). x < n"
    and "distinct (map snd (b_substrings b))" and "distinct (map snd (b_regexes b))"
  shows "distinct (map snd (b_substrings (kind_builder_from b k n rs))) \<and>
         distinct (map snd (b_regexes (kind_builder_from b k n rs)))"
  using assms
proof (induction rs arbitrary: b n)
  case (Cons r rs)
  let ?b = "if r_kind r = k then add_pattern b (r_pattern r) n else b"
  have "(\<forall>x\<in>snd ` (set (b_substrings ?b) \<union> set (b_regexes ?b)). x < Suc n) \<and>
    distinct (map snd (b_substrings ?b)) \<and> distinct (map snd (b_regexes ?b))"
    using Cons.prems
    by (cases "r_pattern r") (force simp: add_pattern_def add_exact_def add_domain_def add_prefix_def
        add_substring_def add_wildcard_def add_regex_def)+
  with Cons.IH [of ?b "Suc n"] show ?case by simp
qed simp

lemma build_with_budget_hash:
  assumes "perm_iter M" and "perm_iter (M\<lparr>hash_iter := h\<rparr>)"
    and "distinct (map snd (b_substrings b))" and "distinct (map snd (b_regexes b))"
  shows "build_with_budget (M\<lparr>hash_iter := h\<rparr>) budget b I t = build_with_budget M budget b I t"
proof -
  note u = sorted_entries_unique [OF assms(2,1)]
  have ac: "build_ac (M\<lparr>hash_iter := h\<rparr>) (b_substrings b) = build_ac M (b_substrings b)"
    by (simp add: build_ac_def u [OF assms(3)])
  have re: "build_regexes (M\<lparr>hash_iter := h\<rparr>) budget (b_regexes b) t1 = build_regexes M budget (b_regexes b) t1" for t1
    by (simp only: build_regexes_def u [OF assms(4)] build_chunks_hash)
  show ?thesis by (simp only: build_with_budget_def ac re)
qed


section \<open>Deduplication and cancellation\<close>

lemma first_rules_spec:
  "distinct (map r_canonical (first_rules seen rs)) \<and>
   set (map r_canonical (first_rules seen rs)) = r_canonical ` set rs - seen \<and>
   set (first_rules seen rs) \<subseteq> set rs"
proof (induction seen rs rule: first_rules.induct)
  case (2 seen r rs)
  then show ?case by auto
qed simp

lemma unique_loop_spec:
  "\<exists>new. unique_loop puny u rs = u @ new \<and> subseq new rs \<and>
     (\<forall>r\<in>set rs. r \<in> set new \<or> (\<exists>x\<in>set (u @ new). same_rewrite puny x r)) \<and>
     (\<forall>i<length new. \<forall>x\<in>set (u @ take i new). \<not> same_rewrite puny x (new ! i))"
proof (induction rs arbitrary: u)
  case (Cons r rs)
  show ?case
  proof (cases "list_ex (\<lambda>seen. same_rewrite puny seen r) u")
    case True
    from Cons.IH [of u] obtain new where
      "unique_loop puny u rs = u @ new" "subseq new rs"
      "\<forall>r\<in>set rs. r \<in> set new \<or> (\<exists>x\<in>set (u @ new). same_rewrite puny x r)"
      "\<forall>i<length new. \<forall>x\<in>set (u @ take i new). \<not> same_rewrite puny x (new ! i)" by blast
    with True show ?thesis by (intro exI [of _ new]) (auto simp: list_ex_iff)
  next
    case False
    from Cons.IH [of "u @ [r]"] obtain new where
      n: "unique_loop puny (u @ [r]) rs = (u @ [r]) @ new" "subseq new rs"
      "\<forall>r'\<in>set rs. r' \<in> set new \<or> (\<exists>x\<in>set ((u @ [r]) @ new). same_rewrite puny x r')"
      "\<forall>i<length new. \<forall>x\<in>set ((u @ [r]) @ take i new). \<not> same_rewrite puny x (new ! i)" by blast
    have "\<forall>i<length (r # new). \<forall>x\<in>set (u @ take i (r # new)). \<not> same_rewrite puny x ((r # new) ! i)"
    proof (intro allI impI)
      fix i assume "i < length (r # new)"
      then show "\<forall>x\<in>set (u @ take i (r # new)). \<not> same_rewrite puny x ((r # new) ! i)"
        using n(4) False by (cases i) (auto simp: list_ex_iff)
    qed
    with False n(1-3) show ?thesis by (intro exI [of _ "r # new"]) auto
  qed
qed simp

lemma cancel_loop_filter:
  "cancel_loop puny rules cs = filter (\<lambda>r. \<forall>c\<in>set cs. \<not> cancels_all c \<and> \<not> same_rewrite puny c r) rules"
  by (induction cs arbitrary: rules) (auto simp: conj_commute intro: filter_cong)


section \<open>Identity claimed on the wire\<close>

lemma client_filter_wire:
  "client_filter_matches f (client\<lparr>cx_id := i, cx_sni := sn, cx_proto := pr\<rparr>) = client_filter_matches f client"
proof -
  have "matcher_matches m (client\<lparr>cx_id := i, cx_sni := sn, cx_proto := pr\<rparr>) = matcher_matches m client" for m
    by (cases m) (simp_all add: matcher_matches_def)
  then show ?thesis by (simp add: client_filter_matches_def)
qed

lemma client_scope_wire:
  "client_scope r (client\<lparr>cx_id := i, cx_sni := sn, cx_proto := pr\<rparr>) = client_scope r client"
  by (simp add: client_scope_def client_filter_wire split: option.split)

lemma loops_wire:
  "allow_loop rs imp d q (client\<lparr>cx_id := i, cx_sni := sn, cx_proto := pr\<rparr>) js = allow_loop rs imp d q client js"
  "block_loop rs imp d q (client\<lparr>cx_id := i, cx_sni := sn, cx_proto := pr\<rparr>) js = block_loop rs imp d q client js"
  by (induction js) (simp_all add: client_scope_wire cong: if_cong)


section \<open>Properties\<close>

text \<open>C1: compiling any list of rules (below the size where a 32-bit id would wrap)
  succeeds, and evaluating a query on the compiled snapshot never panics and returns the verdict
  the precedence prescribes: important exceptions, then important blocks, then exceptions, then
  blocks, each tier consisting of the active rules whose pattern matches the name and whose
  client, type and denyallow modifiers apply; otherwise the query is allowed.  When a
  structure could not be compiled the verdict still comes from a matching, applicable rule.\<close>

theorem filter_decides:
  assumes "engines_ok M rm" and "rules_fit parsed"
  shows "\<exists>s v. compile_inner M parsed None 0 = Some (Inr s) \<and> fs_rules s = active_rules parsed \<and>
           evaluate M s domain qtype client = Some v \<and>
           justified rm (active_rules parsed) domain qtype client v \<and>
           (snapshot_complete s \<longrightarrow> decides rm (active_rules parsed) domain qtype client v)"
proof -
  from compile_inner_rep [OF assms(2), of M None 0] obtain res where
    res: "compile_inner M parsed None 0 = Some res" "\<not> isl res"
    "\<forall>s. res = Inr s \<longrightarrow> snapshot_rep M s (active_rules parsed)" by blast
  then obtain s where s: "res = Inr s" by (cases res) auto
  with res(3) have rep: "snapshot_rep M s (active_rules parsed)" by blast
  from evaluate_cases [OF assms(1) rep active_rules_fit [OF assms(2)], of domain qtype client] res(1) rep
  show ?thesis unfolding s snapshot_rep_def by blast
qed

theorem filter_decides_witness:
  "let M = scan_matchers (=) (\<lambda>_. True);
       parsed = fst (parse_rules (\<lambda>_. None) (\<lambda>_. None) (lit ''||ads.example^'' @ [10] @ lit ''@@|ok.ads.example|'') (lit ''l''))
   in \<exists>s v. compile_inner M parsed None 0 = Some (Inr s) \<and>
        evaluate M s (lit ''x.ads.example'') 1 (ctx_new (V4 0)) = Some v \<and>
        justified (=) (active_rules parsed) (lit ''x.ads.example'') 1 (ctx_new (V4 0)) v"
proof -
  let ?p = "fst (parse_rules (\<lambda>_. None) (\<lambda>_. None) (lit ''||ads.example^'' @ [10] @ lit ''@@|ok.ads.example|'') (lit ''l''))"
  have "rules_fit ?p" by code_simp
  from filter_decides [OF engines_ok_scan this] show ?thesis unfolding Let_def by blast
qed

text \<open>A snapshot holds exactly one rule, the first, for each canonical text of
  the parsed rules that no \<^verbatim>\<open>$badfilter\<close> rule carries; rules marked \<^verbatim>\<open>$badfilter\<close> themselves are
  never active.\<close>

lemma active_rules_spec:
  "distinct (map r_canonical (active_rules parsed)) \<and>
   set (active_rules parsed) \<subseteq> {r \<in> set parsed. \<not> m_badfilter (r_modifiers r)} \<and>
   r_canonical ` set (active_rules parsed) =
     r_canonical ` {r \<in> set parsed. \<not> m_badfilter (r_modifiers r)} - badfilter_set parsed"
  using first_rules_spec [of "{}" "filter (\<lambda>r. \<not> m_badfilter (r_modifiers r) \<and> r_canonical r \<notin> badfilter_set parsed) parsed"]
  by (auto simp: active_rules_def)

text \<open>C27: the client id, the SNI and the transport, which a client claims for
  itself, never change a verdict; only the address and the fields the registry resolved do.\<close>

theorem wire_identity_ignored:
  "evaluate M s domain qtype (client\<lparr>cx_id := i, cx_sni := sn, cx_proto := pr\<rparr>) =
   evaluate M s domain qtype client"
  unfolding evaluate_def evaluate_important_candidates_def evaluate_standard_candidates_def
    evaluate_standard_allow_candidates_def evaluate_standard_block_candidates_def loops_wire ..

text \<open>C25: the compiled snapshot does not depend on the iteration order of the
  hash maps used while building: any other order gives the same snapshot.\<close>

theorem compile_deterministic:
  assumes "perm_iter M" and "perm_iter (M\<lparr>hash_iter := h\<rparr>)" and "rules_fit parsed"
  shows "compile_inner (M\<lparr>hash_iter := h\<rparr>) parsed budget t = compile_inner M parsed budget t"
proof -
  let ?rs = "active_rules parsed"
  have act: "activate_loop (badfilter_set parsed) parsed {} (builder_new, builder_new, []) =
      (kind_builder Allow ?rs, kind_builder Block ?rs, ?rs)"
    using activate_loop_spec [of "[]" parsed] assms(3) by (simp add: rules_fit_def active_rules_def Let_def)
  have ids: "distinct (map snd (b_substrings (kind_builder k ?rs)))" "distinct (map snd (b_regexes (kind_builder k ?rs)))" for k
    using kind_builder_ids [of builder_new 0 k ?rs] by (simp_all add: builder_new_def)
  show ?thesis
    unfolding compile_inner_def act Let_def prod.case build_with_budget_hash [OF assms(1,2) ids] ..
qed

theorem compile_deterministic_witness:
  "compile_inner (scan_matchers (=) (\<lambda>_. True)\<lparr>hash_iter := (\<lambda>es. es)\<rparr>)
     (fst (parse_rules (\<lambda>_. None) (\<lambda>_. None) (lit ''adserver'') (lit ''l''))) None 0 =
   compile_inner (scan_matchers (=) (\<lambda>_. True))
     (fst (parse_rules (\<lambda>_. None) (\<lambda>_. None) (lit ''adserver'') (lit ''l''))) None 0"
proof (rule compile_deterministic)
  show "rules_fit (fst (parse_rules (\<lambda>_. None) (\<lambda>_. None) (lit ''adserver'') (lit ''l'')))" by code_simp
qed (simp_all add: perm_iter_def scan_matchers_def)



text \<open>Every query name is evaluated under a non-empty lower-case text: a name
  that does not normalize falls back to its ASCII text and the root to a dot, so no query
  bypasses the filter.\<close>

lemma query_domain_total:
  "normalized_query_domain puny ascii \<noteq> [] \<and> is_lower (normalized_query_domain puny ascii)"
proof (cases "normalize_domain puny ascii")
  case (Inl e)
  then show ?thesis
    by (simp add: normalized_query_domain_def Let_def) (simp add: is_lower_def to_ascii_lowercase_def lower_def lit_simps)
next
  case (Inr d)
  then show ?thesis
    using domain_wf_ne domain_wf_lower normalize_domain_wf by (fastforce simp: normalized_query_domain_def is_lower_def)
qed

end
