(* ===== verification/Config_Validate.thy ===== *)
theory Config_Validate
  imports Config_Model
begin

text \<open>
  Validation of \<^verbatim>\<open>config.rs\<close>, section by section in the order of the source, the effective
  sections, the exposure warnings and the text form of \<^verbatim>\<open>BlockingMode\<close>; and the theorems
  about them: what exactly a validated configuration guarantees, that the defaults are valid, and
  that the exposure warnings cover every unprotected listener.
\<close>

section \<open>Validation of the sections\<close>

definition validate_web :: "web_config \<Rightarrow> check" where
  "validate_web c =
     reject_if (wc_port c = 0) (lit ''web.port'')
       (lit ''port must be greater than 0 (0 would request an ephemeral port that clients cannot discover)'')"

definition validate_stats :: "stats_config \<Rightarrow> check" where
  "validate_stats c =
     reject_if (sc_retention_days c = 0) (lit ''stats.retention_days'') (lit ''retention_days must be greater than 0'')"

definition validate_auth :: "auth_config \<Rightarrow> check" where
  "validate_auth c =
     reject_if (ac_session_ttl_hours c = 0) (lit ''auth.session_ttl_hours'')
       (lit ''session_ttl_hours must be greater than 0 (sessions would expire immediately)'')"

definition validate_server :: "'v config_env \<Rightarrow> server_config \<Rightarrow> check" where
  "validate_server E c =
     (let level = ce_lower E (sv_log_level c); fmt = ce_lower E (sv_log_format c)
      in first_err
       [reject_if (sv_role c \<notin> {lit ''master'', lit ''slave''}) (lit ''server.role'')
          (lit ''invalid server role '' @ quoted (sv_role c) @ lit '', expected '' @
           quoted (lit ''master'') @ lit '' or '' @ quoted (lit ''slave'')),
        reject_if (level \<notin> {lit ''trace'', lit ''debug'', lit ''info'', lit ''warn'', lit ''error''})
          (lit ''server.log_level'')
          (lit ''invalid log level '' @ quoted level @ lit '', expected trace, debug, info, warn, or error''),
        reject_if (fmt \<notin> {lit ''json'', lit ''pretty''}) (lit ''server.log_format'')
          (lit ''invalid log format '' @ quoted fmt @ lit '', expected '' @
           quoted (lit ''json'') @ lit '' or '' @ quoted (lit ''pretty''))])"

definition validate_cache :: "cache_config \<Rightarrow> check" where
  "validate_cache c = first_err
     [reject_if (ch_size_mb c = 0) (lit ''dns.cache.size_mb'') (lit ''cache size_mb must be greater than 0''),
      reject_if (ch_min_ttl c > ch_max_ttl c) (lit ''dns.cache.min_ttl'')
        (lit ''min_ttl ('' @ show_nat (ch_min_ttl c) @ lit '') cannot be greater than max_ttl ('' @
         show_nat (ch_max_ttl c) @ lit '')''),
      reject_if (ch_min_ttl c > ch_negative_ttl_max c) (lit ''dns.cache.negative_ttl_max'')
        (lit ''negative_ttl_max ('' @ show_nat (ch_negative_ttl_max c) @ lit '') cannot be less than min_ttl ('' @
         show_nat (ch_min_ttl c) @ lit '')'')]"

text \<open>A zone name is completed with a dot before hickory parses it.\<close>

definition absolute_name :: "rstr \<Rightarrow> rstr" where
  "absolute_name d = (if suffix (lit ''.'') d then d else d @ lit ''.'')"

definition validate_trust_anchor :: "'v config_env \<Rightarrow> rstr \<Rightarrow> check" where
  "validate_trust_anchor E anchor =
     (let bad = (\<lambda>m. Inl (validation (lit ''dns.dnssec.trust_anchors'') (quoted anchor @ m)));
          check_parts = (\<lambda>domain algorithm encoded.
            if domain = [] then bad (lit '' has an empty zone name'')
            else (case parse_uint 256 algorithm of
                None \<Rightarrow> bad (lit '' has an unparsable algorithm number '' @ quoted algorithm)
              | Some alg \<Rightarrow>
                  if alg \<notin> {8, 10, 13, 14, 15}
                  then bad (lit '' uses unsupported DNSSEC algorithm '' @ show_nat alg)
                  else (case ce_base64 E encoded of
                      Inl e \<Rightarrow> bad (lit '' has invalid base64 key material: '' @ e)
                    | Inr bytes \<Rightarrow>
                        if bytes = [] then bad (lit '' has empty key material'')
                        else (case ce_name_err E (absolute_name domain) of
                            Some e \<Rightarrow> bad (lit '' has an invalid zone name: '' @ e)
                          | None \<Rightarrow> Inr ()))))
      in case split_on (cc CHR '':'') anchor of
           [domain, algorithm, encoded] \<Rightarrow> check_parts (trim domain) (trim algorithm) (trim encoded)
         | [domain, encoded] \<Rightarrow> check_parts (trim domain) (lit ''13'') (trim encoded)
         | _ \<Rightarrow> bad (lit '' must be '' @ quoted (lit ''zone:algorithm:base64'') @ lit '' or '' @ quoted (lit ''zone:base64'')))"

definition dnssec_modes :: "rstr list" where
  "dnssec_modes = map lit [''validate'', ''strict'', ''log_only'', ''log-only'', ''permissive'', ''off'', ''disabled'']"

definition validate_dnssec :: "'v config_env \<Rightarrow> dnssec_config \<Rightarrow> check" where
  "validate_dnssec E c = first_err
     (reject_if (to_ascii_lowercase (dc_mode c) \<notin> set dnssec_modes) (lit ''dns.dnssec.mode'')
        (lit ''unrecognized DNSSEC mode: '' @ quoted (dc_mode c)) #
      map (validate_trust_anchor E) (dc_trust_anchors c))"

definition is_nta :: "'v config_env \<Rightarrow> dnssec_config \<Rightarrow> rstr \<Rightarrow> bool" where
  "is_nta E c domain =
     (let d = ce_lower E (trim_end_matches (cc CHR ''.'') domain)
      in list_ex (\<lambda>anchor. let a = ce_lower E (trim_end_matches (cc CHR ''.'') anchor)
                     in d = a \<or> suffix (lit ''.'' @ a) d) (dc_ntp c @ dc_nta c))"

definition validate_sni :: "nat \<Rightarrow> sni_cert_config \<Rightarrow> check" where
  "validate_sni i s = first_err
     [reject_if (trim (sn_domain s) = []) (indexed (lit ''tls.sni_certs'') i (lit ''.domain'')) (lit ''SNI domain cannot be empty''),
      reject_if (sn_cert s = []) (indexed (lit ''tls.sni_certs'') i (lit ''.cert'')) (lit ''SNI cert path cannot be empty''),
      reject_if (sn_key s = []) (indexed (lit ''tls.sni_certs'') i (lit ''.key'')) (lit ''SNI key path cannot be empty'')]"

definition validate_tls :: "tls_config \<Rightarrow> check" where
  "validate_tls c = first_err
     [(case (tl_cert c, tl_key c) of
         (Some _, None) \<Rightarrow> Inl (validation (lit ''tls.key'') (lit ''tls.key must be specified when tls.cert is configured''))
       | (None, Some _) \<Rightarrow> Inl (validation (lit ''tls.cert'') (lit ''tls.cert must be specified when tls.key is configured''))
       | (Some cert, Some key) \<Rightarrow> first_err
           [reject_if (cert = []) (lit ''tls.cert'') (lit ''tls.cert path cannot be empty''),
            reject_if (key = []) (lit ''tls.key'') (lit ''tls.key path cannot be empty'')]
       | (None, None) \<Rightarrow> Inr ()),
      check_each validate_sni (tl_sni_certs c)]"

definition reject_port_conflict :: "rstr \<times> nat \<Rightarrow> rstr \<times> nat \<Rightarrow> rstr \<Rightarrow> check" where
  "reject_port_conflict a b transport =
     reject_if (snd a > 0 \<and> snd a = snd b) (fst b)
       (fst b @ lit '' and '' @ fst a @ lit '' both use '' @ transport @
        lit '' on the same dns.bind addresses; use distinct ports'')"

definition opt_check :: "('a \<Rightarrow> check) \<Rightarrow> 'a option \<Rightarrow> check" where
  "opt_check f x = (case x of None \<Rightarrow> Inr () | Some y \<Rightarrow> f y)"

definition validate_dns :: "'v config_env \<Rightarrow> dns_config \<Rightarrow> check" where
  "validate_dns E c =
     (let port = (lit ''dns.port'', dn_port c); dot = (lit ''dns.dot_port'', dn_dot_port c);
          doh = (lit ''dns.doh_port'', dn_doh_port c); doq = (lit ''dns.doq_port'', dn_doq_port c);
          doh3 = (lit ''dns.doh3_port'', dn_doh3_port c)
      in first_err
       [reject_if (dn_port c = 0) (lit ''dns.port'') (lit ''port must be greater than 0''),
        reject_if (dn_rate_limit_per_ip c > max_rate_limit_per_ip) (lit ''dns.rate_limit_per_ip'')
          (lit ''rate_limit_per_ip must be 0 (disabled) or between 1 and '' @ show_nat max_rate_limit_per_ip @
           lit '' (got '' @ show_nat (dn_rate_limit_per_ip c) @ lit '')''),
        reject_if (dn_bind c = []) (lit ''dns.bind'') (lit ''bind address list cannot be empty''),
        reject_if (dn_edns_udp_size c < 512 \<or> dn_edns_udp_size c > 4096) (lit ''dns.edns_udp_size'')
          (lit ''edns_udp_size must be between 512 and 4096 bytes (got '' @ show_nat (dn_edns_udp_size c) @ lit '')''),
        reject_if (dn_max_tcp_connections c = 0) (lit ''dns.max_tcp_connections'')
          (lit ''max_tcp_connections must be greater than 0''),
        reject_port_conflict dot doh (lit ''TCP''),
        reject_port_conflict doq doh3 (lit ''UDP''),
        reject_port_conflict port dot (lit ''TCP''),
        reject_port_conflict port doh (lit ''TCP''),
        reject_port_conflict port doq (lit ''UDP''),
        reject_port_conflict port doh3 (lit ''UDP''),
        opt_check validate_tls (dn_tls c),
        validate_cache (dn_cache c),
        validate_dnssec E (dn_dnssec c)])"

definition validate_per_domain :: "nat \<Rightarrow> per_domain_upstream \<Rightarrow> check" where
  "validate_per_domain i r = first_err
     [reject_if (list_all (\<lambda>d. trim d = []) (pd_domains r)) (indexed (lit ''upstream.per_domain'') i (lit ''.domains''))
        (lit ''per-domain rule must list at least one non-empty domain''),
      reject_if (list_all (\<lambda>s. trim s = []) (pd_servers r)) (indexed (lit ''upstream.per_domain'') i (lit ''.servers''))
        (lit ''per-domain rule must list at least one non-empty upstream server'')]"

definition validate_upstream :: "'v config_env \<Rightarrow> upstream_config \<Rightarrow> check" where
  "validate_upstream E c =
     (let probe_domain = trim (uc_probe_domain c)
      in first_err
       [reject_if (uc_servers c = []) (lit ''upstream.servers'') (lit ''servers list cannot be empty''),
        reject_if (uc_timeout_ms c = 0) (lit ''upstream.timeout_ms'') (lit ''timeout_ms must be greater than 0''),
        reject_if (uc_pool_size c = 0) (lit ''upstream.pool_size'') (lit ''pool_size must be greater than 0''),
        reject_if (probe_domain = []) (lit ''upstream.probe_domain'') (lit ''probe_domain cannot be empty''),
        (case ce_name_err E (absolute_name probe_domain) of
           None \<Rightarrow> Inr ()
         | Some e \<Rightarrow> Inl (validation (lit ''upstream.probe_domain'')
             (lit ''probe_domain '' @ quoted probe_domain @ lit '' is not a valid DNS name: '' @ e))),
        check_each validate_per_domain (uc_per_domain c)])"

definition list_url_scheme :: "rstr \<Rightarrow> bool" where
  "list_url_scheme url =
     (let url_lower = to_ascii_lowercase (trim url)
      in prefix (lit ''http://'') url_lower \<or> prefix (lit ''https://'') url_lower \<or> prefix (lit ''file://'') url_lower)"

fun validate_lists :: "nat \<Rightarrow> rstr set \<Rightarrow> filter_list_config list \<Rightarrow> check" where
  "validate_lists i seen [] = Inr ()"
| "validate_lists i seen (l # ls) = first_err
     [reject_if (trim (fl_name l) = []) (indexed (lit ''filtering.lists'') i (lit ''.name'')) (lit ''filter list name cannot be empty''),
      reject_if (fl_name l \<in> seen) (indexed (lit ''filtering.lists'') i (lit ''.name''))
        (lit ''duplicate filter list name '' @ quoted (fl_name l)),
      reject_if (trim (fl_url l) = []) (indexed (lit ''filtering.lists'') i (lit ''.url'')) (lit ''filter list URL cannot be empty''),
      reject_if (\<not> list_url_scheme (fl_url l)) (indexed (lit ''filtering.lists'') i (lit ''.url''))
        (lit ''filter list URL must use http://, https://, or file:// scheme''),
      reject_if (fl_refresh_hours l = Some 0) (indexed (lit ''filtering.lists'') i (lit ''.refresh_hours''))
        (lit ''refresh_hours must be greater than 0 when set (omit it to use filtering.refresh_interval_hours)''),
      validate_lists (Suc i) (insert (fl_name l) seen) ls]"

definition anti_bypass_modes :: "rstr list" where
  "anti_bypass_modes = map lit [''off'', ''block_all'', ''block_except_trusted'']"

definition validate_filtering :: "filtering_config \<Rightarrow> check" where
  "validate_filtering c = first_err
     [reject_if (fc_refresh_interval_hours c = 0) (lit ''filtering.refresh_interval_hours'')
        (lit ''refresh_interval_hours must be greater than 0''),
      reject_if (fc_max_rules c = 0) (lit ''filtering.max_rules'') (lit ''max_rules must be greater than 0''),
      reject_if (fc_max_list_bytes c = 0) (lit ''filtering.max_list_bytes'') (lit ''max_list_bytes must be greater than 0''),
      reject_if (fc_regex_compile_budget_ms c = Some 0) (lit ''filtering.regex_compile_budget_ms'')
        (lit ''regex_compile_budget_ms must be greater than 0 when set''),
      validate_lists 0 {} (fc_lists c),
      reject_if (fc_anti_doh_bypass c \<notin> set anti_bypass_modes) (lit ''filtering.anti_doh_bypass'')
        (lit ''invalid anti_doh_bypass mode '' @ quoted (fc_anti_doh_bypass c) @ lit '', expected '' @
         quoted (lit ''off'') @ lit '', '' @ quoted (lit ''block_all'') @ lit '', or '' @ quoted (lit ''block_except_trusted''))]"

definition validate_acme :: "acme_config \<Rightarrow> check" where
  "validate_acme c =
     (if am_enabled c
      then first_err
        [reject_if (am_domains c = []) (lit ''acme.domains'') (lit ''acme.domains cannot be empty when ACME is enabled''),
         check_each (\<lambda>i d. reject_if (trim d = []) (indexed (lit ''acme.domains'') i []) (lit ''ACME domain cannot be empty''))
           (am_domains c)]
      else Inr ())"

definition validate_privacy :: "privacy_config \<Rightarrow> check" where
  "validate_privacy c = Inr ()"


section \<open>Effective sections and the whole configuration\<close>

definition get_tls_config :: "'v config \<Rightarrow> tls_config option" where
  "get_tls_config cfg = (case dn_tls (cf_dns cfg) of Some t \<Rightarrow> Some t | None \<Rightarrow> cf_tls cfg)"

definition unwrap_or_else :: "'a option \<Rightarrow> 'a \<Rightarrow> 'a" where
  "unwrap_or_else x d = (case x of None \<Rightarrow> d | Some y \<Rightarrow> y)"

definition get_acme_config :: "'v config_env \<Rightarrow> 'v config \<Rightarrow> acme_config option" where
  "get_acme_config E cfg =
     (case cf_acme cfg of
        Some acme \<Rightarrow> Some acme
      | None \<Rightarrow>
          (case Option.bind (cf_web cfg) (ce_into_table E) of
             None \<Rightarrow> None
           | Some web_table \<Rightarrow>
               (let enabled = unwrap_or_else (Option.bind (web_table (lit ''acme_enabled'')) (ce_as_bool E)) False;
                    email = Option.bind (web_table (lit ''acme_email'')) (ce_as_str E);
                    domains = unwrap_or_else (map_option (List.map_filter (ce_as_str E))
                                (Option.bind (web_table (lit ''acme_domains'')) (ce_as_array E))) [];
                    staging = unwrap_or_else (Option.bind (web_table (lit ''acme_staging'')) (ce_as_bool E)) False;
                    cache_dir = Option.bind (web_table (lit ''acme_cache_dir'')) (ce_as_str E)
                in if enabled \<or> domains \<noteq> [] \<or> email \<noteq> None
                   then Some \<lparr>am_enabled = enabled, am_email = email, am_domains = domains, am_staging = staging,
                              am_cache_dir = cache_dir, am_http_port = default_acme_http_port\<rparr>
                   else None)))"

definition effective :: "('v \<Rightarrow> rstr + 'a) \<Rightarrow> 'a \<Rightarrow> 'v option \<Rightarrow> 'a" where
  "effective into d x = (case x of None \<Rightarrow> d | Some v \<Rightarrow> (case into v of Inr c \<Rightarrow> c | Inl e \<Rightarrow> d))"

definition get_web_config :: "'v config_env \<Rightarrow> 'v config \<Rightarrow> web_config" where
  "get_web_config E cfg = effective (ce_into_web E) web_config_default (cf_web cfg)"

definition get_stats_config :: "'v config_env \<Rightarrow> 'v config \<Rightarrow> stats_config" where
  "get_stats_config E cfg = effective (ce_into_stats E) stats_config_default (cf_stats cfg)"

definition get_auth_config :: "'v config_env \<Rightarrow> 'v config \<Rightarrow> auth_config" where
  "get_auth_config E cfg = effective (ce_into_auth E) auth_config_default (cf_auth cfg)"

definition set_web_config :: "'v config_env \<Rightarrow> web_config \<Rightarrow> 'v config \<Rightarrow> 'v config" where
  "set_web_config E web cfg = (case ce_from_web E web of Some v \<Rightarrow> cfg\<lparr>cf_web := Some v\<rparr> | None \<Rightarrow> cfg)"

definition validate_raw :: "rstr \<Rightarrow> ('v \<Rightarrow> rstr + 'a) \<Rightarrow> ('a \<Rightarrow> check) \<Rightarrow> 'v option \<Rightarrow> check" where
  "validate_raw name into chk x =
     opt_check (\<lambda>v. case into v of
         Inl e \<Rightarrow> Inl (validation name (lit ''invalid ['' @ name @ lit ''] section: '' @ e))
       | Inr c \<Rightarrow> chk c) x"

definition validate_table :: "'v config_env \<Rightarrow> rstr \<Rightarrow> 'v option \<Rightarrow> check" where
  "validate_table E name x =
     opt_check (\<lambda>v. reject_if (ce_as_table E v = None) name (lit ''['' @ name @ lit ''] must be a table'')) x"

definition validate_config :: "'v config_env \<Rightarrow> 'v config \<Rightarrow> check" where
  "validate_config E cfg = first_err
     [reject_if (cf_config_version cfg \<noteq> 1) (lit ''config_version'')
        (lit ''unsupported config_version '' @ show_nat (cf_config_version cfg) @ lit '', expected 1''),
      validate_server E (cf_server cfg),
      validate_dns E (cf_dns cfg),
      validate_upstream E (cf_upstream cfg),
      validate_filtering (cf_filtering cfg),
      validate_privacy (cf_privacy cfg),
      opt_check validate_tls (cf_tls cfg),
      opt_check validate_acme (get_acme_config E cfg),
      validate_raw (lit ''web'') (ce_into_web E) validate_web (cf_web cfg),
      validate_raw (lit ''auth'') (ce_into_auth E) validate_auth (cf_auth cfg),
      validate_raw (lit ''stats'') (ce_into_stats E) validate_stats (cf_stats cfg),
      validate_table E (lit ''ha'') (cf_ha cfg),
      validate_table E (lit ''clients'') (cf_clients cfg),
      validate_table E (lit ''rewrites'') (cf_rewrites cfg),
      validate_table E (lit ''integrations'') (cf_integrations cfg)]"

definition from_toml_str :: "'v config_env \<Rightarrow> rstr \<Rightarrow> config_error + 'v config" where
  "from_toml_str E s =
     (case ce_from_str E s of
        Inl e \<Rightarrow> Inl (ParseError e)
      | Inr cfg \<Rightarrow> (case validate_config E cfg of Inl e \<Rightarrow> Inl e | Inr u \<Rightarrow> Inr cfg))"


section \<open>Exposure warnings\<close>

definition is_loopback :: "ip_addr \<Rightarrow> bool" where
  "is_loopback ip = (case ip of V4 w \<Rightarrow> octets w ! 0 = 127 | V6 w \<Rightarrow> w = 1)"

definition is_unspecified :: "ip_addr \<Rightarrow> bool" where
  "is_unspecified ip = (case ip of V4 w \<Rightarrow> w = 0 | V6 w \<Rightarrow> w = 0)"

definition show_socket_addr :: "ip_addr \<Rightarrow> nat \<Rightarrow> rstr" where
  "show_socket_addr ip port =
     (case ip of V4 w \<Rightarrow> show_ip ip @ lit '':'' @ show_nat port
      | V6 w \<Rightarrow> lit ''['' @ show_ip ip @ lit '']:'' @ show_nat port)"

text \<open>\<^verbatim>\<open>str::split_once\<close> with a string separator: the first occurrence\<close>

fun split_once_str :: "rstr \<Rightarrow> rstr \<Rightarrow> (rstr \<times> rstr) option" where
  "split_once_str sep [] = (if sep = [] then Some ([], []) else None)"
| "split_once_str sep (c # s) =
     (case strip_prefix sep (c # s) of
        Some r \<Rightarrow> Some ([], r)
      | None \<Rightarrow> map_option (\<lambda>(a, b). (c # a, b)) (split_once_str sep s))"

definition https_url :: "rstr \<Rightarrow> bool" where
  "https_url url =
     (case split_once_str (lit ''://'') url of
        None \<Rightarrow> False
      | Some (scheme, rest) \<Rightarrow> rest \<noteq> [] \<and> eq_ignore_ascii_case scheme (lit ''https''))"

definition web_tls_declared :: "'v config_env \<Rightarrow> 'v config \<Rightarrow> bool" where
  "web_tls_declared E cfg =
     (case Option.bind (cf_web cfg) (ce_as_table E) of
        None \<Rightarrow> False
      | Some table \<Rightarrow>
          (case Option.bind (table (lit ''public_url'')) (ce_as_str E) of
             Some url \<Rightarrow> https_url url
           | None \<Rightarrow> unwrap_or_else (Option.bind (table (lit ''tls_terminated_by_proxy'')) (ce_as_bool E)) False))"

definition web_exposure_warning :: "'v config_env \<Rightarrow> 'v config \<Rightarrow> rstr option" where
  "web_exposure_warning E cfg =
     (let web = get_web_config E cfg
      in if \<not> wc_enabled web \<or> is_loopback (wc_bind web) \<or> web_tls_declared E cfg then None
         else Some (lit ''admin web UI is reachable at '' @ show_socket_addr (wc_bind web) (wc_port web) @
           lit '' over plain HTTP; credentials, session cookies and the first-boot setup token cross the network in cleartext. Set web.bind = '' @
           [34] @ lit ''127.0.0.1'' @ [34] @
           lit '' and use an SSH tunnel or a TLS reverse proxy, or restrict TCP '' @ show_nat (wc_port web) @
           lit '' to trusted clients with a host firewall''))"

definition dns_listeners_exposed :: "'v config \<Rightarrow> bool" where
  "dns_listeners_exposed cfg =
     (let c = cf_dns cfg
      in list_ex is_unspecified (dn_bind c) \<and>
         list_ex (\<lambda>port. port \<noteq> 0) [dn_port c, dn_dot_port c, dn_doh_port c, dn_doq_port c, dn_doh3_port c])"

definition dns_exposure_warning :: "'v config \<Rightarrow> rstr option" where
  "dns_exposure_warning cfg =
     (if \<not> dns_listeners_exposed cfg then None
      else Some (lit ''DNS listeners bind to '' @ join (lit '', '') (map show_ip (dn_bind (cf_dns cfg))) @
        lit '' and accept queries from any source; sito has no DNS client allow-list and rate limiting is not an access control. Restrict the DNS ports to your LAN with a host firewall or set dns.bind to specific LAN addresses''))"

definition option_list :: "'a option \<Rightarrow> 'a list" where
  "option_list x = (case x of None \<Rightarrow> [] | Some y \<Rightarrow> [y])"

definition network_exposure_warnings :: "'v config_env \<Rightarrow> 'v config \<Rightarrow> rstr list" where
  "network_exposure_warnings E cfg = option_list (web_exposure_warning E cfg) @ option_list (dns_exposure_warning cfg)"


section \<open>Text form of the blocking mode\<close>

text \<open>The two shapes the serializer emits and the visitor accepts; a map value that is not a
  string is \<open>None\<close>.  Deserializer errors are \<open>None\<close>.\<close>

datatype mode_text = ModeStr rstr | ModeMap "(rstr \<times> rstr option) list"

fun serialize_mode :: "blocking_mode \<Rightarrow> mode_text" where
  "serialize_mode ZeroIp = ModeStr (lit ''zero_ip'')"
| "serialize_mode Nxdomain = ModeStr (lit ''nxdomain'')"
| "serialize_mode Refused = ModeStr (lit ''refused'')"
| "serialize_mode NullRdata = ModeStr (lit ''null_rdata'')"
| "serialize_mode (CustomIp ip) = ModeMap [(lit ''custom_ip'', Some (show_ip ip))]"

definition visit_str :: "rstr \<Rightarrow> blocking_mode option" where
  "visit_str v =
     (if v = lit ''zero_ip'' then Some ZeroIp
      else if v = lit ''nxdomain'' then Some Nxdomain
      else if v = lit ''refused'' then Some Refused
      else if v = lit ''null_rdata'' then Some NullRdata
      else case strip_prefix (lit ''custom_ip:'') v of
          Some ip_str \<Rightarrow> map_option CustomIp (parse_ip ip_str)
        | None \<Rightarrow> map_option CustomIp (parse_ip v))"

fun visit_map :: "(rstr \<times> rstr option) list \<Rightarrow> blocking_mode option" where
  "visit_map [] = None"
| "visit_map ((k, v) # m) =
     (if k = lit ''custom_ip'' then map_option CustomIp (Option.bind v parse_ip) else visit_map m)"

fun deserialize_mode :: "mode_text \<Rightarrow> blocking_mode option" where
  "deserialize_mode (ModeStr v) = visit_str v"
| "deserialize_mode (ModeMap m) = visit_map m"

end
