(* ===== verification/Config_Correct.thy ===== *)
theory Config_Correct
  imports Config_Validate Ipv6_Text Domain_Names
begin

text \<open>
  What a validated configuration guarantees.  \<open>config_ok\<close> states the constraints
  declaratively, section by section, and is proved to be exactly what \<^verbatim>\<open>Config::validate\<close>
  accepts; the lemmas about single sections are collected in \<open>config_iffs\<close>.
\<close>

named_theorems config_iffs \<open>when a check passes\<close>

section \<open>Checks\<close>

lemma first_err_ok: "first_err cs = Inr () \<longleftrightarrow> list_all (\<lambda>c. c = Inr ()) cs"
  by (induction cs rule: first_err.induct) auto

lemma first_err_iffs [config_iffs]:
  "first_err [] = Inr ()" "first_err (c # cs) = Inr () \<longleftrightarrow> c = Inr () \<and> first_err cs = Inr ()"
  by (simp_all add: first_err_ok)

lemma first_err_member: "first_err cs = Inl e \<Longrightarrow> Inl e \<in> set cs"
  by (induction cs rule: first_err.induct) auto

lemma reject_if_iff [config_iffs]: "reject_if b f m = Inr () \<longleftrightarrow> \<not> b"
  by (simp add: reject_if_def)

lemma opt_check_iff [config_iffs]: "opt_check f x = Inr () \<longleftrightarrow> pred_option (\<lambda>y. f y = Inr ()) x"
  by (cases x) (simp_all add: opt_check_def)

lemma check_each_iff:
  assumes "\<And>i x. f i x = Inr () \<longleftrightarrow> P x"
  shows "check_each f xs = Inr () \<longleftrightarrow> (\<forall>x\<in>set xs. P x)"
proof -
  have "(\<forall>c\<in>set (map2 f ns xs). c = Inr ()) \<longleftrightarrow> (\<forall>x\<in>set xs. P x)" if "length ns = length xs" for ns
    using that assms by (induction ns xs rule: list_induct2) auto
  from this [of "[0..<length xs]"] show ?thesis by (simp add: check_each_def first_err_ok list_all_iff)
qed


section \<open>The sections\<close>

definition server_ok :: "'v config_env \<Rightarrow> server_config \<Rightarrow> bool" where
  "server_ok E c \<longleftrightarrow> sv_role c \<in> {lit ''master'', lit ''slave''} \<and>
     ce_lower E (sv_log_level c) \<in> lit ` {''trace'', ''debug'', ''info'', ''warn'', ''error''} \<and>
     ce_lower E (sv_log_format c) \<in> lit ` {''json'', ''pretty''}"

definition anchor_ok :: "'v config_env \<Rightarrow> rstr \<Rightarrow> bool" where
  "anchor_ok E anchor \<longleftrightarrow>
     (\<exists>zone alg key bytes a.
        (split_on 58 anchor = [zone, alg, key] \<or> split_on 58 anchor = [zone, key] \<and> alg = lit ''13'') \<and>
        trim zone \<noteq> [] \<and> parse_uint 256 (trim alg) = Some a \<and> a \<in> {8, 10, 13, 14, 15} \<and>
        ce_base64 E (trim key) = Inr bytes \<and> bytes \<noteq> [] \<and> ce_name_err E (absolute_name (trim zone)) = None)"

definition sni_ok :: "sni_cert_config \<Rightarrow> bool" where
  "sni_ok s \<longleftrightarrow> trim (sn_domain s) \<noteq> [] \<and> sn_cert s \<noteq> [] \<and> sn_key s \<noteq> []"

definition tls_ok :: "tls_config \<Rightarrow> bool" where
  "tls_ok c \<longleftrightarrow> (tl_cert c = None) = (tl_key c = None) \<and> tl_cert c \<noteq> Some [] \<and> tl_key c \<noteq> Some [] \<and>
     (\<forall>s\<in>set (tl_sni_certs c). sni_ok s)"

text \<open>The ports that are bound on a transport: zero disables a listener.\<close>

definition tcp_ports :: "dns_config \<Rightarrow> nat list" where
  "tcp_ports c = filter (\<lambda>p. p \<noteq> 0) [dn_port c, dn_dot_port c, dn_doh_port c]"

definition udp_ports :: "dns_config \<Rightarrow> nat list" where
  "udp_ports c = filter (\<lambda>p. p \<noteq> 0) [dn_port c, dn_doq_port c, dn_doh3_port c]"

definition cache_ok :: "cache_config \<Rightarrow> bool" where
  "cache_ok c \<longleftrightarrow> ch_size_mb c \<noteq> 0 \<and> ch_min_ttl c \<le> min (ch_max_ttl c) (ch_negative_ttl_max c)"

definition dns_ok :: "'v config_env \<Rightarrow> dns_config \<Rightarrow> bool" where
  "dns_ok E c \<longleftrightarrow> dn_port c \<noteq> 0 \<and> dn_rate_limit_per_ip c \<le> 1000000 \<and> dn_bind c \<noteq> [] \<and>
     dn_edns_udp_size c \<in> {512..4096} \<and> dn_max_tcp_connections c \<noteq> 0 \<and>
     distinct (tcp_ports c) \<and> distinct (udp_ports c) \<and> pred_option tls_ok (dn_tls c) \<and> cache_ok (dn_cache c) \<and>
     to_ascii_lowercase (dc_mode (dn_dnssec c)) \<in> set dnssec_modes \<and>
     (\<forall>a\<in>set (dc_trust_anchors (dn_dnssec c)). anchor_ok E a)"

definition upstream_ok :: "'v config_env \<Rightarrow> upstream_config \<Rightarrow> bool" where
  "upstream_ok E c \<longleftrightarrow> uc_servers c \<noteq> [] \<and> uc_timeout_ms c \<noteq> 0 \<and> uc_pool_size c \<noteq> 0 \<and>
     trim (uc_probe_domain c) \<noteq> [] \<and> ce_name_err E (absolute_name (trim (uc_probe_domain c))) = None \<and>
     (\<forall>r\<in>set (uc_per_domain c). (\<exists>d\<in>set (pd_domains r). trim d \<noteq> []) \<and> (\<exists>s\<in>set (pd_servers r). trim s \<noteq> []))"

definition lists_ok :: "filter_list_config list \<Rightarrow> bool" where
  "lists_ok ls \<longleftrightarrow> distinct (map fl_name ls) \<and>
     (\<forall>l\<in>set ls. trim (fl_name l) \<noteq> [] \<and> trim (fl_url l) \<noteq> [] \<and> list_url_scheme (fl_url l) \<and> fl_refresh_hours l \<noteq> Some 0)"

definition filtering_ok :: "filtering_config \<Rightarrow> bool" where
  "filtering_ok c \<longleftrightarrow> fc_refresh_interval_hours c \<noteq> 0 \<and> fc_max_rules c \<noteq> 0 \<and> fc_max_list_bytes c \<noteq> 0 \<and>
     fc_regex_compile_budget_ms c \<noteq> Some 0 \<and> lists_ok (fc_lists c) \<and> fc_anti_doh_bypass c \<in> set anti_bypass_modes"

definition acme_ok :: "acme_config \<Rightarrow> bool" where
  "acme_ok c \<longleftrightarrow> am_enabled c \<longrightarrow> am_domains c \<noteq> [] \<and> (\<forall>d\<in>set (am_domains c). trim d \<noteq> [])"

definition raw_ok :: "('v \<Rightarrow> rstr + 'a) \<Rightarrow> ('a \<Rightarrow> bool) \<Rightarrow> 'v option \<Rightarrow> bool" where
  "raw_ok into P x \<longleftrightarrow> pred_option (\<lambda>v. \<exists>c. into v = Inr c \<and> P c) x"

definition config_ok :: "'v config_env \<Rightarrow> 'v config \<Rightarrow> bool" where
  "config_ok E cfg \<longleftrightarrow> cf_config_version cfg = 1 \<and> server_ok E (cf_server cfg) \<and> dns_ok E (cf_dns cfg) \<and>
     upstream_ok E (cf_upstream cfg) \<and> filtering_ok (cf_filtering cfg) \<and> pred_option tls_ok (cf_tls cfg) \<and>
     pred_option acme_ok (get_acme_config E cfg) \<and>
     raw_ok (ce_into_web E) (\<lambda>w. wc_port w \<noteq> 0) (cf_web cfg) \<and>
     raw_ok (ce_into_auth E) (\<lambda>a. ac_session_ttl_hours a \<noteq> 0) (cf_auth cfg) \<and>
     raw_ok (ce_into_stats E) (\<lambda>s. sc_retention_days s \<noteq> 0) (cf_stats cfg) \<and>
     (\<forall>x\<in>{cf_ha cfg, cf_clients cfg, cf_rewrites cfg, cf_integrations cfg}. pred_option (\<lambda>v. ce_as_table E v \<noteq> None) x)"

lemma validate_server_iff [config_iffs]: "validate_server E c = Inr () \<longleftrightarrow> server_ok E c"
  by (simp add: validate_server_def server_ok_def config_iffs Let_def)

lemma trim_13: "trim (lit ''13'') = lit ''13''"
  by code_simp

lemma validate_trust_anchor_iff [config_iffs]: "validate_trust_anchor E a = Inr () \<longleftrightarrow> anchor_ok E a"
proof (cases "\<exists>z g k. split_on 58 a = [z, g, k]")
  case True
  then show ?thesis
    by (auto simp: validate_trust_anchor_def anchor_ok_def Let_def split: if_splits option.splits sum.splits)
next
  case False
  show ?thesis
  proof (cases "\<exists>z k. split_on 58 a = [z, k]")
    case True
    then show ?thesis
      by (auto simp: validate_trust_anchor_def anchor_ok_def Let_def trim_13 split: if_splits option.splits sum.splits)
  next
    case no: False
    with False show ?thesis
      by (auto simp: validate_trust_anchor_def anchor_ok_def Let_def split: list.splits)
  qed
qed

lemma validate_tls_iff [config_iffs]: "validate_tls c = Inr () \<longleftrightarrow> tls_ok c"
proof -
  have "validate_sni i s = Inr () \<longleftrightarrow> sni_ok s" for i s
    by (simp add: validate_sni_def sni_ok_def config_iffs)
  from check_each_iff [of validate_sni sni_ok, OF this] show ?thesis
    by (cases "tl_cert c"; cases "tl_key c") (auto simp: validate_tls_def tls_ok_def config_iffs)
qed

lemma validate_cache_iff [config_iffs]: "validate_cache c = Inr () \<longleftrightarrow> cache_ok c"
  by (auto simp: validate_cache_def cache_ok_def config_iffs)

lemma validate_dnssec_iff [config_iffs]:
  "validate_dnssec E c = Inr () \<longleftrightarrow>
     to_ascii_lowercase (dc_mode c) \<in> set dnssec_modes \<and> (\<forall>a\<in>set (dc_trust_anchors c). anchor_ok E a)"
  by (simp add: validate_dnssec_def config_iffs first_err_ok [of "map f xs" for f xs] list_all_iff)

lemma validate_dns_iff [config_iffs]: "validate_dns E c = Inr () \<longleftrightarrow> dns_ok E c"
  by (auto simp: validate_dns_def dns_ok_def reject_port_conflict_def tcp_ports_def udp_ports_def
      max_rate_limit_per_ip_def config_iffs Let_def)

lemma validate_upstream_iff [config_iffs]: "validate_upstream E c = Inr () \<longleftrightarrow> upstream_ok E c"
proof -
  have "validate_per_domain i r = Inr () \<longleftrightarrow>
      (\<exists>d\<in>set (pd_domains r). trim d \<noteq> []) \<and> (\<exists>s\<in>set (pd_servers r). trim s \<noteq> [])" for i r
    by (auto simp: validate_per_domain_def config_iffs list_all_iff)
  from check_each_iff [of validate_per_domain, OF this] show ?thesis
    by (auto simp: validate_upstream_def upstream_ok_def config_iffs Let_def split: option.splits)
qed

lemma validate_lists_iff:
  "validate_lists i seen ls = Inr () \<longleftrightarrow> lists_ok ls \<and> set (map fl_name ls) \<inter> seen = {}"
  by (induction ls arbitrary: i seen) (auto simp: lists_ok_def config_iffs)

lemma validate_filtering_iff [config_iffs]: "validate_filtering c = Inr () \<longleftrightarrow> filtering_ok c"
  by (auto simp: validate_filtering_def filtering_ok_def validate_lists_iff config_iffs)

lemma validate_acme_iff [config_iffs]: "validate_acme c = Inr () \<longleftrightarrow> acme_ok c"
proof -
  have "check_each (\<lambda>i d. reject_if (trim d = []) (indexed (lit ''acme.domains'') i []) (lit ''ACME domain cannot be empty'')) ds
      = Inr () \<longleftrightarrow> (\<forall>d\<in>set ds. trim d \<noteq> [])" for ds
    by (rule check_each_iff) (simp add: config_iffs)
  then show ?thesis by (simp add: validate_acme_def acme_ok_def config_iffs)
qed

lemma validate_raw_iff [config_iffs]:
  "validate_raw name into chk x = Inr () \<longleftrightarrow> raw_ok into (\<lambda>c. chk c = Inr ()) x"
  by (cases x) (auto simp: validate_raw_def raw_ok_def config_iffs split: sum.splits)

lemma validate_table_iff [config_iffs]:
  "validate_table E name x = Inr () \<longleftrightarrow> pred_option (\<lambda>v. ce_as_table E v \<noteq> None) x"
  by (simp add: validate_table_def config_iffs)

lemma validate_leaf_iffs [config_iffs]:
  "validate_web w = Inr () \<longleftrightarrow> wc_port w \<noteq> 0" "validate_auth a = Inr () \<longleftrightarrow> ac_session_ttl_hours a \<noteq> 0"
  "validate_stats s = Inr () \<longleftrightarrow> sc_retention_days s \<noteq> 0" "validate_privacy p = Inr ()"
  by (simp_all add: validate_web_def validate_auth_def validate_stats_def validate_privacy_def config_iffs)

lemma validate_config_ok: "validate_config E cfg = Inr () \<longleftrightarrow> config_ok E cfg"
  by (simp add: validate_config_def config_ok_def config_iffs conj_ac)


section \<open>Errors name a field\<close>

definition located :: "check \<Rightarrow> bool" where
  "located c \<longleftrightarrow> (case c of Inl e \<Rightarrow> is_Validation e | Inr u \<Rightarrow> True)"

named_theorems located_intros \<open>checks that fail with a validation error only\<close>

lemma located_first_err [located_intros]: "list_all located cs \<Longrightarrow> located (first_err cs)"
  by (induction cs rule: first_err.induct) (auto simp: located_def)

lemma located_all [located_intros]: "list_all located []" "located c \<Longrightarrow> list_all located cs \<Longrightarrow> list_all located (c # cs)"
  "(\<And>x. located (f x)) \<Longrightarrow> list_all located (map f xs)" "(\<And>i x. located (g i x)) \<Longrightarrow> located (check_each g xs)"
proof -
  assume "\<And>i x. located (g i x)"
  then have "list_all located (map2 g [0..<length xs] xs)" by (auto simp: list_all_iff)
  then show "located (check_each g xs)" unfolding check_each_def by (rule located_first_err)
qed (simp_all add: list_all_iff)

lemma located_reject [located_intros]: "located (reject_if b f m)"
  by (simp add: located_def reject_if_def validation_def)

lemma located_opt [located_intros]: "(\<And>x. located (f x)) \<Longrightarrow> located (opt_check f x)"
  by (cases x) (simp_all add: opt_check_def located_def)

lemma located_leaf [located_intros]: "located (Inr u)" "located (Inl (validation f m))"
  by (simp_all add: located_def validation_def)

lemma located_splits:
  "(\<And>x y z. located (f x y z)) \<Longrightarrow> (\<And>x y. located (g x y)) \<Longrightarrow> located h \<Longrightarrow>
     located (case xs of [x, y, z] \<Rightarrow> f x y z | [x, y] \<Rightarrow> g x y | _ \<Rightarrow> h)"
  "located p \<Longrightarrow> located q \<Longrightarrow> located (if b then p else q)"
  "located p \<Longrightarrow> (\<And>x. located (k x)) \<Longrightarrow> located (case ov of None \<Rightarrow> p | Some x \<Rightarrow> k x)"
  "(\<And>x. located (l x)) \<Longrightarrow> (\<And>x. located (r x)) \<Longrightarrow> located (case s of Inl x \<Rightarrow> l x | Inr x \<Rightarrow> r x)"
  "located (Inr u)" "located (Inl (validation fld m))"
  by (simp_all add: located_leaf split: list.split option.split sum.split)

lemma located_anchor [located_intros]: "located (validate_trust_anchor E a)"
  unfolding validate_trust_anchor_def Let_def by (intro located_splits)

lemma located_tls [located_intros]: "located (validate_tls c)"
  unfolding validate_tls_def validate_sni_def
  by (intro located_intros) (cases "tl_cert c"; cases "tl_key c"; auto intro!: located_intros)

lemma located_lists [located_intros]: "located (validate_lists i seen ls)"
  by (induction ls arbitrary: i seen) (auto intro!: located_intros)

lemma located_upstream [located_intros]: "located (validate_upstream E c)"
  unfolding validate_upstream_def validate_per_domain_def Let_def
  by (intro located_intros) (auto split: option.splits intro!: located_intros)

lemma located_raw [located_intros]: "(\<And>x. located (chk x)) \<Longrightarrow> located (validate_raw name into chk x)"
  unfolding validate_raw_def by (intro located_intros) (auto split: sum.splits intro!: located_intros)

lemma located_acme [located_intros]: "located (validate_acme c)"
  unfolding validate_acme_def by (auto intro!: located_intros)

lemma located_config: "located (validate_config E cfg)"
  unfolding validate_config_def validate_server_def validate_dns_def validate_filtering_def validate_privacy_def
    validate_web_def validate_auth_def validate_stats_def validate_table_def validate_cache_def validate_dnssec_def
    reject_port_conflict_def Let_def
  by (intro located_intros)


section \<open>The defaults\<close>

lemma default_config_ok:
  assumes "ce_name_err E (lit ''example.com.'') = None"
    and "ce_lower E (lit ''info'') = lit ''info''" and "ce_lower E (lit ''json'') = lit ''json''"
  shows "config_ok E config_default"
proof -
  have probe: "trim (lit ''example.com'') = lit ''example.com''" "absolute_name (lit ''example.com'') = lit ''example.com.''"
    by code_simp+
  have modes: "to_ascii_lowercase (lit ''validate'') \<in> set dnssec_modes" "lit ''off'' \<in> set anti_bypass_modes"
    by code_simp+
  have ports: "distinct (tcp_ports dns_config_default)" "distinct (udp_ports dns_config_default)" by code_simp+
  have "server_ok E server_config_default" "dns_ok E dns_config_default" "upstream_ok E upstream_config_default"
    "filtering_ok filtering_config_default"
    using assms probe modes ports
    by (simp_all add: server_ok_def server_config_default_def dns_ok_def upstream_ok_def upstream_config_default_def
        filtering_ok_def filtering_config_default_def lists_ok_def)
      (simp_all add: dns_config_default_def cache_ok_def cache_config_default_def dnssec_config_default_def, simp add: lit_simps)
  then show ?thesis by (simp add: config_ok_def config_default_def get_acme_config_def raw_ok_def)
qed

text \<open>A concrete environment: ASCII case folding, every name accepted, no tables.\<close>

definition plain_env :: "rstr config_env" where
  "plain_env = \<lparr>ce_lower = to_ascii_lowercase, ce_name_err = (\<lambda>_. None), ce_base64 = Inr, ce_as_table = (\<lambda>_. None),
     ce_into_table = (\<lambda>_. None), ce_as_bool = (\<lambda>_. None), ce_as_str = Some, ce_as_array = (\<lambda>_. None),
     ce_into_web = Inl, ce_into_auth = Inl, ce_into_stats = Inl, ce_from_web = (\<lambda>_. None), ce_from_str = Inl\<rparr>"

lemma plain_env_default:
  "ce_name_err plain_env (lit ''example.com.'') = None"
  "ce_lower plain_env (lit ''info'') = lit ''info''" "ce_lower plain_env (lit ''json'') = lit ''json''"
  by (simp_all add: plain_env_def) code_simp+


section \<open>Negative trust anchors and the blocking mode\<close>

lemma nta_labels: "d = a \<or> suffix (46 # a) d \<longleftrightarrow> suffix (split_on 46 a) (split_on 46 d)"
  unfolding suffix_split_iff by (auto simp: suffix_def)

lemma visit_str_ip: "parse_ip v = Some ip \<Longrightarrow> \<not> prefix (lit ''custom_ip:'') v \<Longrightarrow> visit_str v = Some (CustomIp ip)"
proof -
  assume v: "parse_ip v = Some ip" "\<not> prefix (lit ''custom_ip:'') v"
  have "list_all (\<lambda>s. parse_ip (lit s) = None) [''zero_ip'', ''nxdomain'', ''refused'', ''null_rdata'']" by code_simp
  with v have "v \<noteq> lit ''zero_ip''" "v \<noteq> lit ''nxdomain''" "v \<noteq> lit ''refused''" "v \<noteq> lit ''null_rdata''" by auto
  with v show ?thesis by (simp add: visit_str_def strip_prefix_def)
qed

lemma show_ip_no_mode: "\<not> prefix (lit ''custom_ip:'') (show_ip ip)"
proof
  assume "prefix (lit ''custom_ip:'') (show_ip ip)"
  then have "117 \<in> set (show_ip ip)" by (auto simp: prefix_def lit_simps)
  with show_ip_chars [of ip] show False by (auto simp: ip_char_def)
qed


section \<open>Properties\<close>

text \<open>C28: \<^verbatim>\<open>Config::validate\<close> accepts exactly the configurations that satisfy the
  documented constraints: nonzero sizes and limits, TTL bounds in order, pairwise distinct ports
  per transport, certificate and key together, parsable trust anchors, distinct list names with
  supported URLs, at least one domain and server per routing rule, well-typed raw sections.\<close>

theorem config_valid_iff: "validate_config E cfg = Inr () \<longleftrightarrow> config_ok E cfg"
  by (rule validate_config_ok)

text \<open>Loading a configuration text fails with a parse error exactly when the
  TOML parser fails, with a validation error that names a field exactly when a parsed
  configuration violates a constraint, and otherwise returns the parsed configuration unchanged.\<close>

lemma config_load_errors:
  "case from_toml_str E s of
     Inl (ParseError m) \<Rightarrow> ce_from_str E s = Inl m
   | Inl (Validation f m) \<Rightarrow> (\<exists>cfg. ce_from_str E s = Inr cfg \<and> \<not> config_ok E cfg)
   | Inl (IoError m) \<Rightarrow> False
   | Inr cfg \<Rightarrow> ce_from_str E s = Inr cfg \<and> config_ok E cfg"
proof (cases "ce_from_str E s")
  case (Inr cfg)
  then show ?thesis
    using validate_config_ok [of E cfg] located_config [of E cfg]
    by (auto simp: from_toml_str_def located_def split: sum.splits config_error.splits)
qed (simp add: from_toml_str_def)

text \<open>The default configuration passes its own validation whenever the DNS
  library accepts the name example.com and lower-casing leaves lower-case ASCII words alone.\<close>

lemma default_config_valid:
  assumes "ce_name_err E (lit ''example.com.'') = None"
    and "ce_lower E (lit ''info'') = lit ''info''" and "ce_lower E (lit ''json'') = lit ''json''"
  shows "validate_config E config_default = Inr ()"
  using assms by (simp add: validate_config_ok default_config_ok)

lemma default_config_valid_witness: "validate_config plain_env config_default = Inr ()"
  by (rule default_config_valid [OF plain_env_default])

text \<open>On a validated configuration there is no exposure warning exactly when no
  DNS listener binds a wildcard address and the admin interface is off, on loopback, or declared
  to be served over HTTPS.\<close>

lemma validated_exposure:
  assumes "validate_config E cfg = Inr ()"
  shows "network_exposure_warnings E cfg = [] \<longleftrightarrow>
    (\<forall>ip\<in>set (dn_bind (cf_dns cfg)). \<not> is_unspecified ip) \<and>
    (wc_enabled (get_web_config E cfg) \<longrightarrow> is_loopback (wc_bind (get_web_config E cfg)) \<or> web_tls_declared E cfg)"
  using assms unfolding validate_config_ok
  by (auto simp: network_exposure_warnings_def web_exposure_warning_def dns_exposure_warning_def
      dns_listeners_exposed_def config_ok_def dns_ok_def option_list_def Let_def list_ex_iff split: if_splits)

lemma validated_exposure_witness:
  "validate_config plain_env config_default = Inr () \<and> network_exposure_warnings plain_env config_default \<noteq> []"
proof -
  have ok: "validate_config plain_env config_default = Inr ()"
    by (simp add: validate_config_ok default_config_ok plain_env_default)
  have "V4 0 \<in> set (dn_bind (cf_dns config_default))" "is_unspecified (V4 0)" by code_simp+
  with validated_exposure [OF ok] ok show ?thesis by blast
qed

text \<open>Every blocking mode is read back from its serialized form, and a custom
  address is also read from the two string forms.\<close>

lemma blocking_mode_roundtrip:
  "deserialize_mode (serialize_mode m) = Some m \<and>
   visit_str (lit ''custom_ip:'' @ show_ip ip) = Some (CustomIp ip) \<and> visit_str (show_ip ip) = Some (CustomIp ip)"
proof -
  have "visit_str (lit ''custom_ip:'' @ show_ip ip) = Some (CustomIp ip)"
    by (simp add: visit_str_def strip_prefix_def parse_ip_show) (simp add: lit_simps)
  moreover have "deserialize_mode (serialize_mode m) = Some m"
    by (cases m) (simp_all add: visit_str_def parse_ip_show lit_simps)
  ultimately show ?thesis using visit_str_ip [OF parse_ip_show show_ip_no_mode] by simp
qed

text \<open>A negative trust anchor covers exactly the names whose trailing labels are
  the labels of the anchor, after trailing dots are removed and case is folded.\<close>

lemma nta_label_suffix:
  "is_nta E c domain \<longleftrightarrow>
     (\<exists>a. a \<in> set (dc_ntp c @ dc_nta c) \<and>
        suffix (split_on 46 (ce_lower E (trim_end_matches 46 a))) (split_on 46 (ce_lower E (trim_end_matches 46 domain))))"
  by (auto simp: is_nta_def list_ex_iff Let_def nta_labels [symmetric] lit_simps)

end
