(* ===== verification/Lifecycle_Correct.thy ===== *)
theory Lifecycle_Correct
  imports Filter_Lifecycle Filter_Correct Config_Correct
begin

text \<open>
  Correctness of the engine lifecycle.  \<open>reload_internal_cases\<close> lists the outcomes of a
  reload; the step relation \<open>engine_step\<close> interleaves reloads, configuration changes, partial
  refreshes and group changes in any order (the reload lock serializes them), and the invariant is
  proved by rule induction over the reachable states.
\<close>

section \<open>What compilation returns\<close>

lemma compile_inner_shape:
  "compile_inner M rs budget t = Some (Inr s) \<Longrightarrow> \<not> fs_unavailable s \<and> fs_rule_count s = length (fs_rules s)"
proof -
  have "pred_option (\<lambda>r. \<forall>s. r = Inr s \<longrightarrow> \<not> fs_unavailable s \<and> fs_rule_count s = length (fs_rules s)) (compile_inner M rs budget t)"
    unfolding compile_inner_def Let_def by (simp add: pred_option_bind split: prod.split sum.split)
  then show "compile_inner M rs budget t = Some (Inr s) \<Longrightarrow> ?thesis" by simp
qed

lemma merge_loop_distinct:
  "distinct (map fst (fst acc)) \<Longrightarrow> distinct (map fst (fst (merge_loop L cs acc)))"
  by (induction L cs acc rule: merge_loop.induct) (auto simp: Let_def distinct_update)

lemma distinct_filter_keys: "distinct (map fst m) \<Longrightarrow> distinct (map fst (filter P m))"
  by (simp add: distinct_map_filter)

lemma reload_task_result:
  assumes "reload_task L clock config base contents = Some (Inr (s, n, m, rejected))"
  shows "n = fs_rule_count s" and "\<not> fs_unavailable s"
    and "(m, rejected) = merge_loop L contents
           (filter (\<lambda>(k, _). k \<in> set (map fl_name (filter fl_enabled (fc_lists config)))) base, [])"
    and "compile_with_budget (lb_matchers L) (all_rules m (custom_rules_parsed L (fc_custom_rules config)))
           (budget_of (fc_regex_compile_budget_ms config) clock) = Some (Inr s)"
    and "length (all_rules m (custom_rules_parsed L (fc_custom_rules config))) \<le> fc_max_rules config"
proof -
  obtain m' r' where ml: "merge_loop L contents
      (filter (\<lambda>(k, _). k \<in> set (map fl_name (filter fl_enabled (fc_lists config)))) base, []) = (m', r')" by fastforce
  let ?custom = "custom_rules_parsed L (fc_custom_rules config)"
  from assms ml have lim: "regex_load_exceeds_limits ?custom = None"
    "\<not> sum_list (map (\<lambda>(_, rs). length rs) m') + length ?custom > fc_max_rules config"
    by (auto simp: reload_task_def Let_def split: option.splits if_splits)
  with assms ml obtain z where z: "compile_with_budget (lb_matchers L) (all_rules m' ?custom)
      (budget_of (fc_regex_compile_budget_ms config) clock) = Some z"
    "(case z of Inl x \<Rightarrow> Inl (CompileBudgetExceeded (ex_elapsed_ms x) (ex_limit_ms x))
      | Inr x \<Rightarrow> Inr (x, fs_rule_count x, m', r')) = Inr (s, n, m, rejected)"
    by (auto simp: reload_task_def Let_def)
  then have c: "compile_with_budget (lb_matchers L) (all_rules m' ?custom)
      (budget_of (fc_regex_compile_budget_ms config) clock) = Some (Inr s)" and
    eq: "n = fs_rule_count s" "m = m'" "rejected = r'" by (cases z; simp)+
  show "n = fs_rule_count s" using eq by simp
  show "\<not> fs_unavailable s" using c compile_inner_shape unfolding compile_with_budget_def by blast
  show "(m, rejected) = merge_loop L contents
      (filter (\<lambda>(k, _). k \<in> set (map fl_name (filter fl_enabled (fc_lists config)))) base, [])" using ml eq by simp
  show "compile_with_budget (lb_matchers L) (all_rules m ?custom)
      (budget_of (fc_regex_compile_budget_ms config) clock) = Some (Inr s)" using c eq by simp
  have "length (concat (map snd (sort_key fst m'))) = sum_list (map (\<lambda>(_, rs). length rs) m')"
  proof -
    have "mset (map (length \<circ> snd) (sort_key fst m')) = mset (map (length \<circ> snd) m')" by simp
    then have "sum_list (map (length \<circ> snd) (sort_key fst m')) = sum_list (map (length \<circ> snd) m')"
      by (metis sum_mset_sum_list)
    then show ?thesis by (simp add: length_concat comp_def case_prod_unfold)
  qed
  with lim(2) eq show "length (all_rules m ?custom) \<le> fc_max_rules config" by (simp add: all_rules_def)
qed


section \<open>Outcomes of a reload\<close>

lemma rebuild_group_frame:
  "rebuild_group_snapshots L clock lrs e = Some e' \<Longrightarrow> \<exists>g. e' = e\<lparr>he_group_snapshots := g\<rparr>"
  by (auto simp: rebuild_group_snapshots_def)

abbreviation prev_count :: "('ac, 'dfa) filter_engine \<Rightarrow> nat" where
  "prev_count e \<equiv> fs_rule_count (he_snapshot e)"

abbreviation fetched_contents :: "reload_env \<Rightarrow> filtering_config \<Rightarrow> rstr list option \<Rightarrow> (rstr \<times> rstr) list" where
  "fetched_contents R config only \<equiv>
     fst (fetch_loop (re_fetch R (fc_max_list_bytes config)) only (fc_lists config) ([], [], []))"

lemma reload_internal_cases:
  assumes "reload_internal L R config guard only e = (e', res)"
  obtains
    (disabled) "\<not> fc_enabled config" "res = Done (Inr 0)"
      "e' = e\<lparr>he_snapshot := snapshot_default, he_list_rules := [], he_status := status_default\<lparr>st_state := Disabled\<rparr>\<rparr>"
  | (join) s where "fc_enabled config" "e' = e\<lparr>he_status := s\<rparr>" "st_state s = Failed" "st_rule_count s = prev_count e"
      "res = Done (Inl (CompileTaskFailed (re_join_error R)))"
      "re_cancelled R \<or> reload_task L (re_budget_clock R) config (he_list_rules e) (fetched_contents R config only) = None"
  | (rejected) s err where "fc_enabled config" "e' = e\<lparr>he_status := s\<rparr>" "st_state s = Ready" "0 < prev_count e"
      "st_rule_count s = prev_count e" "res = Done (Inl err)"
  | (guarded) s where "fc_enabled config" "guard" "e' = e\<lparr>he_status := s\<rparr>" "st_state s = Ready" "0 < prev_count e"
      "st_rule_count s = prev_count e" "res = Done (Inr (prev_count e))"
  | (down) s err where "fc_enabled config" "prev_count e = 0"
      "e' = e\<lparr>he_snapshot := snapshot_unavailable, he_status := s\<rparr>"
      "st_state s = Failed" "st_rule_count s = 0" "res = Done (Inl err)"
  | (stored) s snap n m rejected g where "fc_enabled config"
      "reload_task L (re_budget_clock R) config (he_list_rules e) (fetched_contents R config only) = Some (Inr (snap, n, m, rejected))"
      "e' = e\<lparr>he_snapshot := snap, he_list_rules := m, he_group_snapshots := g, he_status := s\<rparr>"
      "st_state s = Ready" "st_rule_count s = n" "res = Done (Inr n)"
      "\<not> (guard \<and> 0 < prev_count e \<and> (n = 0 \<or> sat_mul64 n 2 < prev_count e))"
  | (panicked) "res = Panicked"
proof (cases "fc_enabled config")
  case False
  with assms disabled show ?thesis by (simp add: reload_internal_def reload_disabled_def set_status_def set_snapshot_def)
next
  case True
  obtain contents fetched failed where
    f: "fetch_loop (re_fetch R (fc_max_list_bytes config)) only (fc_lists config) ([], [], []) = (contents, fetched, failed)"
    by (cases "fetch_loop (re_fetch R (fc_max_list_bytes config)) only (fc_lists config) ([], [], [])")
  define task where "task = (if re_cancelled R then None
      else reload_task L (re_budget_clock R) config (he_list_rules e) contents)"
  note defs = reload_internal_def finish_reload_def set_status_def set_snapshot_def Let_def
  consider (none) "task = None" | (err) err where "task = Some (Inl err)"
    | (ok) snap n m rejected where "task = Some (Inr (snap, n, m, rejected))"
    by (cases task) (metis sum.exhaust prod.exhaust)+
  then show ?thesis
  proof cases
    case none
    then have "re_cancelled R \<or> reload_task L (re_budget_clock R) config (he_list_rules e) contents = None"
      by (auto simp: task_def split: if_splits)
    with none assms True f join show ?thesis by (auto simp: defs task_def [symmetric])
  next
    case err
    show ?thesis
    proof (cases "prev_count e = 0")
      case z: True
      with err assms True f down show ?thesis by (auto simp: defs task_def [symmetric])
    next
      case z: False
      with err assms True f rejected show ?thesis by (auto simp: defs task_def [symmetric])
    qed
  next
    case ok
    then have t: "reload_task L (re_budget_clock R) config (he_list_rules e) (fetched_contents R config only) =
        Some (Inr (snap, n, m, rejected))" using f by (auto simp: task_def split: if_splits)
    let ?g = "guard \<and> 0 < prev_count e \<and> (n = 0 \<or> sat_mul64 n 2 < prev_count e)"
    consider (g) ?g | (d) "\<not> ?g" "n = 0 \<and> failed @ rejected \<noteq> [] \<and> prev_count e = 0"
      | (s) "\<not> ?g" "\<not> (n = 0 \<and> failed @ rejected \<noteq> [] \<and> prev_count e = 0)" by blast
    then show ?thesis
    proof cases
      case g
      then have "\<exists>s. e' = e\<lparr>he_status := s\<rparr> \<and> st_state s = Ready \<and> st_rule_count s = prev_count e \<and>
          res = Done (Inr (prev_count e))"
        using ok assms True f by (auto simp: defs task_def [symmetric])
      with guarded True g show ?thesis by blast
    next
      case d
      then have "\<exists>s err. e' = e\<lparr>he_snapshot := snapshot_unavailable, he_status := s\<rparr> \<and> st_state s = Failed \<and>
          st_rule_count s = 0 \<and> res = Done (Inl err)"
        using ok assms True f by (auto simp: defs task_def [symmetric] simp del: append_is_Nil_conv)
      with down True d show ?thesis by blast
    next
      case s
      let ?e1 = "e\<lparr>he_snapshot := snap, he_list_rules := m\<rparr>"
      show ?thesis
      proof (cases "rebuild_group_snapshots L (re_group_clock R) m ?e1")
        case None
        then have "res = Panicked"
          using s ok assms True f unfolding reload_internal_def finish_reload_def task_def [symmetric]
          by (simp add: set_snapshot_def Let_def task_def [symmetric] del: append_is_Nil_conv de_Morgan_conj)
        with panicked show ?thesis by blast
      next
        case (Some e2)
        from rebuild_group_frame [OF this] obtain g where g: "e2 = ?e1\<lparr>he_group_snapshots := g\<rparr>" by blast
        have "\<exists>st. e' = e\<lparr>he_snapshot := snap, he_list_rules := m, he_group_snapshots := g, he_status := st\<rparr> \<and>
            st_state st = Ready \<and> st_rule_count st = n \<and> res = Done (Inr n)"
          using Some g s ok assms True f
          by (simp add: defs task_def [symmetric] del: append_is_Nil_conv de_Morgan_conj) auto
        then obtain st where st: "e' = e\<lparr>he_snapshot := snap, he_list_rules := m, he_group_snapshots := g, he_status := st\<rparr>"
            "st_state st = Ready" "st_rule_count st = n" "res = Done (Inr n)" by blast
        show ?thesis by (rule stored [OF True t st s(1)])
      qed
    qed
  qed
qed


section \<open>The invariant of reachable engines\<close>

text \<open>The snapshot's rules, when it has any, are the compilation of exactly the retained list
  rules (sorted by list name) followed by custom rules.\<close>

definition compiled_from_lists :: "('ac, 'dfa) filter_libs \<Rightarrow> ('ac, 'dfa) filter_engine \<Rightarrow> bool" where
  "compiled_from_lists L e \<longleftrightarrow>
     (\<exists>custom budget. compile_with_budget (lb_matchers L) (all_rules (he_list_rules e) custom) budget = Some (Inr (he_snapshot e)))"

definition engine_inv :: "('ac, 'dfa) filter_libs \<Rightarrow> ('ac, 'dfa) filter_engine \<Rightarrow> bool" where
  "engine_inv L e \<longleftrightarrow>
     st_rule_count (he_status e) = prev_count e \<and>
     (fs_unavailable (he_snapshot e) \<longrightarrow> prev_count e = 0) \<and>
     (st_state (he_status e) = Ready \<longrightarrow> \<not> fs_unavailable (he_snapshot e)) \<and>
     (st_state (he_status e) = Loading \<longrightarrow> fs_unavailable (he_snapshot e)) \<and>
     (st_state (he_status e) = Disabled \<longrightarrow> prev_count e = 0) \<and>
     distinct (map fst (he_list_rules e)) \<and>
     (0 < prev_count e \<longrightarrow> compiled_from_lists L e)"

inductive engine_step ::
  "('ac, 'dfa) filter_libs \<Rightarrow> ('ac, 'dfa) filter_engine \<Rightarrow> ('ac, 'dfa) filter_engine \<Rightarrow> bool" for L where
  step_reload: "reload L R e = (e', Done r) \<Longrightarrow> engine_step L e e'"
| step_config: "reload_with_config L R config e = (e', Done r) \<Longrightarrow> engine_step L e e'"
| step_lists: "reload_lists L R names e = (e', Done r) \<Longrightarrow> engine_step L e e'"
| step_groups: "set_group_rules L clock groups e = Some e' \<Longrightarrow> engine_step L e e'"

inductive engine_reachable :: "('ac, 'dfa) filter_libs \<Rightarrow> ('ac, 'dfa) filter_engine \<Rightarrow> bool" for L where
  reach_new: "engine_reachable L (engine_new config)"
| reach_step: "engine_reachable L e \<Longrightarrow> engine_step L e e' \<Longrightarrow> engine_reachable L e'"

lemma snapshot_counts [simp]:
  "fs_rule_count snapshot_default = 0" "fs_rule_count snapshot_unavailable = 0"
  "fs_unavailable snapshot_unavailable" "\<not> fs_unavailable snapshot_default"
  by (simp_all add: snapshot_default_def snapshot_unavailable_def)

lemma engine_inv_new: "engine_inv L (engine_new config)"
  by (simp add: engine_inv_def engine_new_def status_default_def)

lemma engine_inv_frame:
  "engine_inv L e \<Longrightarrow> st_rule_count s = prev_count e \<Longrightarrow> st_state s = Failed \<or> st_state s = Ready \<and> 0 < prev_count e \<Longrightarrow>
   engine_inv L (e\<lparr>he_status := s\<rparr>)"
  by (auto simp: engine_inv_def compiled_from_lists_def)

lemma engine_inv_other:
  "engine_inv L (e\<lparr>he_config := c\<rparr>) = engine_inv L e" "engine_inv L (e\<lparr>he_group_defs := d\<rparr>) = engine_inv L e"
  "engine_inv L (e\<lparr>he_group_snapshots := g\<rparr>) = engine_inv L e"
  by (simp_all add: engine_inv_def compiled_from_lists_def)

lemma reload_internal_inv:
  assumes inv: "engine_inv L e" and r: "reload_internal L R config guard only e = (e', Done res)"
  shows "engine_inv L e'"
  using r
proof (cases rule: reload_internal_cases)
  case disabled
  then show ?thesis by (simp add: engine_inv_def status_default_def)
next
  case (join s)
  with inv engine_inv_frame [of L e s] show ?thesis by simp
next
  case (rejected s err)
  with inv engine_inv_frame [of L e s] show ?thesis by simp
next
  case (guarded s)
  with inv engine_inv_frame [of L e s] show ?thesis by simp
next
  case (down s err)
  with inv show ?thesis by (simp add: engine_inv_def)
next
  case (stored s snap n m rejected g)
  note t = reload_task_result [OF stored(2)]
  have "distinct (map fst m)"
    using t(3) merge_loop_distinct [of "(filter P (he_list_rules e), [])" L cs for P cs] inv
    by (metis distinct_filter_keys engine_inv_def fst_conv)
  with stored t show ?thesis by (auto simp: engine_inv_def compiled_from_lists_def)
qed simp

lemma engine_step_inv: "engine_step L e e' \<Longrightarrow> engine_inv L e \<Longrightarrow> engine_inv L e'"
proof (induction rule: engine_step.induct)
  case (step_config R config e e' r)
  then obtain e1 where "reload_internal L R config False None e = (e1, Done r)" "e' = e1 \<or> e' = e1\<lparr>he_config := config\<rparr>"
    by (auto simp: reload_with_config_def split: prod.splits reload_result.splits sum.splits)
  with step_config.prems reload_internal_inv [of L e R config False None e1 r] show ?case by (auto simp: engine_inv_other)
next
  case (step_groups clock groups e e')
  then show ?case
    by (auto simp: set_group_rules_def dest!: rebuild_group_frame) (simp add: engine_inv_other)
qed (auto simp: reload_def reload_lists_def intro: reload_internal_inv)

lemma engine_reachable_inv: "engine_reachable L e \<Longrightarrow> engine_inv L e"
  by (induction rule: engine_reachable.induct) (auto intro: engine_inv_new engine_step_inv)


section \<open>Merging lists\<close>

lemma merge_loop_other: "n \<notin> fst ` set cs \<Longrightarrow> map_of (fst (merge_loop L cs acc)) n = map_of (fst acc) n"
  by (induction L cs acc rule: merge_loop.induct) (auto simp: Let_def update_conv')

lemma merge_loop_fetched:
  assumes "distinct (map fst cs)" and "(n, content) \<in> set cs"
    and "regex_load_exceeds_limits (fst (parse_rules (lb_puny L) (lb_rtypes L) content n)) = None"
  shows "map_of (fst (merge_loop L cs acc)) n = Some (fst (parse_rules (lb_puny L) (lb_rtypes L) content n))"
  using assms
proof (induction L cs acc rule: merge_loop.induct)
  case (2 L name content' cs m rejected)
  show ?case
  proof (cases "name = n")
    case True
    with "2.prems" have "content' = content" "n \<notin> fst ` set cs" by (auto simp: image_iff)
    with True "2.prems"(3) show ?thesis by (simp add: Let_def merge_loop_other update_conv')
  next
    case False
    with 2 show ?thesis by (auto simp: Let_def)
  qed
qed simp

lemma map_of_filter_key: "map_of (filter (\<lambda>(k, _). P k) m) n = (if P n then map_of m n else None)"
  by (induction m) auto

lemma fetch_loop_contents:
  "fst (fetch_loop fetch only ls (contents, fetched, failed)) = contents @
     List.map_filter (\<lambda>l. if fl_enabled l \<and> (case only of None \<Rightarrow> True | Some ns \<Rightarrow> fl_name l \<in> set ns)
       then map_option (Pair (fl_name l)) (fetch (fl_name l) (fl_url l)) else None) ls"
  by (induction ls arbitrary: contents fetched failed)
    (auto simp: List.map_filter_simps split: option.splits)


definition selected :: "rstr list option \<Rightarrow> filter_list_config \<Rightarrow> bool" where
  "selected only l \<longleftrightarrow> (case only of None \<Rightarrow> True | Some ns \<Rightarrow> fl_name l \<in> set ns)"

text \<open>The rules of a configured list after a reload: freshly parsed when the list was selected,
  fetched and accepted, otherwise those held before.\<close>

definition list_after ::
  "('ac, 'dfa) filter_libs \<Rightarrow> reload_env \<Rightarrow> filtering_config \<Rightarrow> rstr list option \<Rightarrow> list_rules \<Rightarrow> filter_list_config \<Rightarrow>
   rule list option" where
  "list_after L R config only old l =
     (case (if selected only l then re_fetch R (fc_max_list_bytes config) (fl_name l) (fl_url l) else None) of
        Some content \<Rightarrow>
          (let rs = fst (parse_rules (lb_puny L) (lb_rtypes L) content (fl_name l))
           in if regex_load_exceeds_limits rs = None then Some rs else map_of old (fl_name l))
      | None \<Rightarrow> map_of old (fl_name l))"

lemma merge_loop_rejected:
  assumes "distinct (map fst cs)" and "(n, content) \<in> set cs"
    and "regex_load_exceeds_limits (fst (parse_rules (lb_puny L) (lb_rtypes L) content n)) \<noteq> None"
  shows "map_of (fst (merge_loop L cs acc)) n = map_of (fst acc) n"
  using assms
proof (induction L cs acc rule: merge_loop.induct)
  case (2 L name content' cs m rejected)
  show ?case
  proof (cases "name = n")
    case True
    with "2.prems" have "content' = content" "n \<notin> fst ` set cs" by (auto simp: image_iff)
    with True "2.prems"(3) show ?thesis by (simp add: Let_def merge_loop_other)
  next
    case False
    with 2 show ?thesis by (auto simp: Let_def update_conv')
  qed
qed simp

lemma merge_loop_keys: "fst ` set (fst (merge_loop L cs acc)) \<subseteq> fst ` set (fst acc) \<union> fst ` set cs"
proof (induction L cs acc rule: merge_loop.induct)
  case (2 L name content cs m rejected)
  then show ?case
    by (cases "regex_load_exceeds_limits (fst (parse_rules (lb_puny L) (lb_rtypes L) content name)) = None")
      (simp_all add: Let_def dom_update, blast+)
qed simp

definition picked :: "(filter_list_config \<Rightarrow> bool) \<Rightarrow> (filter_list_config \<Rightarrow> rstr option) \<Rightarrow> filter_list_config list \<Rightarrow> (rstr \<times> rstr) list" where
  "picked P f ls = List.map_filter (\<lambda>l. if P l then map_option (Pair (fl_name l)) (f l) else None) ls"

lemma picked_mem: "(n, c) \<in> set (picked P f ls) \<longleftrightarrow> (\<exists>l\<in>set ls. fl_name l = n \<and> P l \<and> f l = Some c)"
  unfolding picked_def by (induction ls) (auto simp: List.map_filter_simps split: option.splits)

lemma picked_distinct: "distinct (map fl_name ls) \<Longrightarrow> distinct (map fst (picked P f ls))"
proof (induction ls)
  case (Cons l ls)
  have "fl_name l \<notin> fst ` set (picked P f ls)" using Cons.prems by (auto simp: picked_mem) (metis image_eqI)
  with Cons show ?case by (auto simp: picked_def List.map_filter_simps split: option.splits)
qed (simp add: picked_def List.map_filter_simps)

lemma fetched_picked:
  "fetched_contents R config only =
     picked (\<lambda>l. fl_enabled l \<and> selected only l) (\<lambda>l. re_fetch R (fc_max_list_bytes config) (fl_name l) (fl_url l)) (fc_lists config)"
  by (simp add: fetch_loop_contents selected_def picked_def)

lemma merged_list:
  assumes "distinct (map fl_name (fc_lists config))" and "l \<in> set (fc_lists config)" and "fl_enabled l"
  shows "map_of (fst (merge_loop L (fetched_contents R config only)
      (filter (\<lambda>(k, _). k \<in> set (map fl_name (filter fl_enabled (fc_lists config)))) old, []))) (fl_name l) =
    list_after L R config only old l"
proof -
  let ?f = "\<lambda>l. re_fetch R (fc_max_list_bytes config) (fl_name l) (fl_url l)"
  let ?P = "\<lambda>l. fl_enabled l \<and> selected only l"
  have keys: "distinct (map fst (fetched_contents R config only))"
    unfolding fetched_picked by (rule picked_distinct [OF assms(1)])
  have same: "l' = l" if "l' \<in> set (fc_lists config)" "fl_name l' = fl_name l" for l'
    using assms(1,2) that by (simp add: distinct_map inj_on_def)
  have mem: "(fl_name l, c) \<in> set (fetched_contents R config only) \<longleftrightarrow> selected only l \<and> ?f l = Some c" for c
    unfolding fetched_picked picked_mem using same assms(2,3) by metis
  have base: "map_of (filter (\<lambda>(k, _). k \<in> set (map fl_name (filter fl_enabled (fc_lists config)))) old) (fl_name l) =
      map_of old (fl_name l)"
    using assms(2,3) by (subst map_of_filter_key) auto
  show ?thesis
  proof (cases "if selected only l then ?f l else None")
    case None
    then have nm: "fl_name l \<notin> fst ` set (fetched_contents R config only)" using mem by (force split: if_splits)
    from None show ?thesis
      unfolding merge_loop_other [OF nm] fst_conv base by (simp add: list_after_def)
  next
    case (Some content)
    then have m: "(fl_name l, content) \<in> set (fetched_contents R config only)" using mem by (simp split: if_splits)
    let ?rs = "fst (parse_rules (lb_puny L) (lb_rtypes L) content (fl_name l))"
    show ?thesis
    proof (cases "regex_load_exceeds_limits ?rs = None")
      case True
      from merge_loop_fetched [OF keys m True] Some True show ?thesis by (simp add: list_after_def Let_def)
    next
      case False
      from merge_loop_rejected [OF keys m False] Some False base show ?thesis by (auto simp: list_after_def Let_def)
    qed
  qed
qed


section \<open>The schedule\<close>

lemma schedule_loop_keeps:
  "schedule_loop config now ls (nd, due, so) = Some (nd', due', so') \<Longrightarrow> nd n = Some t \<Longrightarrow> nd' n = Some t"
proof (induction ls arbitrary: nd due so)
  case (Cons l ls)
  then obtain at' where a: "instant_add now (list_interval config l) = Some at'" by (auto simp: bind_eq_Some_conv)
  let ?e = "case nd (fl_name l) of None \<Rightarrow> at' | Some x \<Rightarrow> x"
  from Cons.prems a have "schedule_loop config now ls (nd(fl_name l \<mapsto> ?e), if ?e \<le> now then due @ [fl_name l] else due,
      Some (case so of None \<Rightarrow> ?e | Some s \<Rightarrow> min s ?e)) = Some (nd', due', so')" by (simp add: Let_def)
  from Cons.IH [OF this] Cons.prems(2) show ?case by (cases "n = fl_name l") auto
qed simp

lemma schedule_loop_due_mono:
  "schedule_loop config now ls (nd, due, so) = Some (nd', due', so') \<Longrightarrow> due \<noteq> [] \<Longrightarrow> due' \<noteq> []"
  by (induction ls arbitrary: nd due so) (auto simp: bind_eq_Some_conv Let_def split: if_splits)

lemma schedule_loop_due:
  "schedule_loop config now ls (nd, due, so) = Some (nd', due', so') \<Longrightarrow> l \<in> set ls \<Longrightarrow> nd (fl_name l) = Some t \<Longrightarrow>
   t \<le> now \<Longrightarrow> due' \<noteq> []"
proof (induction ls arbitrary: nd due so)
  case (Cons x ls)
  then obtain at' where a: "instant_add now (list_interval config x) = Some at'" by (auto simp: bind_eq_Some_conv)
  let ?e = "case nd (fl_name x) of None \<Rightarrow> at' | Some x \<Rightarrow> x"
  let ?due = "if ?e \<le> now then due @ [fl_name x] else due"
  from Cons.prems(1) a have r: "schedule_loop config now ls (nd(fl_name x \<mapsto> ?e), ?due,
      Some (case so of None \<Rightarrow> ?e | Some s \<Rightarrow> min s ?e)) = Some (nd', due', so')" by (simp add: Let_def)
  show ?case
  proof (cases "l = x \<or> fl_name l = fl_name x")
    case True
    with Cons.prems have "?due \<noteq> []" by auto
    with schedule_loop_due_mono [OF r] show ?thesis by blast
  next
    case False
    with Cons.IH [OF r] Cons.prems show ?thesis by simp
  qed
qed simp

text \<open>What the loop computes when every interval fits: the earliest entry, taken from some list.\<close>

lemma schedule_loop_total:
  assumes "\<forall>l\<in>set ls. list_interval config l \<le> B" and "(now + B) div 1000000000 < 9223372036854775808"
    and "\<forall>n t. nd n = Some t \<longrightarrow> t \<le> now + B" and "\<forall>s. so = Some s \<longrightarrow> s \<le> now + B"
  shows "\<exists>nd' due' so'. schedule_loop config now ls (nd, due, so) = Some (nd', due', so') \<and>
    (\<forall>s. so' = Some s \<longrightarrow> s \<le> now + B \<and> (so = Some s \<or> (\<exists>l\<in>set ls. nd' (fl_name l) = Some s))) \<and>
    (\<forall>n t. nd' n = Some t \<longrightarrow> t \<le> now + B) \<and> (ls \<noteq> [] \<longrightarrow> so' \<noteq> None) \<and> (so \<noteq> None \<longrightarrow> so' \<noteq> None) \<and>
    (due' = [] \<longrightarrow> (\<forall>s. so = Some s \<longrightarrow> now < s) \<longrightarrow> (\<forall>s. so' = Some s \<longrightarrow> now < s))"
  using assms(1,3,4)
proof (induction ls arbitrary: nd due so)
  case (Cons l ls)
  have "(now + list_interval config l) div 1000000000 \<le> (now + B) div 1000000000"
    using Cons.prems(1) by (intro div_le_mono) simp
  with assms(2) have a: "instant_add now (list_interval config l) = Some (now + list_interval config l)"
    by (simp add: instant_add_def)
  define x where "x = (case nd (fl_name l) of None \<Rightarrow> now + list_interval config l | Some x \<Rightarrow> x)"
  define so1 where "so1 = (case so of None \<Rightarrow> x | Some s \<Rightarrow> min s x)"
  let ?due = "if x \<le> now then due @ [fl_name l] else due"
  have x: "x \<le> now + B" using Cons.prems(1,2) by (auto simp: x_def split: option.splits)
  have so1: "so1 \<le> now + B" "so1 = x \<or> so = Some so1" using x Cons.prems(3)
    by (auto simp: so1_def min_def split: option.splits)
  have nd1: "\<forall>n t. (nd(fl_name l \<mapsto> x)) n = Some t \<longrightarrow> t \<le> now + B" using Cons.prems(2) x by auto
  have p: "\<forall>l\<in>set ls. list_interval config l \<le> B" "\<forall>s. Some so1 = Some s \<longrightarrow> s \<le> now + B"
    using Cons.prems(1) so1(1) by simp_all
  from Cons.IH [OF p(1) nd1 p(2), of ?due] obtain nd' due' so' where
    r: "schedule_loop config now ls (nd(fl_name l \<mapsto> x), ?due, Some so1) = Some (nd', due', so')" and
    s: "\<forall>s. so' = Some s \<longrightarrow> s \<le> now + B \<and> (Some so1 = Some s \<or> (\<exists>l\<in>set ls. nd' (fl_name l) = Some s))"
       "(\<forall>n t. nd' n = Some t \<longrightarrow> t \<le> now + B) \<and> (Some so1 \<noteq> None \<longrightarrow> so' \<noteq> None)"
       "due' = [] \<longrightarrow> (\<forall>s. Some so1 = Some s \<longrightarrow> now < s) \<longrightarrow> (\<forall>s. so' = Some s \<longrightarrow> now < s)"
    by blast
  have k: "nd' (fl_name l) = Some x" using schedule_loop_keeps [OF r, of "fl_name l" x] by simp
  have d: "now < x" if "due' = []"
  proof (rule ccontr)
    assume "\<not> now < x"
    then have "?due \<noteq> []" by simp
    with schedule_loop_due_mono [OF r] that show False by blast
  qed
  have step: "schedule_loop config now (l # ls) (nd, due, so) = Some (nd', due', so')"
    using r unfolding x_def so1_def by (simp add: a Let_def split del: if_split)
  have src: "s \<le> now + B \<and> (so = Some s \<or> (\<exists>l\<in>set (l # ls). nd' (fl_name l) = Some s))" if "so' = Some s" for s
    using s(1) [rule_format, OF that] k so1(2) by auto
  have pos: "now < s" if "due' = []" "\<forall>s. so = Some s \<longrightarrow> now < s" "so' = Some s" for s
  proof -
    have "now < so1" using d [OF that(1)] that(2) so1(2) by auto
    with s(3) that(1,3) show ?thesis by blast
  qed
  show ?case
  proof (intro exI conjI)
    show "schedule_loop config now (l # ls) (nd, due, so) = Some (nd', due', so')" by (rule step)
    show "\<forall>s. so' = Some s \<longrightarrow> s \<le> now + B \<and> (so = Some s \<or> (\<exists>l\<in>set (l # ls). nd' (fl_name l) = Some s))"
      using src by blast
    show "\<forall>n t. nd' n = Some t \<longrightarrow> t \<le> now + B" using s(2) by (rule conjunct1)
    show "l # ls \<noteq> [] \<longrightarrow> so' \<noteq> None" "so \<noteq> None \<longrightarrow> so' \<noteq> None" using s(2) by simp_all
    show "due' = [] \<longrightarrow> (\<forall>s. so = Some s \<longrightarrow> now < s) \<longrightarrow> (\<forall>s. so' = Some s \<longrightarrow> now < s)" using pos by blast
  qed
qed auto

lemma kept_entries: "\<forall>n t. (\<lambda>n. if n \<in> A then nd n else None) n = Some t \<longrightarrow> P t" if "\<forall>n t. nd n = Some t \<longrightarrow> P t"
  using that by auto

lemma refresh_schedule_total:
  assumes "\<forall>l\<in>set (filter fl_enabled (fc_lists config)). list_interval config l \<le> B"
    and "(now + B) div 1000000000 < 9223372036854775808" and "\<forall>n t. nd n = Some t \<longrightarrow> t \<le> now + B"
    and "filter fl_enabled (fc_lists config) \<noteq> []"
  shows "\<exists>nd' sleep due. refresh_schedule config nd now = Some (nd', sleep, due) \<and> sleep \<le> B \<and>
    (\<forall>n t. nd' n = Some t \<longrightarrow> t \<le> now + B) \<and> (due = [] \<longrightarrow> 0 < sleep \<and> (\<exists>l\<in>set (filter fl_enabled (fc_lists config)). nd' (fl_name l) = Some (now + sleep)))"
proof -
  let ?en = "filter fl_enabled (fc_lists config)"
  from schedule_loop_total [OF assms(1,2) kept_entries [OF assms(3)], of None "fl_name ` set ?en" "[]"]
  obtain nd' due so where
    r: "schedule_loop config now ?en (\<lambda>n. if n \<in> fl_name ` set ?en then nd n else None, [], None) = Some (nd', due, so)" and
    s: "\<forall>s. so = Some s \<longrightarrow> s \<le> now + B \<and> (\<exists>l\<in>set ?en. nd' (fl_name l) = Some s)" "so \<noteq> None"
       "due = [] \<longrightarrow> (\<forall>s. so = Some s \<longrightarrow> now < s)" and nd': "\<forall>n t. nd' n = Some t \<longrightarrow> t \<le> now + B"
    using assms(4) by auto
  from s(2) obtain t where t: "so = Some t" by blast
  from r t have "refresh_schedule config nd now = Some (nd', if due = [] then t - now else 0, due)"
    by (simp add: refresh_schedule_def Let_def)
  with s t nd' show ?thesis by auto
qed


section \<open>Rules of a stored snapshot\<close>

lemma activate_loop_length:
  "length (snd (snd (activate_loop bad rs seen (ab, bb, act)))) \<le> length act + length rs"
proof (induction rs arbitrary: seen ab bb act)
  case (Cons r rs)
  show ?case
    by (cases "r_kind r")
      (simp_all add: Let_def le_SucI [OF Cons.IH] order_trans [OF Cons.IH])
qed simp

lemma compile_inner_length:
  assumes "compile_inner M rs budget t = Some (Inr s)"
  shows "fs_rule_count s \<le> length rs"
proof -
  have "pred_option (\<lambda>r. \<forall>s. r = Inr s \<longrightarrow> fs_rule_count s \<le> length rs) (compile_inner M rs budget t)"
    using activate_loop_length [of "badfilter_set rs" rs "{}" builder_new builder_new "[]"]
    unfolding compile_inner_def Let_def by (auto simp: pred_option_bind split: prod.split sum.split)
  with assms show ?thesis by simp
qed

lemma config_reload_stored:
  assumes "reload_with_config L R config e = (e', Done (Inr n))" and "fc_enabled config"
  obtains m rejected where
    "reload_task L (re_budget_clock R) config (he_list_rules e) (fetched_contents R config None) =
       Some (Inr (he_snapshot e', n, m, rejected))"
    "he_list_rules e' = m" "he_config e' = config"
proof -
  from assms(1) obtain e1 where r: "reload_internal L R config False None e = (e1, Done (Inr n))"
    and e': "e' = e1\<lparr>he_config := config\<rparr>"
    by (auto simp: reload_with_config_def split: prod.splits reload_result.splits sum.splits)
  from r show ?thesis
  proof (cases rule: reload_internal_cases)
    case (stored s snap k m rejected g)
    then show ?thesis using e' that by simp
  qed (use assms(2) in simp_all)
qed


section \<open>Properties\<close>

text \<open>C2: in every state reachable by reloads, configuration changes, partial
  refreshes and group changes in any order, the status reports the rule count of the active
  snapshot; an unavailable snapshot has no rules; the state Ready implies an available snapshot,
  Loading an unavailable one, Disabled an empty one; and a snapshot with rules is the compilation
  of exactly the retained per-list rules followed by custom rules.\<close>

theorem lifecycle_invariant:
  assumes "engine_reachable L e"
  shows "engine_inv L e"
  by (rule engine_reachable_inv [OF assms])

definition sample_libs :: "(rstr list, rstr list) filter_libs" where
  "sample_libs = \<lparr>lb_puny = (\<lambda>_. None), lb_rtypes = (\<lambda>_. None), lb_matchers = scan_matchers (=) (\<lambda>_. True)\<rparr>"

definition sample_env :: "(rstr \<Rightarrow> rstr option) \<Rightarrow> bool \<Rightarrow> reload_env" where
  "sample_env net cancelled =
     \<lparr>re_fetch = (\<lambda>_ _ url. net url), re_cancelled = cancelled, re_join_error = lit ''cancelled'',
      re_budget_clock = (\<lambda>_. 0), re_group_clock = (\<lambda>_ _. 0), re_elapsed_ns = 0\<rparr>"

definition sample_config :: filtering_config where
  "sample_config = filtering_config_default\<lparr>fc_lists :=
     [\<lparr>fl_name = lit ''a'', fl_url = lit ''https://a.example/'', fl_enabled = True, fl_refresh_hours = None\<rparr>],
     fc_custom_rules := [lit ''||ads.example^'']\<rparr>"

definition result_of :: "('ac, 'dfa) filter_engine \<times> reload_result \<Rightarrow> (filter_error + nat) option" where
  "result_of p = (case snd p of Done r \<Rightarrow> Some r | Panicked \<Rightarrow> None)"

lemma result_of_Some: "result_of p = Some r \<Longrightarrow> p = (fst p, Done r)"
  by (cases p) (auto simp: result_of_def split: reload_result.splits)

theorem lifecycle_invariant_witness:
  "let e = fst (reload sample_libs (sample_env (\<lambda>_. None) False) (engine_new sample_config))
   in engine_inv sample_libs e \<and> st_rule_count (he_status e) = 1"
proof -
  let ?p = "reload sample_libs (sample_env (\<lambda>_. None) False) (engine_new sample_config)"
  have "result_of ?p = Some (Inr 1)" by code_simp
  from result_of_Some [OF this] have "engine_step sample_libs (engine_new sample_config) (fst ?p)"
    by (rule step_reload)
  then have "engine_reachable sample_libs (fst ?p)" by (rule reach_step [OF reach_new])
  moreover have "st_rule_count (he_status (fst ?p)) = 1" by code_simp
  ultimately show ?thesis using lifecycle_invariant [of sample_libs "fst ?p"] by (simp add: Let_def)
qed

text \<open>C3: after a configuration with filtering enabled has been applied, every
  query is answered, without a panic, by the verdict the rule precedence prescribes for the list
  rules now in force followed by the configured custom rules.\<close>

theorem reload_then_decides:
  assumes "reload_with_config L R config e = (e', Done (Inr n))" and "fc_enabled config"
    and "engines_ok (lb_matchers L) rm"
    and "rules_fit (all_rules (he_list_rules e') (custom_rules_parsed L (fc_custom_rules config)))"
  shows "\<exists>v. engine_evaluate L e' ascii qtype client = Some v \<and>
    (let rs = active_rules (all_rules (he_list_rules e') (custom_rules_parsed L (fc_custom_rules config)));
         d = normalized_query_domain (lb_puny L) ascii
     in justified rm rs d qtype client v \<and> (snapshot_complete (he_snapshot e') \<longrightarrow> decides rm rs d qtype client v))"
proof -
  from config_reload_stored [OF assms(1,2)] obtain m rejected where
    t: "reload_task L (re_budget_clock R) config (he_list_rules e) (fetched_contents R config None) =
       Some (Inr (he_snapshot e', n, m, rejected))" and m: "he_list_rules e' = m" and c: "he_config e' = config" .
  let ?rules = "all_rules m (custom_rules_parsed L (fc_custom_rules config))"
  from assms(4) m have fit: "rules_fit ?rules" by simp
  from compile_inner_rep [OF fit] reload_task_result(4) [OF t] have
    "snapshot_rep (lb_matchers L) (he_snapshot e') (active_rules ?rules)"
    unfolding compile_with_budget_def by (metis option.inject)
  from evaluate_cases [OF assms(3) this active_rules_fit [OF fit]] show ?thesis
    using reload_task_result(2) [OF t] assms(2) c m by (simp add: engine_evaluate_def Let_def)
qed

theorem reload_then_decides_witness:
  "let e = fst (reload_with_config sample_libs (sample_env (\<lambda>_. None) False) sample_config (engine_new filtering_config_default))
   in \<exists>v. engine_evaluate sample_libs e (lit ''x.ads.example.'') 1 (ctx_new (V4 0)) = Some v"
proof -
  let ?p = "reload_with_config sample_libs (sample_env (\<lambda>_. None) False) sample_config (engine_new filtering_config_default)"
  have r: "result_of ?p = Some (Inr 1)" by code_simp
  have ok: "engines_ok (lb_matchers sample_libs) (=)" by (simp add: sample_libs_def engines_ok_scan)
  have fit: "rules_fit (all_rules (he_list_rules (fst ?p)) (custom_rules_parsed sample_libs (fc_custom_rules sample_config)))"
    and en: "fc_enabled sample_config" by code_simp+
  from reload_then_decides [OF result_of_Some [OF r] en ok fit] show ?thesis unfolding Let_def by blast
qed

text \<open>C9: a scheduled reload or refresh of an engine with rules never leaves fewer than half
  of them: a corrupted source cannot switch protection off.\<close>

theorem drop_guard:
  assumes "reload_internal L R config True only e = (e', Done res)" and "fc_enabled config" and "0 < prev_count e"
  shows "0 < prev_count e' \<and> prev_count e \<le> 2 * prev_count e'"
  using assms(1)
proof (cases rule: reload_internal_cases)
  case (stored s snap n m rejected g)
  from reload_task_result(1) [OF stored(2)] stored(3,7) assms(3) show ?thesis
    by (auto simp: sat_mul64_def)
qed (use assms(2,3) in simp_all)

theorem drop_guard_witness:
  "let e = fst (reload sample_libs (sample_env (\<lambda>_. None) False) (engine_new sample_config))
   in 0 < prev_count (fst (reload_internal sample_libs (sample_env (\<lambda>_. None) True) sample_config True None e))"
proof -
  let ?e = "fst (reload sample_libs (sample_env (\<lambda>_. None) False) (engine_new sample_config))"
  let ?p = "reload_internal sample_libs (sample_env (\<lambda>_. None) True) sample_config True None ?e"
  have "result_of ?p = Some (Inl (CompileTaskFailed (lit ''cancelled'')))" "fc_enabled sample_config" "0 < prev_count ?e"
    by code_simp+
  from drop_guard [OF result_of_Some [OF this(1)] this(2,3)] show ?thesis by (simp add: Let_def)
qed

text \<open>C10: a reload that fails, whatever the error, leaves the configuration, the
  per-list rules and the group rule sets as they were, and the snapshot too if it had rules.\<close>

theorem failed_reload_keeps:
  assumes "reload_with_config L R config e = (e', Done (Inl err))"
  shows "he_config e' = he_config e \<and> he_list_rules e' = he_list_rules e \<and> he_group_snapshots e' = he_group_snapshots e \<and>
    (0 < prev_count e \<longrightarrow> he_snapshot e' = he_snapshot e)"
proof -
  from assms have "reload_internal L R config False None e = (e', Done (Inl err))"
    by (auto simp: reload_with_config_def split: prod.splits reload_result.splits sum.splits)
  then show ?thesis by (cases rule: reload_internal_cases) simp_all
qed

theorem failed_reload_keeps_witness:
  "let e = engine_new filtering_config_default;
       e' = fst (reload_with_config sample_libs (sample_env (\<lambda>_. None) False) (sample_config\<lparr>fc_custom_rules := []\<rparr>) e)
   in he_config e' = filtering_config_default \<and> st_state (he_status e') = Failed"
proof -
  let ?p = "reload_with_config sample_libs (sample_env (\<lambda>_. None) False) (sample_config\<lparr>fc_custom_rules := []\<rparr>)
      (engine_new filtering_config_default)"
  have "result_of ?p = Some (Inl (NoSourcesLoaded 1 (failed_details [lit ''a''])))" by code_simp
  from failed_reload_keeps [OF result_of_Some [OF this]] have "he_config (fst ?p) = filtering_config_default"
    by (simp add: engine_new_def)
  moreover have "st_state (he_status (fst ?p)) = Failed" by code_simp
  ultimately show ?thesis by (simp add: Let_def)
qed

text \<open>C11: when the initial load fails and the configuration asks for fail-closed
  filtering, every query is blocked as unavailable by every entry point of the engine.\<close>

theorem fail_closed_init:
  assumes "engine_init L R config = (e, Done (Inl err))" and "fc_enabled config" and "fc_fail_closed config"
  shows "unavailable_for_fail_closed e \<and>
    engine_evaluate L e ascii qtype client = Some (VBlock BFilterUnavailable) \<and>
    engine_evaluate_standard L e ascii qtype client = Some (VBlock BFilterUnavailable) \<and>
    engine_evaluate_important L e ascii qtype client = Some (Some (VBlock BFilterUnavailable))"
proof -
  from assms(1) have "reload_internal L R config True None (engine_new config) = (e, Done (Inl err))"
    by (simp add: engine_init_def reload_def engine_new_def)
  then have "fs_unavailable (he_snapshot e) \<and> he_config e = config"
    by (cases rule: reload_internal_cases) (simp_all add: engine_new_def)
  with assms(2,3) show ?thesis
    by (simp add: unavailable_for_fail_closed_def engine_evaluate_def engine_evaluate_standard_def engine_evaluate_important_def)
qed

theorem fail_closed_init_witness:
  "let e = fst (engine_init sample_libs (sample_env (\<lambda>_. None) True) sample_config)
   in engine_evaluate sample_libs e (lit ''example.com.'') 1 (ctx_new (V4 0)) = Some (VBlock BFilterUnavailable)"
proof -
  let ?p = "engine_init sample_libs (sample_env (\<lambda>_. None) True) sample_config"
  have "result_of ?p = Some (Inl (CompileTaskFailed (lit ''cancelled'')))" "fc_enabled sample_config" "fc_fail_closed sample_config"
    by code_simp+
  from fail_closed_init [OF result_of_Some [OF this(1)] this(2,3)] show ?thesis by (simp add: Let_def)
qed

text \<open>A configuration that is applied never activates more rules than its
  own limit.\<close>

lemma applied_rules_bounded:
  assumes "reload_with_config L R config e = (e', Done (Inr n))" and "fc_enabled config"
  shows "n = prev_count e' \<and> n \<le> fc_max_rules config"
proof -
  from config_reload_stored [OF assms] obtain m rejected where
    t: "reload_task L (re_budget_clock R) config (he_list_rules e) (fetched_contents R config None) =
       Some (Inr (he_snapshot e', n, m, rejected))" .
  from reload_task_result(4) [OF t] have "prev_count e' \<le> length (all_rules m (custom_rules_parsed L (fc_custom_rules config)))"
    unfolding compile_with_budget_def by (rule compile_inner_length)
  with reload_task_result(1,5) [OF t] show ?thesis by simp
qed

lemma applied_rules_bounded_witness:
  "prev_count (fst (reload_with_config sample_libs (sample_env (\<lambda>_. None) False) sample_config (engine_new filtering_config_default)))
     \<le> 2000000"
proof -
  let ?p = "reload_with_config sample_libs (sample_env (\<lambda>_. None) False) sample_config (engine_new filtering_config_default)"
  have "result_of ?p = Some (Inr 1)" "fc_enabled sample_config" "fc_max_rules sample_config = 2000000" by code_simp+
  with applied_rules_bounded [OF result_of_Some [OF this(1)] this(2)] show ?thesis by simp
qed

text \<open>A reload either leaves the per-list rules as they were, or it holds for
  every enabled list the freshly parsed rules if the list was selected, fetched and within the
  regex limits, and its previous rules otherwise, and nothing for other lists; so a list that
  fails to load keeps its rules.\<close>

lemma failed_lists_retained:
  assumes "reload_internal L R config guard only e = (e', Done res)" and "fc_enabled config"
    and "validate_filtering config = Inr ()"
  shows "he_list_rules e' = he_list_rules e \<or>
    (\<forall>l\<in>set (filter fl_enabled (fc_lists config)).
       map_of (he_list_rules e') (fl_name l) = list_after L R config only (he_list_rules e) l) \<and>
    fst ` set (he_list_rules e') \<subseteq> fl_name ` set (filter fl_enabled (fc_lists config))"
  using assms(1)
proof (cases rule: reload_internal_cases)
  case (stored s snap n m rejected g)
  have d: "distinct (map fl_name (fc_lists config))"
    using assms(3) by (simp add: validate_filtering_iff filtering_ok_def lists_ok_def)
  let ?base = "filter (\<lambda>(k, _). k \<in> set (map fl_name (filter fl_enabled (fc_lists config)))) (he_list_rules e)"
  have m: "m = fst (merge_loop L (fetched_contents R config only) (?base, []))"
    using reload_task_result(3) [OF stored(2)] by (metis fst_conv)
  have "fst ` set (fetched_contents R config only) \<subseteq> fl_name ` set (filter fl_enabled (fc_lists config))"
    unfolding fetched_picked by (auto simp: picked_mem)
  moreover have "fst ` set ?base \<subseteq> fl_name ` set (filter fl_enabled (fc_lists config))" by auto
  ultimately have "fst ` set (fst (?base, [])) \<union> fst ` set (fetched_contents R config only) \<subseteq>
      fl_name ` set (filter fl_enabled (fc_lists config))" by (simp only: fst_conv Un_least)
  then have "fst ` set m \<subseteq> fl_name ` set (filter fl_enabled (fc_lists config))"
    unfolding m by (rule order_trans [OF merge_loop_keys])
  moreover have "\<forall>l\<in>set (filter fl_enabled (fc_lists config)). map_of m (fl_name l) = list_after L R config only (he_list_rules e) l"
    unfolding m
  proof
    fix l assume "l \<in> set (filter fl_enabled (fc_lists config))"
    then have "l \<in> set (fc_lists config)" "fl_enabled l" by simp_all
    then show "map_of (fst (merge_loop L (fetched_contents R config only) (?base, []))) (fl_name l) =
        list_after L R config only (he_list_rules e) l" by (rule merged_list [OF d])
  qed
  ultimately show ?thesis using stored(3) by simp
qed (use assms(2) in simp_all)


lemma failed_lists_retained_witness:
  "let e = fst (reload sample_libs (sample_env (\<lambda>_. Some (lit ''||bad.example^'')) False) (engine_new sample_config));
       e' = fst (reload_internal sample_libs (sample_env (\<lambda>_. None) False) sample_config True None e)
   in he_list_rules e \<noteq> [] \<and> map_of (he_list_rules e') (lit ''a'') = map_of (he_list_rules e) (lit ''a'')"
proof -
  let ?e = "fst (reload sample_libs (sample_env (\<lambda>_. Some (lit ''||bad.example^'')) False) (engine_new sample_config))"
  let ?R = "sample_env (\<lambda>_. None) False"
  let ?p = "reload_internal sample_libs ?R sample_config True None ?e"
  have r: "result_of ?p = Some (Inr 2)" and c: "fc_enabled sample_config" "validate_filtering sample_config = Inr ()"
    and ne: "he_list_rules ?e \<noteq> []" by code_simp+
  have l: "\<exists>l\<in>set (filter fl_enabled (fc_lists sample_config)). fl_name l = lit ''a''"
    by (simp add: sample_config_def filtering_config_default_def)
  have "list_after sample_libs ?R sample_config None old l = map_of old (fl_name l)" for old l
    by (simp add: list_after_def sample_env_def)
  with failed_lists_retained [OF result_of_Some [OF r] c] l ne show ?thesis unfolding Let_def by metis
qed



section \<open>Observations\<close>

text \<open>The state \<^verbatim>\<open>Failed\<close> is documented as: no rules are active.  When the compile task dies the
  engine reports it although the previous snapshot stays in force.\<close>

lemma failed_state_with_rules:
  "let e = fst (reload sample_libs (sample_env (\<lambda>_. None) False) (engine_new sample_config));
       e' = fst (reload sample_libs (sample_env (\<lambda>_. None) True) e)
   in st_state (he_status e') = Failed \<and> 0 < prev_count e'"
  by code_simp

text \<open>A refresh interval large enough to overflow an instant passes validation and makes the
  refresh task panic.\<close>

lemma refresh_interval_overflow:
  "let config = sample_config\<lparr>fc_refresh_interval_hours := 2562047788015216\<rparr>
   in validate_filtering config = Inr () \<and> refresh_schedule config (\<lambda>_. None) 0 = None"
  by code_simp

text \<open>Group rule sets are rebuilt under the limits of the previous configuration: the new one is
  stored only after the reload.\<close>

lemma groups_use_previous_limits:
  assumes "reload_with_config L R config e = (e', Done (Inr n))" and "fc_enabled config"
  shows "\<exists>m. rebuild_groups_loop L (re_group_clock R) (he_config e) m (he_group_snapshots e) (he_group_defs e) (\<lambda>_. None) =
    Some (he_group_snapshots e')"
  using assms
  by (auto simp: reload_with_config_def reload_internal_def finish_reload_def set_status_def set_snapshot_def Let_def rebuild_group_snapshots_def
      split: prod.splits reload_result.splits sum.splits option.splits if_splits)

end
