(* ===== verification/Dns_Message.thy ===== *)
theory Dns_Message
  imports Domain_Names Rust_Net
begin

text \<open>
  The shape of DNS messages as the \<^verbatim>\<open>hickory-proto\<close> types present it to the modelled code: only
  the fields the code reads or writes.  Names are an abstract type \<open>'n\<close> whose equality is
  \<^verbatim>\<open>Name::eq\<close>; what the code asks of names, record types and the encoder is collected in
  the record \<open>dns_lib\<close>: text and zone tests of names, the class of DNSSEC types, the length of
  an encoded message, the punycode decoder, \<^verbatim>\<open>Edns::new\<close>, what \<^verbatim>\<open>Edns::set_max_payload\<close> stores, and
  \<^verbatim>\<open>RRSIG::authenticated_ttl\<close>.  A record's type is the type of its data, as
  \<^verbatim>\<open>Record::record_type\<close> computes it; \<open>SigData\<close> is a signature (the legacy SIG form when the flag
  is set) with the type it covers.
\<close>

datatype 'n rdata =
    AData "32 word"
  | AaaaData "128 word"
  | CnameData 'n
  | PtrData 'n
  | TxtData "rstr list"
  | SoaData (soa_minimum: nat)
  | SigData bool nat "nat list"
  | OtherData nat "nat list"

record 'n rr =
  rr_name :: 'n
  rr_ttl :: nat
  rr_data :: "'n rdata"

definition type_a :: nat where "type_a = 1"
definition type_cname :: nat where "type_cname = 5"
definition type_soa :: nat where "type_soa = 6"
definition type_ptr :: nat where "type_ptr = 12"
definition type_txt :: nat where "type_txt = 16"
definition type_aaaa :: nat where "type_aaaa = 28"
definition type_sig :: nat where "type_sig = 24"
definition type_rrsig :: nat where "type_rrsig = 46"
definition type_nsec :: nat where "type_nsec = 47"
definition type_dnskey :: nat where "type_dnskey = 48"
definition type_nsec3 :: nat where "type_nsec3 = 50"
definition type_any :: nat where "type_any = 255"

definition rr_type :: "'n rr \<Rightarrow> nat" where
  "rr_type r =
     (case rr_data r of
        AData _ \<Rightarrow> type_a
      | AaaaData _ \<Rightarrow> type_aaaa
      | CnameData _ \<Rightarrow> type_cname
      | PtrData _ \<Rightarrow> type_ptr
      | TxtData _ \<Rightarrow> type_txt
      | SoaData _ \<Rightarrow> type_soa
      | SigData legacy _ _ \<Rightarrow> if legacy then type_sig else type_rrsig
      | OtherData t _ \<Rightarrow> t)"

lemmas type_codes = type_a_def type_cname_def type_soa_def type_ptr_def type_txt_def type_aaaa_def type_any_def

definition rcode_noerror :: nat where "rcode_noerror = 0"
definition rcode_formerr :: nat where "rcode_formerr = 1"
definition rcode_servfail :: nat where "rcode_servfail = 2"
definition rcode_nxdomain :: nat where "rcode_nxdomain = 3"
definition rcode_notimp :: nat where "rcode_notimp = 4"
definition rcode_refused :: nat where "rcode_refused = 5"
definition rcode_badvers :: nat where "rcode_badvers = 16"
definition opcode_query :: nat where "opcode_query = 0"

text \<open>\<^verbatim>\<open>ClientSubnet\<close>: address, source prefix, scope prefix\<close>

type_synonym client_subnet = "ip_addr \<times> nat \<times> nat"

text \<open>The client subnet option is a field of its own; the other options are pairs of a code and
  data.\<close>

record edns =
  ed_version :: nat
  ed_max_payload :: nat
  ed_dnssec_ok :: bool
  ed_subnet :: "client_subnet option"
  ed_options :: "(nat \<times> nat list) list"

record 'n query =
  qu_name :: 'n
  qu_type :: nat
  qu_class :: nat

record 'n message =
  ms_id :: nat
  ms_response :: bool
  ms_op_code :: nat
  ms_truncation :: bool
  ms_recursion_desired :: bool
  ms_recursion_available :: bool
  ms_rcode :: nat
  ms_authentic_data :: bool
  ms_checking_disabled :: bool
  ms_queries :: "'n query list"
  ms_answers :: "'n rr list"
  ms_authorities :: "'n rr list"
  ms_additionals :: "'n rr list"
  ms_edns :: "edns option"

record 'n dns_lib =
  dl_ascii :: "'n \<Rightarrow> rstr"
  dl_zone_of :: "'n \<Rightarrow> 'n \<Rightarrow> bool"
  dl_is_dnssec :: "nat \<Rightarrow> bool"
  dl_encoded_len :: "'n message \<Rightarrow> nat option"
  dl_puny :: puny_decoder
  dl_edns_new :: edns
  dl_payload :: "nat \<Rightarrow> nat"
  dl_auth_ttl :: "nat list \<Rightarrow> 'n rr \<Rightarrow> nat \<Rightarrow> nat"

text \<open>\<^verbatim>\<open>Message::new\<close> with the response type: every flag off, no error, empty sections\<close>

definition message_response :: "nat \<Rightarrow> nat \<Rightarrow> 'n message" where
  "message_response i op =
     \<lparr>ms_id = i, ms_response = True, ms_op_code = op, ms_truncation = False, ms_recursion_desired = False,
      ms_recursion_available = False, ms_rcode = rcode_noerror, ms_authentic_data = False,
      ms_checking_disabled = False, ms_queries = [], ms_answers = [], ms_authorities = [], ms_additionals = [],
      ms_edns = None\<rparr>"

text \<open>\<^verbatim>\<open>Record::from_rdata\<close>\<close>

definition from_rdata :: "'n \<Rightarrow> nat \<Rightarrow> 'n rdata \<Rightarrow> 'n rr" where
  "from_rdata name ttl d = \<lparr>rr_name = name, rr_ttl = ttl, rr_data = d\<rparr>"

definition all_records :: "'n message \<Rightarrow> 'n rr list" where
  "all_records m = ms_answers m @ ms_authorities m @ ms_additionals m"

end
