(* ===== verification/Dns_Cache.thy ===== *)
theory Dns_Cache
  imports Dns_Message Config_Model "HOL-Library.AList"
begin

text \<open>
  The response cache, \<^verbatim>\<open>crates/sito-cache/src/{key,entry,cache}.rs\<close>.

  The moka cache is a map from keys to entries that may lose entries at any time; evictions are
  steps of their own in the step relation of Cache_Correct.  The clock is an argument, in
  nanoseconds.  Operations take and return the cache state, because a lookup may invalidate an
  entry and counts a hit.  The single-flight table maps a key to a lock; which locks still have
  strong references is part of its state.
\<close>

section \<open>Keys\<close>

record cache_key =
  ck_qname :: rstr
  ck_qtype :: nat
  ck_qclass :: nat
  ck_opcode :: nat
  ck_dnssec_ok :: bool
  ck_checking_disabled :: bool
  ck_ecs :: "client_subnet option"

definition normalize_name :: "'n dns_lib \<Rightarrow> 'n \<Rightarrow> rstr" where
  "normalize_name D name =
     (let ascii = dl_ascii D name
      in if ascii = [] \<or> ascii = lit ''.'' then lit ''.''
         else case normalize_domain (dl_puny D) ascii of
             Inr d \<Rightarrow> d
           | Inl _ \<Rightarrow> to_ascii_lowercase (trim_end_matches (cc CHR ''.'') ascii))"

definition ecs_option :: "edns option \<Rightarrow> client_subnet option" where
  "ecs_option e = Option.bind e ed_subnet"

definition key_new :: "'n dns_lib \<Rightarrow> 'n \<Rightarrow> nat \<Rightarrow> nat \<Rightarrow> cache_key" where
  "key_new D name qtype qclass =
     \<lparr>ck_qname = normalize_name D name, ck_qtype = qtype, ck_qclass = qclass, ck_opcode = opcode_query,
      ck_dnssec_ok = False, ck_checking_disabled = False, ck_ecs = None\<rparr>"

definition from_query :: "'n dns_lib \<Rightarrow> 'n message \<Rightarrow> cache_key option" where
  "from_query D q =
     (case ms_queries q of
        [] \<Rightarrow> None
      | f # _ \<Rightarrow> Some
          \<lparr>ck_qname = normalize_name D (qu_name f), ck_qtype = qu_type f, ck_qclass = qu_class f,
           ck_opcode = ms_op_code q,
           ck_dnssec_ok = (case ms_edns q of None \<Rightarrow> False | Some e \<Rightarrow> ed_dnssec_ok e),
           ck_checking_disabled = ms_checking_disabled q, ck_ecs = ecs_option (ms_edns q)\<rparr>)"

definition with_flags :: "cache_key \<Rightarrow> bool \<Rightarrow> bool \<Rightarrow> cache_key" where
  "with_flags k d c = k\<lparr>ck_dnssec_ok := d, ck_checking_disabled := c\<rparr>"

definition with_ecs :: "cache_key \<Rightarrow> client_subnet option \<Rightarrow> cache_key" where
  "with_ecs k e = k\<lparr>ck_ecs := e\<rparr>"


section \<open>Entries\<close>

datatype validation_status = Secure | Insecure | Indeterminate | Unchecked

definition is_secure :: "validation_status \<Rightarrow> bool" where
  "is_secure v = (case v of Secure \<Rightarrow> True | _ \<Rightarrow> False)"

record 'n cache_entry =
  en_message :: "'n message"
  en_stored_at :: nat
  en_max_lifespan_secs :: nat
  en_answer_ttls :: "nat list"
  en_authority_ttls :: "nat list"
  en_additional_ttls :: "nat list"
  en_validation_status :: validation_status
  en_hits :: nat
  en_estimated_bytes :: nat

record 'n dns_cache =
  ca_entries :: "cache_key \<Rightarrow> 'n cache_entry option"
  ca_config :: cache_config

definition cache_new :: "cache_config \<Rightarrow> 'n dns_cache" where
  "cache_new config = \<lparr>ca_entries = (\<lambda>_. None), ca_config = config\<rparr>"

definition stale_serve_ttl :: nat where
  "stale_serve_ttl = 30"

text \<open>\<^verbatim>\<open>stored_at.elapsed().as_secs()\<close> and its narrowing to 32 bits\<close>

definition elapsed_secs64 :: "nat \<Rightarrow> 'n cache_entry \<Rightarrow> nat" where
  "elapsed_secs64 now e = (now - en_stored_at e) div 1000000000"

definition elapsed_secs :: "nat \<Rightarrow> 'n cache_entry \<Rightarrow> nat" where
  "elapsed_secs now e = as_u32 (elapsed_secs64 now e)"

definition sat_add32 :: "nat \<Rightarrow> nat \<Rightarrow> nat" where
  "sat_add32 a b = min u32_max (a + b)"

definition sat_mul32 :: "nat \<Rightarrow> nat \<Rightarrow> nat" where
  "sat_mul32 a b = min u32_max (a * b)"

definition max_stale_secs :: "cache_config \<Rightarrow> 'n cache_entry \<Rightarrow> nat" where
  "max_stale_secs config e = sat_add32 (en_max_lifespan_secs e) (sat_mul32 (ch_serve_stale_hours config) 3600)"


section \<open>Lookup\<close>

text \<open>Records with a recorded original TTL get what remains of it.\<close>

fun age_records :: "nat \<Rightarrow> nat list \<Rightarrow> 'n rr list \<Rightarrow> 'n rr list" where
  "age_records elapsed (t # ts) (r # rs) = r\<lparr>rr_ttl := t - elapsed\<rparr> # age_records elapsed ts rs"
| "age_records elapsed ts rs = rs"

definition invalidate :: "cache_key \<Rightarrow> 'n dns_cache \<Rightarrow> 'n dns_cache" where
  "invalidate k c = c\<lparr>ca_entries := (ca_entries c)(k := None)\<rparr>"

definition count_hit :: "cache_key \<Rightarrow> 'n cache_entry \<Rightarrow> 'n dns_cache \<Rightarrow> 'n dns_cache" where
  "count_hit k e c = c\<lparr>ca_entries := (ca_entries c)(k \<mapsto> e\<lparr>en_hits := as_u32 (en_hits e + 1)\<rparr>)\<rparr>"

definition get_by_key_with_status ::
  "nat \<Rightarrow> cache_key \<Rightarrow> 'n dns_cache \<Rightarrow> 'n dns_cache \<times> ('n message \<times> validation_status) option" where
  "get_by_key_with_status now k c =
     (if \<not> ch_enabled (ca_config c) then (c, None)
      else case ca_entries c k of
          None \<Rightarrow> (c, None)
        | Some e \<Rightarrow>
            (let el = elapsed_secs now e
             in if el \<ge> max_stale_secs (ca_config c) e then (invalidate k c, None)
                else if el \<ge> en_max_lifespan_secs e then (c, None)
                else (count_hit k e c,
                      Some ((en_message e)
                        \<lparr>ms_answers := age_records el (en_answer_ttls e) (ms_answers (en_message e)),
                         ms_authorities := age_records el (en_authority_ttls e) (ms_authorities (en_message e)),
                         ms_additionals := age_records el (en_additional_ttls e) (ms_additionals (en_message e))\<rparr>,
                        en_validation_status e))))"

definition get_for_query_with_status ::
  "'n dns_lib \<Rightarrow> nat \<Rightarrow> 'n message \<Rightarrow> 'n dns_cache \<Rightarrow> 'n dns_cache \<times> ('n message \<times> validation_status) option" where
  "get_for_query_with_status D now q c =
     (case from_query D q of None \<Rightarrow> (c, None) | Some k \<Rightarrow> get_by_key_with_status now k c)"

definition get_for_query :: "'n dns_lib \<Rightarrow> nat \<Rightarrow> 'n message \<Rightarrow> 'n dns_cache \<Rightarrow> 'n dns_cache \<times> 'n message option" where
  "get_for_query D now q c = apsnd (map_option fst) (get_for_query_with_status D now q c)"

definition cache_get :: "'n dns_lib \<Rightarrow> nat \<Rightarrow> 'n \<Rightarrow> nat \<Rightarrow> nat \<Rightarrow> 'n dns_cache \<Rightarrow> 'n dns_cache \<times> 'n message option" where
  "cache_get D now name qtype qclass c =
     apsnd (map_option fst) (get_by_key_with_status now (key_new D name qtype qclass) c)"

definition clear_dnssec_material :: "'n dns_lib \<Rightarrow> 'n message \<Rightarrow> 'n message" where
  "clear_dnssec_material D m =
     (let keep = filter (\<lambda>r. \<not> dl_is_dnssec D (rr_type r))
      in m\<lparr>ms_authentic_data := False, ms_answers := keep (ms_answers m),
           ms_authorities := keep (ms_authorities m), ms_additionals := keep (ms_additionals m)\<rparr>)"

definition set_ttls :: "nat \<Rightarrow> 'n message \<Rightarrow> 'n message" where
  "set_ttls t m =
     (let f = map (\<lambda>r. r\<lparr>rr_ttl := t\<rparr>)
      in m\<lparr>ms_answers := f (ms_answers m), ms_authorities := f (ms_authorities m), ms_additionals := f (ms_additionals m)\<rparr>)"

definition get_stale_by_key ::
  "'n dns_lib \<Rightarrow> nat \<Rightarrow> cache_key \<Rightarrow> 'n dns_cache \<Rightarrow> 'n dns_cache \<times> ('n message \<times> validation_status) option" where
  "get_stale_by_key D now k c =
     (if \<not> ch_enabled (ca_config c) \<or> ch_serve_stale_hours (ca_config c) = 0 then (c, None)
      else case ca_entries c k of
          None \<Rightarrow> (c, None)
        | Some e \<Rightarrow>
            if elapsed_secs now e \<ge> max_stale_secs (ca_config c) e then (invalidate k c, None)
            else (count_hit k e c,
                  Some (set_ttls stale_serve_ttl (clear_dnssec_material D (en_message e)), en_validation_status e)))"

definition get_stale_for_query_with_status ::
  "'n dns_lib \<Rightarrow> nat \<Rightarrow> 'n message \<Rightarrow> 'n dns_cache \<Rightarrow> 'n dns_cache \<times> ('n message \<times> validation_status) option" where
  "get_stale_for_query_with_status D now q c =
     (case from_query D q of None \<Rightarrow> (c, None) | Some k \<Rightarrow> get_stale_by_key D now k c)"

definition get_stale_for_query :: "'n dns_lib \<Rightarrow> nat \<Rightarrow> 'n message \<Rightarrow> 'n dns_cache \<Rightarrow> 'n dns_cache \<times> 'n message option" where
  "get_stale_for_query D now q c = apsnd (map_option fst) (get_stale_for_query_with_status D now q c)"

definition get_stale :: "'n dns_lib \<Rightarrow> nat \<Rightarrow> 'n \<Rightarrow> nat \<Rightarrow> nat \<Rightarrow> 'n dns_cache \<Rightarrow> 'n dns_cache \<times> 'n message option" where
  "get_stale D now name qtype qclass c =
     apsnd (map_option fst) (get_stale_by_key D now (key_new D name qtype qclass) c)"

definition should_prefetch_by_key :: "nat \<Rightarrow> cache_key \<Rightarrow> 'n dns_cache \<Rightarrow> bool" where
  "should_prefetch_by_key now k c =
     (if \<not> ch_enabled (ca_config c) \<or> \<not> ch_prefetch (ca_config c) then False
      else case ca_entries c k of
          None \<Rightarrow> False
        | Some e \<Rightarrow>
            (let el = elapsed_secs now e
             in if el < en_max_lifespan_secs e
                then (let remaining = en_max_lifespan_secs e - el
                      in en_hits e \<ge> 2 \<and> (remaining \<le> 10 \<or> remaining \<le> en_max_lifespan_secs e div 10))
                else False))"

definition should_prefetch :: "'n dns_lib \<Rightarrow> nat \<Rightarrow> 'n \<Rightarrow> nat \<Rightarrow> nat \<Rightarrow> 'n dns_cache \<Rightarrow> bool" where
  "should_prefetch D now name qtype qclass c = should_prefetch_by_key now (key_new D name qtype qclass) c"

definition should_prefetch_for_query :: "'n dns_lib \<Rightarrow> nat \<Rightarrow> 'n message \<Rightarrow> 'n dns_cache \<Rightarrow> bool" where
  "should_prefetch_for_query D now q c =
     (case from_query D q of None \<Rightarrow> False | Some k \<Rightarrow> should_prefetch_by_key now k c)"


section \<open>Insertion\<close>

text \<open>The first answer record that is an alias of \<open>cur\<close>: its TTL and target.\<close>

fun find_cname :: "'n \<Rightarrow> 'n rr list \<Rightarrow> (nat \<times> 'n) option" where
  "find_cname cur [] = None"
| "find_cname cur (r # rs) =
     (if rr_type r = type_cname \<and> rr_name r = cur
      then (case rr_data r of CnameData target \<Rightarrow> Some (rr_ttl r, target) | _ \<Rightarrow> find_cname cur rs)
      else find_cname cur rs)"

fun relevant_loop :: "nat \<Rightarrow> 'n rr list \<Rightarrow> 'n \<Rightarrow> 'n list \<Rightarrow> 'n list" where
  "relevant_loop 0 answers cur relevant = relevant"
| "relevant_loop (Suc k) answers cur relevant =
     (if cur \<in> set relevant then relevant
      else case find_cname cur answers of
          None \<Rightarrow> relevant @ [cur]
        | Some (_, target) \<Rightarrow> relevant_loop k answers target (relevant @ [cur]))"

definition answer_owners_are_relevant :: "'n \<Rightarrow> 'n message \<Rightarrow> bool" where
  "answer_owners_are_relevant qname m =
     (let relevant = relevant_loop 16 (ms_answers m) qname []
      in list_all (\<lambda>r. rr_name r \<in> set relevant) (ms_answers m))"

fun chain_loop :: "nat \<Rightarrow> 'n rr list \<Rightarrow> 'n \<Rightarrow> 'n list \<times> nat option \<Rightarrow> 'n list \<times> nat option" where
  "chain_loop 0 answers cur (names, min_ttl) = (names, min_ttl)"
| "chain_loop (Suc k) answers cur (names, min_ttl) =
     (if cur \<in> set names then (names, min_ttl)
      else case find_cname cur answers of
          None \<Rightarrow> (names @ [cur], min_ttl)
        | Some (ttl, target) \<Rightarrow>
            chain_loop k answers target
              (names @ [cur], Some (case min_ttl of None \<Rightarrow> ttl | Some t \<Rightarrow> min t ttl)))"

definition cname_chain :: "'n \<Rightarrow> 'n message \<Rightarrow> 'n list \<times> nat option" where
  "cname_chain qname m = chain_loop 16 (ms_answers m) qname ([], None)"

fun negative_ttl_from_soa :: "'n dns_lib \<Rightarrow> 'n rr list \<Rightarrow> 'n list \<Rightarrow> nat option" where
  "negative_ttl_from_soa D [] chain_names = None"
| "negative_ttl_from_soa D (a # as) chain_names =
     (case rr_data a of
        SoaData minimum \<Rightarrow>
          if list_ex (\<lambda>n. dl_zone_of D (rr_name a) n) chain_names then Some (min (rr_ttl a) minimum)
          else negative_ttl_from_soa D as chain_names
      | _ \<Rightarrow> negative_ttl_from_soa D as chain_names)"

fun denial_loop :: "'n rr list \<Rightarrow> bool \<times> nat \<Rightarrow> bool \<times> nat" where
  "denial_loop [] acc = acc"
| "denial_loop (r # rs) (saw_denial, min_ttl) =
     (if rr_type r = type_nsec \<or> rr_type r = type_nsec3 then denial_loop rs (True, min min_ttl (rr_ttl r))
      else if rr_type r = type_rrsig \<or> rr_type r = type_sig then denial_loop rs (saw_denial, min min_ttl (rr_ttl r))
      else denial_loop rs (saw_denial, min_ttl))"

definition denial_proof_ttl :: "'n message \<Rightarrow> nat option" where
  "denial_proof_ttl m =
     (let (saw_denial, min_ttl) = denial_loop (all_records m) (False, u32_max)
      in if saw_denial then Some min_ttl else None)"

text \<open>\<^verbatim>\<open>Ord::clamp\<close>; the callers keep the bounds in order\<close>

definition clamp :: "nat \<Rightarrow> nat \<Rightarrow> nat \<Rightarrow> nat" where
  "clamp x lo hi = (if x < lo then lo else if x > hi then hi else x)"

definition opt_ttl :: "nat option \<Rightarrow> nat" where
  "opt_ttl x = (case x of None \<Rightarrow> u32_max | Some t \<Rightarrow> t)"

text \<open>Lifespan and recorded TTLs of a negative and of a positive answer\<close>

definition negative_lifespan ::
  "'n dns_lib \<Rightarrow> cache_config \<Rightarrow> nat \<Rightarrow> validation_status \<Rightarrow> 'n \<Rightarrow> 'n message \<Rightarrow> nat option" where
  "negative_lifespan D config ttl_floor status qname m =
     (let (chain_names, cname_chain_ttl) = cname_chain qname m
      in case negative_ttl_from_soa D (ms_authorities m) chain_names of
           None \<Rightarrow> None
         | Some soa_ttl \<Rightarrow>
             (let clamped = clamp soa_ttl ttl_floor (max (ch_negative_ttl_max config) (ch_min_ttl config));
                  denial = (if is_secure status then denial_proof_ttl m else None)
              in Some (min (min clamped (opt_ttl cname_chain_ttl)) (opt_ttl denial))))"

definition positive_ttls :: "cache_config \<Rightarrow> nat \<Rightarrow> 'n rr list \<Rightarrow> nat list" where
  "positive_ttls config ttl_floor rs =
     map (\<lambda>r. clamp (rr_ttl r) ttl_floor (max (ch_max_ttl config) (ch_min_ttl config))) rs"

definition positive_lifespan :: "cache_config \<Rightarrow> nat \<Rightarrow> 'n message \<Rightarrow> nat" where
  "positive_lifespan config ttl_floor m =
     (let min_record_ttl = fold min (positive_ttls config ttl_floor (all_records m)) u32_max
      in if min_record_ttl = u32_max then ch_min_ttl config else min_record_ttl)"

definition is_negative :: "'n query \<Rightarrow> 'n message \<Rightarrow> bool" where
  "is_negative q m =
     (let has_answer = (qu_type q = type_any \<and> ms_answers m \<noteq> []) \<or>
                       list_ex (\<lambda>r. rr_type r = qu_type q) (ms_answers m)
      in ms_rcode m = rcode_nxdomain \<or> (ms_rcode m = rcode_noerror \<and> \<not> has_answer))"

text \<open>The checks before anything is stored\<close>

definition cacheable :: "'n query \<Rightarrow> 'n message \<Rightarrow> bool" where
  "cacheable q m =
     (if \<not> ms_response m then False
      else if ms_truncation m then False
      else if ms_rcode m \<noteq> rcode_noerror \<and> ms_rcode m \<noteq> rcode_nxdomain then False
      else case ms_queries m of
          [] \<Rightarrow> False
        | rq # _ \<Rightarrow>
            if \<not> (qu_name rq = qu_name q \<and> qu_type rq = qu_type q \<and> qu_class rq = qu_class q) then False
            else answer_owners_are_relevant (qu_name q) m)"

definition entry_for ::
  "'n dns_lib \<Rightarrow> nat \<Rightarrow> cache_config \<Rightarrow> cache_key \<Rightarrow> 'n query \<Rightarrow> 'n message \<Rightarrow> validation_status \<Rightarrow> 'n cache_entry option" where
  "entry_for D now config k q m status =
     (let ttl_floor = (if is_secure status then 0 else ch_min_ttl config);
          weight = as_u32 ((case dl_encoded_len D m of None \<Rightarrow> 256 | Some n \<Rightarrow> n) + str_len (ck_qname k) + 128);
          mk = (\<lambda>life ttls. \<lparr>en_message = m, en_stored_at = now, en_max_lifespan_secs = life,
                  en_answer_ttls = ttls (ms_answers m), en_authority_ttls = ttls (ms_authorities m),
                  en_additional_ttls = ttls (ms_additionals m), en_validation_status = status,
                  en_hits = 0, en_estimated_bytes = weight\<rparr>)
      in if is_negative q m
         then map_option (\<lambda>life. mk life (map (\<lambda>r. min (rr_ttl r) life)))
                (negative_lifespan D config ttl_floor status (qu_name q) m)
         else Some (mk (positive_lifespan config ttl_floor m) (positive_ttls config ttl_floor)))"

definition insert_with_status ::
  "'n dns_lib \<Rightarrow> nat \<Rightarrow> 'n message \<Rightarrow> 'n message \<Rightarrow> validation_status \<Rightarrow> 'n dns_cache \<Rightarrow> 'n dns_cache" where
  "insert_with_status D now query response status c =
     (case from_query D query of
        None \<Rightarrow> c
      | Some k \<Rightarrow>
          if \<not> ch_enabled (ca_config c) then c
          else case ms_queries query of
              [] \<Rightarrow> c
            | q # _ \<Rightarrow>
                if \<not> cacheable q response then c
                else case entry_for D now (ca_config c) k q response status of
                    None \<Rightarrow> c
                  | Some e \<Rightarrow> c\<lparr>ca_entries := (ca_entries c)(k \<mapsto> e)\<rparr>)"

definition cache_insert :: "'n dns_lib \<Rightarrow> nat \<Rightarrow> 'n message \<Rightarrow> 'n message \<Rightarrow> 'n dns_cache \<Rightarrow> 'n dns_cache" where
  "cache_insert D now query response c =
     insert_with_status D now query response (if ms_authentic_data response then Secure else Unchecked) c"


section \<open>Invalidation, resizing, configuration\<close>

definition flush :: "'n dns_cache \<Rightarrow> 'n dns_cache" where
  "flush c = c\<lparr>ca_entries := (\<lambda>_. None)\<rparr>"

definition invalidate_domain :: "'n dns_lib \<Rightarrow> rstr \<Rightarrow> 'n dns_cache \<Rightarrow> 'n dns_cache" where
  "invalidate_domain D domain c =
     (let trimmed = trim domain
      in if trimmed = [] \<or> trim_end_matches (cc CHR ''.'') trimmed = [] then flush c
         else let normalized = (case normalize_domain (dl_puny D) trimmed of
                                  Inr d \<Rightarrow> d
                                | Inl _ \<Rightarrow> to_ascii_lowercase (trim_end_matches (cc CHR ''.'') trimmed))
              in c\<lparr>ca_entries := (\<lambda>k. if ck_qname k = normalized \<or> suffix (lit ''.'' @ normalized) (ck_qname k)
                                   then None else ca_entries c k)\<rparr>)"

text \<open>\<open>listed\<close> is the old generation in moka's iteration order.\<close>

fun carry_loop ::
  "nat \<Rightarrow> nat \<Rightarrow> nat \<Rightarrow> (cache_key \<times> 'n cache_entry) list \<Rightarrow> nat \<times> nat \<Rightarrow> (cache_key \<times> 'n cache_entry) list" where
  "carry_loop now capacity stale_window [] acc = []"
| "carry_loop now capacity stale_window ((k, e) # listed) (carried, carried_bytes) =
     (if elapsed_secs64 now e \<ge> min u64_max (en_max_lifespan_secs e + stale_window)
      then carry_loop now capacity stale_window listed (carried, carried_bytes)
      else let weight = max (en_estimated_bytes e) 1
           in if carried > 0 \<and> min u64_max (carried_bytes + weight) > capacity then []
              else (k, e) # carry_loop now capacity stale_window listed
                     (carried + 1, min u64_max (carried_bytes + weight)))"

definition resize :: "nat \<Rightarrow> nat \<Rightarrow> (cache_key \<times> 'n cache_entry) list \<Rightarrow> 'n dns_cache \<Rightarrow> 'n dns_cache" where
  "resize now size_mb listed c =
     c\<lparr>ca_entries := fold (\<lambda>(k, e) m. m(k \<mapsto> e))
         (carry_loop now (sat_mul64 size_mb (1024 * 1024)) (sat_mul32 (ch_serve_stale_hours (ca_config c)) 3600) listed (0, 0))
         (\<lambda>_. None)\<rparr>"

definition update_config ::
  "nat \<Rightarrow> (cache_key \<times> 'n cache_entry) list \<Rightarrow> cache_config \<Rightarrow> 'n dns_cache \<Rightarrow> 'n dns_cache" where
  "update_config now listed config c =
     (if ch_size_mb (ca_config c) \<noteq> ch_size_mb config then resize now (ch_size_mb config) listed c else c)
       \<lparr>ca_config := config\<rparr>"


section \<open>Single flight\<close>

text \<open>Locks are numbered; \<open>sf_refs l\<close> counts the strong references of lock \<open>l\<close> (callers that
  hold it or wait for it), \<open>sf_next\<close> is a fresh number.\<close>

record flights =
  sf_table :: "(cache_key \<times> nat) list"
  sf_refs :: "nat \<Rightarrow> nat"
  sf_next :: nat

definition flights_new :: flights where
  "flights_new = \<lparr>sf_table = [], sf_refs = (\<lambda>_. 0), sf_next = 0\<rparr>"

definition single_flight :: "cache_key \<Rightarrow> flights \<Rightarrow> flights \<times> nat" where
  "single_flight k f =
     (let table = (if length (sf_table f) > 1024 then filter (\<lambda>(_, l). sf_refs f l > 0) (sf_table f) else sf_table f)
      in case map_of table k of
           Some l \<Rightarrow>
             if sf_refs f l > 0
             then (f\<lparr>sf_table := table, sf_refs := (sf_refs f)(l := sf_refs f l + 1)\<rparr>, l)
             else (f\<lparr>sf_table := AList.update k (sf_next f) table, sf_refs := (sf_refs f)(sf_next f := 1),
                     sf_next := sf_next f + 1\<rparr>, sf_next f)
         | None \<Rightarrow>
             (f\<lparr>sf_table := AList.update k (sf_next f) table, sf_refs := (sf_refs f)(sf_next f := 1),
                sf_next := sf_next f + 1\<rparr>, sf_next f))"

definition single_flight_for_query :: "'n dns_lib \<Rightarrow> 'n message \<Rightarrow> flights \<Rightarrow> flights \<times> nat option" where
  "single_flight_for_query D q f =
     (case from_query D q of None \<Rightarrow> (f, None) | Some k \<Rightarrow> apsnd Some (single_flight k f))"

definition drop_guard_ref :: "nat \<Rightarrow> flights \<Rightarrow> flights" where
  "drop_guard_ref l f = f\<lparr>sf_refs := (sf_refs f)(l := sf_refs f l - 1)\<rparr>"

end
