(* ===== verification/Cache_Correct.thy ===== *)
theory Cache_Correct
  imports Dns_Cache Config_Correct
begin

text \<open>
  Correctness of the response cache over arbitrary histories of insertions, lookups, evictions,
  invalidations, resizes and configuration changes: an answer is only ever served under the key of
  the query it was received for, never longer than its records allow, and stale answers carry
  nothing that claims authenticity.
\<close>

section \<open>Histories\<close>

definition cache_config_u32 :: "cache_config \<Rightarrow> bool" where
  "cache_config_u32 cfg \<longleftrightarrow> ch_min_ttl cfg \<le> u32_max"

text \<open>A log entry: a query, the response received for it and its validation status.\<close>

type_synonym 'n received = "'n message \<times> 'n message \<times> validation_status"

text \<open>Where an entry came from: a query with this key and a response that passed the checks.\<close>

definition entry_from :: "'n dns_lib \<Rightarrow> cache_key \<Rightarrow> 'n cache_entry \<Rightarrow> cache_config \<Rightarrow> 'n message \<Rightarrow> 'n query \<Rightarrow> bool" where
  "entry_from D k e cfg query q \<longleftrightarrow>
     cache_config_u32 cfg \<and> from_query D query = Some k \<and> (\<exists>qs. ms_queries query = q # qs) \<and>
     cacheable q (en_message e) \<and>
     entry_for D (en_stored_at e) cfg k q (en_message e) (en_validation_status e) = Some (e\<lparr>en_hits := 0\<rparr>)"

definition entry_ok :: "'n dns_lib \<Rightarrow> 'n received list \<Rightarrow> cache_key \<Rightarrow> 'n cache_entry \<Rightarrow> bool" where
  "entry_ok D log k e \<longleftrightarrow>
     (\<exists>cfg query q. entry_from D k e cfg query q \<and> (query, en_message e, en_validation_status e) \<in> set log)"

definition cache_inv :: "'n dns_lib \<Rightarrow> 'n received list \<Rightarrow> 'n dns_cache \<Rightarrow> bool" where
  "cache_inv D log c \<longleftrightarrow> cache_config_u32 (ca_config c) \<and>
     (\<forall>k e. ca_entries c k = Some e \<longrightarrow> entry_ok D log k e)"

text \<open>A step of the cache and the responses it hands to the cache\<close>

inductive cache_step :: "'n dns_lib \<Rightarrow> 'n dns_cache \<Rightarrow> 'n received list \<Rightarrow> 'n dns_cache \<Rightarrow> bool" for D where
  step_insert: "cache_step D c [(query, response, status)] (insert_with_status D now query response status c)"
| step_get: "cache_step D c [] (fst (get_by_key_with_status now k c))"
| step_stale: "cache_step D c [] (fst (get_stale_by_key D now k c))"
| step_evict: "ca_entries c' \<subseteq>\<^sub>m ca_entries c \<Longrightarrow> ca_config c' = ca_config c \<Longrightarrow> cache_step D c [] c'"
| step_flush: "cache_step D c [] (flush c)"
| step_invalidate: "cache_step D c [] (invalidate_domain D domain c)"
| step_update: "\<forall>(k, e)\<in>set listed. ca_entries c k = Some e \<Longrightarrow> cache_config_u32 cfg \<Longrightarrow>
    cache_step D c [] (update_config now listed cfg c)"

text \<open>The states a cache can be in, with the log of all responses it was given\<close>

inductive cache_reachable :: "'n dns_lib \<Rightarrow> 'n received list \<Rightarrow> 'n dns_cache \<Rightarrow> bool" for D where
  reach_cache_new: "cache_config_u32 cfg \<Longrightarrow> cache_reachable D [] (cache_new cfg)"
| reach_cache_step: "cache_reachable D log c \<Longrightarrow> cache_step D c new c' \<Longrightarrow> cache_reachable D (new @ log) c'"

lemma cache_inv_sub: "cache_inv D log c \<Longrightarrow> ca_entries c' \<subseteq>\<^sub>m ca_entries c \<Longrightarrow> ca_config c' = ca_config c \<Longrightarrow> cache_inv D log c'"
  unfolding cache_inv_def map_le_def by (metis domI)

lemma entry_ok_hits: "entry_ok D log k (e\<lparr>en_hits := h\<rparr>) = entry_ok D log k e"
  by (simp add: entry_ok_def entry_from_def)

lemma cache_inv_log: "cache_inv D log c \<Longrightarrow> set log \<subseteq> set log' \<Longrightarrow> cache_inv D log' c"
  unfolding cache_inv_def entry_ok_def by blast

lemma cache_inv_hit:
  assumes "cache_inv D log c" and "ca_entries c k = Some e"
  shows "cache_inv D log (count_hit k e c)" and "cache_inv D log (invalidate k c)"
proof -
  show "cache_inv D log (count_hit k e c)"
    using assms by (auto simp: cache_inv_def count_hit_def entry_ok_hits)
  show "cache_inv D log (invalidate k c)"
    using assms by (auto simp: cache_inv_def invalidate_def split: if_splits)
qed

lemma cache_inv_get: "cache_inv D log c \<Longrightarrow> cache_inv D log (fst (get_by_key_with_status now k c))"
  unfolding get_by_key_with_status_def Let_def
  by (auto simp: cache_inv_hit split: option.split)

lemma cache_inv_stale: "cache_inv D log c \<Longrightarrow> cache_inv D log (fst (get_stale_by_key D now k c))"
  unfolding get_stale_by_key_def by (auto simp: cache_inv_hit split: option.split)

lemma entry_for_fields:
  assumes "entry_for D now cfg k q m status = Some e"
  shows "en_message e = m" "en_stored_at e = now" "en_validation_status e = status" "en_hits e = 0"
  using assms by (auto simp: entry_for_def Let_def split: if_splits)

lemma cache_inv_insert:
  assumes "cache_inv D log c"
  shows "cache_inv D ((query, response, status) # log) (insert_with_status D now query response status c)"
proof (cases "\<exists>k q qs e. from_query D query = Some k \<and> ms_queries query = q # qs \<and> cacheable q response \<and>
    entry_for D now (ca_config c) k q response status = Some e \<and> ch_enabled (ca_config c)")
  case True
  then obtain k q qs e where h: "from_query D query = Some k" "ms_queries query = q # qs" "cacheable q response"
    "entry_for D now (ca_config c) k q response status = Some e" "ch_enabled (ca_config c)" by blast
  note f = entry_for_fields [OF h(4)]
  have "entry_from D k e (ca_config c) query q"
    using h f assms unfolding entry_from_def by (simp add: cache_inv_def)
  then have "entry_ok D ((query, response, status) # log) k e" unfolding entry_ok_def f by auto
  moreover have "cache_inv D ((query, response, status) # log) c" by (rule cache_inv_log [OF assms]) auto
  ultimately show ?thesis using h by (auto simp: insert_with_status_def cache_inv_def)
next
  case False
  then have "insert_with_status D now query response status c = c"
    by (auto simp: insert_with_status_def split: option.splits list.splits)
  moreover have "cache_inv D ((query, response, status) # log) c" by (rule cache_inv_log [OF assms]) auto
  ultimately show ?thesis by simp
qed

lemma carry_loop_sub: "set (carry_loop now cap win listed acc) \<subseteq> set listed"
  by (induction now cap win listed acc rule: carry_loop.induct) (auto simp: Let_def)

lemma fold_upd_mem: "fold (\<lambda>(k, e) m. m(k \<mapsto> e)) xs m k = Some e \<Longrightarrow> (k, e) \<in> set xs \<or> m k = Some e"
  by (induction xs arbitrary: m) (force split: if_splits)+

lemma cache_inv_update:
  assumes "cache_inv D log c" and "\<forall>(k, e)\<in>set listed. ca_entries c k = Some e" and "cache_config_u32 cfg"
  shows "cache_inv D log (update_config now listed cfg c)"
proof -
  have "ca_entries (resize now n listed c) k = Some e \<Longrightarrow> ca_entries c k = Some e" for n k e
    using fold_upd_mem [of "carry_loop now (sat_mul64 n (1024 * 1024)) (sat_mul32 (ch_serve_stale_hours (ca_config c)) 3600) listed (0, 0)" "\<lambda>_. None" k e]
      subsetD [OF carry_loop_sub, of "(k, e)" now] assms(2) by (fastforce simp: resize_def)
  with assms(1,3) show ?thesis by (auto simp: cache_inv_def update_config_def)
qed

lemma cache_step_inv: "cache_step D c new c' \<Longrightarrow> cache_inv D log c \<Longrightarrow> cache_inv D (new @ log) c'"
proof (induction rule: cache_step.induct)
  case (step_invalidate c domain)
  have "ca_entries (invalidate_domain D domain c) \<subseteq>\<^sub>m ca_entries c" "ca_config (invalidate_domain D domain c) = ca_config c"
    by (auto simp: invalidate_domain_def flush_def Let_def map_le_def)
  with step_invalidate show ?case by (simp add: cache_inv_sub)
next
  case (step_flush c)
  then show ?case by (simp add: cache_inv_def flush_def)
qed (auto simp: cache_inv_insert cache_inv_get cache_inv_stale cache_inv_update intro: cache_inv_sub)

lemma cache_reachable_inv: "cache_reachable D log c \<Longrightarrow> cache_inv D log c"
proof (induction rule: cache_reachable.induct)
  case (reach_cache_new cfg)
  then show ?case by (simp add: cache_inv_def cache_new_def)
next
  case (reach_cache_step log c new c')
  then show ?case by (blast intro: cache_step_inv)
qed


section \<open>TTL arithmetic\<close>

lemma clamp_facts: "lo \<le> hi \<Longrightarrow> lo \<le> clamp x lo hi \<and> clamp x lo hi \<le> hi" "clamp x 0 hi \<le> x" "x \<le> hi \<Longrightarrow> x \<le> clamp x lo hi"
  by (auto simp: clamp_def)

lemma age_records_facts:
  "map rr_name (age_records el ts rs) = map rr_name rs" "map rr_data (age_records el ts rs) = map rr_data rs"
  by (induction el ts rs rule: age_records.induct) auto

lemma age_records_ttl:
  assumes "length ts = length rs" and "list_all2 (\<lambda>t r. t \<le> rr_ttl r) ts rs"
  shows "list_all2 (\<lambda>s r. rr_ttl s \<le> rr_ttl r - el) (age_records el ts rs) rs"
  using assms(2) by (induction rule: list_all2_induct) auto

lemma fold_min_le: "fold min xs (m :: nat) \<le> m" "x \<in> set xs \<Longrightarrow> fold min xs m \<le> x"
proof (induction xs arbitrary: m)
  case (Cons y xs)
  { case 1 show ?case using Cons(1) [of "min y m"] by simp }
  { case 2 then show ?case using Cons(1,2) [of "min y m"] by (auto intro: order_trans [OF Cons(1)]) }
qed simp_all

lemma fold_min_in: "fold min xs (m :: nat) = m \<or> fold min xs m \<in> set xs"
  by (induction xs arbitrary: m) (auto simp: min_def)

lemma positive_lifespan_le:
  assumes "r \<in> set (all_records m)" and "cache_config_u32 cfg"
  shows "positive_lifespan cfg 0 m \<le> rr_ttl r"
proof -
  let ?hi = "max (ch_max_ttl cfg) (ch_min_ttl cfg)"
  let ?ts = "positive_ttls cfg 0 (all_records m)"
  have "clamp (rr_ttl r) 0 ?hi \<in> set ?ts" using assms(1) by (auto simp: positive_ttls_def)
  from fold_min_le(2) [OF this] clamp_facts(2) [of "rr_ttl r" ?hi] have "fold min ?ts u32_max \<le> rr_ttl r" by (rule order_trans)
  with assms(2) show ?thesis by (auto simp: positive_lifespan_def Let_def cache_config_u32_def)
qed

lemma negative_has_answer: "\<not> is_negative q m \<Longrightarrow> cacheable q m \<Longrightarrow> ms_answers m \<noteq> []"
  by (auto simp: is_negative_def cacheable_def Let_def split: if_splits)


lemma get_hit:
  assumes "get_by_key_with_status now k c = (c', Some (m, status))"
  obtains e where "ca_entries c k = Some e" "elapsed_secs now e < en_max_lifespan_secs e" "status = en_validation_status e"
    "m = (en_message e)
        \<lparr>ms_answers := age_records (elapsed_secs now e) (en_answer_ttls e) (ms_answers (en_message e)),
         ms_authorities := age_records (elapsed_secs now e) (en_authority_ttls e) (ms_authorities (en_message e)),
         ms_additionals := age_records (elapsed_secs now e) (en_additional_ttls e) (ms_additionals (en_message e))\<rparr>"
  using assms that
  by (auto simp: get_by_key_with_status_def Let_def split: if_splits option.splits)

lemma reachable_entry:
  assumes "cache_reachable D log c" and "ca_entries c k = Some e"
  obtains cfg query q where "entry_from D k e cfg query q" and "(query, en_message e, en_validation_status e) \<in> set log"
  using cache_reachable_inv [OF assms(1)] assms(2) that unfolding cache_inv_def entry_ok_def by blast

lemma entry_for_negative:
  assumes "entry_for D now cfg k q m status = Some e" and "is_negative q m"
  shows "\<exists>life. negative_lifespan D cfg (if is_secure status then 0 else ch_min_ttl cfg) status (qu_name q) m = Some life \<and>
    en_max_lifespan_secs e = life \<and> en_answer_ttls e = map (\<lambda>r. min (rr_ttl r) life) (ms_answers m)"
  using assms by (auto simp: entry_for_def Let_def)

lemma entry_for_positive:
  assumes "entry_for D now cfg k q m status = Some e" and "\<not> is_negative q m"
  shows "en_max_lifespan_secs e = positive_lifespan cfg (if is_secure status then 0 else ch_min_ttl cfg) m"
    and "en_answer_ttls e = positive_ttls cfg (if is_secure status then 0 else ch_min_ttl cfg) (ms_answers m)"
  using assms by (auto simp: entry_for_def Let_def)

lemma entry_from_ttls:
  assumes "entry_from D k e cfg query q" and "is_secure (en_validation_status e)"
  shows "list_all2 (\<lambda>t r. t \<le> rr_ttl r) (en_answer_ttls e) (ms_answers (en_message e))"
    and "\<not> is_negative q (en_message e) \<Longrightarrow> r \<in> set (all_records (en_message e)) \<Longrightarrow> en_max_lifespan_secs e \<le> rr_ttl r"
proof -
  let ?m = "en_message e"
  have f: "entry_for D (en_stored_at e) cfg k q ?m (en_validation_status e) = Some (e\<lparr>en_hits := 0\<rparr>)"
    and u: "cache_config_u32 cfg" using assms(1) by (simp_all add: entry_from_def)
  have neg: "list_all2 (\<lambda>t r. t \<le> rr_ttl r) (map (\<lambda>r. min (rr_ttl r) life) rs) rs" for life and rs :: "'a rr list"
    by (induction rs) simp_all
  have pos: "list_all2 (\<lambda>t r. t \<le> rr_ttl r) (positive_ttls cfg 0 rs) rs" for rs :: "'a rr list"
    by (induction rs) (simp_all add: positive_ttls_def clamp_facts)
  show "list_all2 (\<lambda>t r. t \<le> rr_ttl r) (en_answer_ttls e) (ms_answers ?m)"
  proof (cases "is_negative q ?m")
    case True
    from entry_for_negative [OF f this] show ?thesis using neg by auto
  next
    case False
    from entry_for_positive(2) [OF f this] show ?thesis using pos assms(2) by simp
  qed
  show "en_max_lifespan_secs e \<le> rr_ttl r" if "\<not> is_negative q ?m" "r \<in> set (all_records ?m)"
    using entry_for_positive(1) [OF f that(1)] positive_lifespan_le [OF that(2) u] assms(2) by simp
qed

lemma relevant_chain: "relevant_loop k rs cur names = fst (chain_loop k rs cur (names, t))"
  by (induction k arbitrary: cur names t) (auto split: option.splits)

lemma chain_ttl_le:
  "snd (chain_loop k rs cur (names, t)) = Some x \<Longrightarrow> t = Some y \<Longrightarrow> x \<le> y"
  by (induction k arbitrary: cur names t y) (fastforce split: option.splits if_splits)+


lemma negative_ttl_soa:
  "negative_ttl_from_soa D auths names = Some s \<Longrightarrow>
    \<exists>a\<in>set auths. rr_type a = type_soa \<and> (\<exists>n\<in>set names. dl_zone_of D (rr_name a) n)"
proof (induction auths)
  case (Cons a auths)
  show ?case
  proof (cases "\<exists>m. rr_data a = SoaData m \<and> list_ex (\<lambda>n. dl_zone_of D (rr_name a) n) names")
    case True
    then show ?thesis by (auto simp: rr_type_def list_ex_iff)
  next
    case False
    then have "negative_ttl_from_soa D (a # auths) names = negative_ttl_from_soa D auths names"
      by (cases "rr_data a") simp_all
    with Cons show ?thesis by auto
  qed
qed simp


section \<open>Single flight\<close>

text \<open>Callers take a lock for a key and later let go of it; the list holds who has which lock.\<close>

inductive flights_reachable :: "flights \<Rightarrow> (cache_key \<times> nat) list \<Rightarrow> bool" where
  flights_start: "flights_reachable flights_new []"
| flights_take: "flights_reachable f hs \<Longrightarrow> single_flight k f = (f', l) \<Longrightarrow> flights_reachable f' ((k, l) # hs)"
| flights_drop: "flights_reachable f (hs @ (k, l) # hs') \<Longrightarrow> flights_reachable (drop_guard_ref l f) (hs @ hs')"

definition flights_inv :: "flights \<Rightarrow> (cache_key \<times> nat) list \<Rightarrow> bool" where
  "flights_inv f hs \<longleftrightarrow> distinct (map fst (sf_table f)) \<and> inj_on snd (set (sf_table f)) \<and>
     set hs \<subseteq> set (sf_table f) \<and> (\<forall>l\<in>snd ` set (sf_table f). l < sf_next f) \<and>
     (\<forall>l. sf_refs f l = count_list (map snd hs) l)"

lemma flights_refs:
  assumes "flights_inv f hs" and "(k, l) \<in> set hs"
  shows "sf_refs f l > 0"
  using assms unfolding flights_inv_def by (metis count_list_0_iff gr0I image_eqI list.set_map snd_conv)

lemma flights_prune:
  assumes "flights_inv f hs"
  shows "flights_inv (f\<lparr>sf_table := filter (\<lambda>(_, l). sf_refs f l > 0) (sf_table f)\<rparr>) hs"
proof -
  have "set hs \<subseteq> set (filter (\<lambda>(_, l). sf_refs f l > 0) (sf_table f))"
    using assms flights_refs [OF assms] by (auto simp: flights_inv_def)
  with assms show ?thesis
    by (auto simp: flights_inv_def distinct_map_filter intro: inj_on_subset)
qed

lemma flights_share:
  assumes "flights_inv f hs" and "map_of (sf_table f) k = Some l"
  shows "flights_inv (f\<lparr>sf_refs := (sf_refs f)(l := sf_refs f l + 1)\<rparr>) ((k, l) # hs)"
  using assms map_of_SomeD [OF assms(2)] by (simp add: flights_inv_def)

lemma flights_fresh:
  assumes "flights_inv f hs" and "\<And>l. (k, l) \<notin> set hs"
  shows "flights_inv (f\<lparr>sf_table := AList.update k (sf_next f) (sf_table f), sf_refs := (sf_refs f)(sf_next f := 1),
           sf_next := sf_next f + 1\<rparr>) ((k, sf_next f) # hs)"
proof -
  let ?t = "AList.update k (sf_next f) (sf_table f)"
  have d: "distinct (map fst (sf_table f))" and less: "\<forall>l\<in>snd ` set (sf_table f). l < sf_next f"
    and hs: "set hs \<subseteq> set (sf_table f)" and inj: "inj_on snd (set (sf_table f))"
    and refs: "\<forall>l. sf_refs f l = count_list (map snd hs) l" using assms(1) by (simp_all add: flights_inv_def)
  have t: "(a, b) \<in> set ?t \<longleftrightarrow> (if a = k then b = sf_next f else (a, b) \<in> set (sf_table f))" for a b
    using map_of_eq_Some_iff [OF distinct_update [OF d], of k "sf_next f" a b] map_of_eq_Some_iff [OF d, of a b]
    by (cases "a = k") (auto simp: update_conv)
  have sub: "set ((k, sf_next f) # hs) \<subseteq> set ?t" using hs assms(2) by (auto simp: t)
  have b: "\<forall>l\<in>snd ` set ?t. l < sf_next f + 1" using less by (force simp: t split: if_splits)
  have inj': "inj_on snd (set ?t)"
  proof (rule inj_onI)
    fix x y assume h: "x \<in> set ?t" "y \<in> set ?t" "snd x = snd y"
    obtain a b a' b' where xy: "x = (a, b)" "y = (a', b')" by fastforce
    have "b < sf_next f" if "(a, b) \<in> set (sf_table f)" for a b using less that by force
    with h xy show "x = y" using inj_onD [OF inj, of x y] by (auto simp: t split: if_splits)
  qed
  have "sf_next f \<notin> snd ` set hs" using hs less by force
  then have "count_list (map snd hs) (sf_next f) = 0" by (simp add: count_list_0_iff)
  with refs d sub b inj' show ?thesis by (simp add: flights_inv_def distinct_update)
qed

lemma flights_inv_take:
  assumes "flights_inv f hs" and "single_flight k f = (f', l)"
  shows "flights_inv f' ((k, l) # hs)"
proof -
  define g where "g = (if length (sf_table f) > 1024
    then f\<lparr>sf_table := filter (\<lambda>(_, l). sf_refs f l > 0) (sf_table f)\<rparr> else f)"
  have g: "flights_inv g hs" using assms(1) flights_prune by (simp add: g_def)
  have fields: "sf_refs g = sf_refs f" "sf_next g = sf_next f" by (simp_all add: g_def)
  have eq: "(f', l) = (case map_of (sf_table g) k of
      Some l \<Rightarrow> if sf_refs g l > 0 then (g\<lparr>sf_refs := (sf_refs g)(l := sf_refs g l + 1)\<rparr>, l)
        else (g\<lparr>sf_table := AList.update k (sf_next g) (sf_table g), sf_refs := (sf_refs g)(sf_next g := 1),
                sf_next := sf_next g + 1\<rparr>, sf_next g)
    | None \<Rightarrow> (g\<lparr>sf_table := AList.update k (sf_next g) (sf_table g), sf_refs := (sf_refs g)(sf_next g := 1),
                sf_next := sf_next g + 1\<rparr>, sf_next g))"
    using assms(2) by (auto simp: single_flight_def g_def Let_def split: option.splits)
  have held: "map_of (sf_table g) k = Some l'" if "(k, l') \<in> set hs" for l'
    using g that by (auto simp: flights_inv_def)
  show ?thesis
  proof (cases "\<exists>l'. map_of (sf_table g) k = Some l' \<and> sf_refs g l' > 0")
    case True
    with eq show ?thesis using flights_share [OF g] by auto
  next
    case False
    then have "(k, l') \<notin> set hs" for l' using held flights_refs [OF g] by blast
    from flights_fresh [OF g this] eq False show ?thesis by (auto split: option.splits)
  qed
qed

lemma flights_reachable_inv: "flights_reachable f hs \<Longrightarrow> flights_inv f hs"
proof (induction rule: flights_reachable.induct)
  case flights_start
  then show ?case by (simp add: flights_inv_def flights_new_def)
next
  case (flights_take f hs k f' l)
  then show ?case by (blast intro: flights_inv_take)
next
  case (flights_drop f hs k l hs')
  then show ?case by (auto simp: flights_inv_def drop_guard_ref_def)
qed


section \<open>An example history\<close>

text \<open>Names as text, and one authenticated answer received at second 100 and read at second 110\<close>

definition sample_dns :: "rstr dns_lib" where
  "sample_dns = \<lparr>dl_ascii = (\<lambda>n. n), dl_zone_of = (\<lambda>z n. suffix z n),
     dl_is_dnssec = (\<lambda>t. t \<in> {type_sig, type_rrsig, type_nsec, type_nsec3}),
     dl_encoded_len = (\<lambda>_. Some 60), dl_puny = (\<lambda>_. None),
     dl_edns_new = \<lparr>ed_version = 0, ed_max_payload = 1232, ed_dnssec_ok = False, ed_subnet = None, ed_options = []\<rparr>,
     dl_payload = max 512, dl_auth_ttl = (\<lambda>_ r _. rr_ttl r)\<rparr>"

definition sample_question :: "rstr query" where
  "sample_question = \<lparr>qu_name = lit ''a.example'', qu_type = 1, qu_class = 1\<rparr>"

definition sample_query :: "rstr message" where
  "sample_query = \<lparr>ms_id = 7, ms_response = False, ms_op_code = 0, ms_truncation = False,
     ms_recursion_desired = True, ms_recursion_available = False, ms_rcode = 0, ms_authentic_data = False,
     ms_checking_disabled = False, ms_queries = [sample_question], ms_answers = [], ms_authorities = [],
     ms_additionals = [], ms_edns = None\<rparr>"

definition sample_response :: "rstr message" where
  "sample_response = sample_query\<lparr>ms_response := True, ms_authentic_data := True,
     ms_answers := [\<lparr>rr_name = lit ''a.example'', rr_ttl = 300, rr_data = AData 1\<rparr>]\<rparr>"

definition sample_nxdomain :: "rstr message" where
  "sample_nxdomain = sample_query\<lparr>ms_response := True, ms_rcode := rcode_nxdomain,
     ms_authorities := [\<lparr>rr_name = lit ''example'', rr_ttl = 900, rr_data = SoaData 7200\<rparr>]\<rparr>"

definition sample_key :: cache_key where
  "sample_key = \<lparr>ck_qname = lit ''a.example'', ck_qtype = 1, ck_qclass = 1, ck_opcode = 0, ck_dnssec_ok = False,
     ck_checking_disabled = False, ck_ecs = None\<rparr>"

definition sample_cache :: "rstr dns_cache" where
  "sample_cache = insert_with_status sample_dns 100000000000 sample_query sample_response Secure (cache_new cache_config_default)"

definition sample_entry :: "rstr cache_entry" where
  "sample_entry = \<lparr>en_message = sample_response, en_stored_at = 100000000000, en_max_lifespan_secs = 300,
     en_answer_ttls = [300], en_authority_ttls = [], en_additional_ttls = [], en_validation_status = Secure,
     en_hits = 0, en_estimated_bytes = 197\<rparr>"

lemmas sample_defs = sample_dns_def sample_question_def sample_query_def sample_response_def sample_nxdomain_def
  sample_key_def sample_entry_def cache_config_default_def

lemma sample_normalize: "normalize_domain (dl_puny sample_dns) (lit ''a.example'') = Inr (lit ''a.example'')"
  by code_simp

lemma sample_from_query: "from_query sample_dns sample_query = Some sample_key"
  using sample_normalize
  by (simp add: from_query_def normalize_name_def sample_defs ecs_option_def Let_def) (simp add: lit_simps)

lemma sample_cacheable: "cacheable sample_question sample_response"
  by code_simp

lemma sample_entry_for:
  "entry_for sample_dns 100000000000 cache_config_default sample_key sample_question sample_response Secure = Some sample_entry"
  by code_simp

lemma sample_cache_entries: "ca_entries sample_cache = [sample_key \<mapsto> sample_entry]" "ca_config sample_cache = cache_config_default"
proof -
  have q: "ms_queries sample_query = [sample_question]" "ch_enabled cache_config_default" by (simp_all add: sample_defs)
  then show "ca_entries sample_cache = [sample_key \<mapsto> sample_entry]" "ca_config sample_cache = cache_config_default"
    using sample_from_query sample_cacheable sample_entry_for
    by (simp_all add: sample_cache_def insert_with_status_def cache_new_def)
qed

lemma sample_reachable: "cache_reachable sample_dns [(sample_query, sample_response, Secure)] sample_cache"
proof -
  have "cache_reachable sample_dns [] (cache_new cache_config_default)"
    by (rule reach_cache_new) (simp add: cache_config_u32_def cache_config_default_def)
  from reach_cache_step [OF this step_insert [of _ _ sample_query sample_response Secure 100000000000]]
  show ?thesis by (simp add: sample_cache_def)
qed

definition sample_served :: "rstr message" where
  "sample_served = sample_response\<lparr>ms_answers := [\<lparr>rr_name = lit ''a.example'', rr_ttl = 290, rr_data = AData 1\<rparr>]\<rparr>"

lemma sample_get:
  "get_by_key_with_status 110000000000 sample_key sample_cache = (count_hit sample_key sample_entry sample_cache, Some (sample_served, Secure))"
proof -
  have "elapsed_secs 110000000000 sample_entry = 10" "max_stale_secs cache_config_default sample_entry = 43500"
    "en_max_lifespan_secs sample_entry = 300" "ch_enabled cache_config_default" by code_simp+
  then show ?thesis
    by (simp add: get_by_key_with_status_def sample_cache_entries Let_def sample_entry_def sample_served_def)
      (simp add: sample_defs)
qed


section \<open>Properties\<close>



text \<open>C31: an answer served as authenticated never shows a TTL above what is left
  of the TTL it was received with, and a positive one is only served while every one of its
  records is still alive.\<close>

theorem secure_ttl_respected:
  assumes "cache_reachable D log c" and "get_by_key_with_status now k c = (c', Some (m, Secure))"
  shows "\<exists>e q. ca_entries c k = Some e \<and> cacheable q (en_message e) \<and>
    map rr_data (ms_answers m) = map rr_data (ms_answers (en_message e)) \<and>
    list_all2 (\<lambda>s r. rr_ttl s \<le> rr_ttl r - elapsed_secs now e) (ms_answers m) (ms_answers (en_message e)) \<and>
    (\<not> is_negative q (en_message e) \<longrightarrow> (\<forall>r\<in>set (all_records (en_message e)). elapsed_secs now e < rr_ttl r))"
proof -
  from get_hit [OF assms(2)] obtain e where e: "ca_entries c k = Some e"
    and el: "elapsed_secs now e < en_max_lifespan_secs e" and st: "Secure = en_validation_status e"
    and m: "m = (en_message e)
        \<lparr>ms_answers := age_records (elapsed_secs now e) (en_answer_ttls e) (ms_answers (en_message e)),
         ms_authorities := age_records (elapsed_secs now e) (en_authority_ttls e) (ms_authorities (en_message e)),
         ms_additionals := age_records (elapsed_secs now e) (en_additional_ttls e) (ms_additionals (en_message e))\<rparr>" .
  from reachable_entry [OF assms(1) e] obtain cfg query q where f: "entry_from D k e cfg query q"
    and g: "(query, en_message e, en_validation_status e) \<in> set log" .
  have sec: "is_secure (en_validation_status e)" using st by (simp add: is_secure_def flip: st)
  note t = entry_from_ttls [OF f sec]
  have "list_all2 (\<lambda>s r. rr_ttl s \<le> rr_ttl r - elapsed_secs now e) (ms_answers m) (ms_answers (en_message e))"
    unfolding m using age_records_ttl [OF list_all2_lengthD [OF t(1)] t(1)] by simp
  moreover have "\<forall>r\<in>set (all_records (en_message e)). elapsed_secs now e < rr_ttl r" if "\<not> is_negative q (en_message e)"
    using t(2) [OF that] el by (fastforce intro: less_le_trans)
  moreover have "cacheable q (en_message e)" using f by (simp add: entry_from_def)
  moreover have "map rr_data (ms_answers m) = map rr_data (ms_answers (en_message e))" unfolding m by (simp add: age_records_facts)
  ultimately show ?thesis
    using e by (intro exI [of _ e] exI [of _ q]) blast
qed

theorem secure_ttl_respected_witness:
  "\<exists>e. ca_entries sample_cache sample_key = Some e \<and> ms_answers sample_served \<noteq> [] \<and>
    list_all2 (\<lambda>s r. rr_ttl s \<le> rr_ttl r - elapsed_secs 110000000000 e) (ms_answers sample_served) (ms_answers (en_message e))"
  using secure_ttl_respected [OF sample_reachable sample_get] by (auto simp: sample_served_def)

text \<open>C32: a stale answer is served only inside the configured window after the
  entry's lifespan; it has the AD flag cleared, no DNSSEC records, and every TTL is 30 seconds.\<close>

theorem stale_unauthenticated:
  assumes "get_stale_by_key D now k c = (c', Some (m, status))"
  shows "\<not> ms_authentic_data m \<and> list_all (\<lambda>r. rr_ttl r = 30 \<and> \<not> dl_is_dnssec D (rr_type r)) (all_records m) \<and>
    (\<exists>e. ca_entries c k = Some e \<and>
       elapsed_secs now e < en_max_lifespan_secs e + 3600 * ch_serve_stale_hours (ca_config c))"
proof -
  from assms obtain e where e: "ca_entries c k = Some e" "elapsed_secs now e < max_stale_secs (ca_config c) e"
    "m = set_ttls stale_serve_ttl (clear_dnssec_material D (en_message e))"
    by (auto simp: get_stale_by_key_def split: if_splits option.splits)
  have "rr_type (r\<lparr>rr_ttl := t\<rparr>) = rr_type r" for r :: "'a rr" and t by (simp add: rr_type_def)
  then have "list_all (\<lambda>r. rr_ttl r = 30 \<and> \<not> dl_is_dnssec D (rr_type r)) (all_records m)"
    unfolding e(3) by (auto simp: set_ttls_def clear_dnssec_material_def Let_def all_records_def list_all_iff stale_serve_ttl_def)
  moreover have "\<not> ms_authentic_data m" unfolding e(3) by (simp add: set_ttls_def clear_dnssec_material_def Let_def)
  moreover have "max_stale_secs (ca_config c) e \<le> en_max_lifespan_secs e + 3600 * ch_serve_stale_hours (ca_config c)"
    by (auto simp: max_stale_secs_def sat_add32_def sat_mul32_def)
  ultimately show ?thesis using e by (auto intro: less_le_trans)
qed

theorem stale_unauthenticated_witness:
  "\<exists>m. snd (get_stale_by_key sample_dns 1000000000000 sample_key sample_cache) = Some (m, Secure) \<and>
    ms_answers m \<noteq> [] \<and> \<not> ms_authentic_data m"
proof -
  have "elapsed_secs 1000000000000 sample_entry = 900" "max_stale_secs cache_config_default sample_entry = 43500"
    "ch_serve_stale_hours cache_config_default = 12" "ch_enabled cache_config_default"
    "ms_answers (set_ttls stale_serve_ttl (clear_dnssec_material sample_dns sample_response)) \<noteq> []" by code_simp+
  then have "\<exists>c' m. get_stale_by_key sample_dns 1000000000000 sample_key sample_cache = (c', Some (m, Secure)) \<and> ms_answers m \<noteq> []"
    by (simp add: get_stale_by_key_def sample_cache_entries) (simp add: sample_entry_def)
  then show ?thesis using stale_unauthenticated by fastforce
qed

text \<open>A negative answer is kept no longer than the configured negative
  maximum, than any alias on the path to it, and, when authenticated, than its denial proof; one
  without a start-of-authority record for a zone enclosing the alias chain is not kept at all.\<close>

lemma negative_lifespan_bounded:
  assumes "entry_for D now cfg k q m status = Some e" and "is_negative q m" and "validate_cache cfg = Inr ()"
  shows "en_max_lifespan_secs e \<le> ch_negative_ttl_max cfg \<and>
    pred_option (\<lambda>t. en_max_lifespan_secs e \<le> t) (snd (cname_chain (qu_name q) m)) \<and>
    (is_secure status \<longrightarrow> pred_option (\<lambda>t. en_max_lifespan_secs e \<le> t) (denial_proof_ttl m)) \<and>
    (\<exists>a\<in>set (ms_authorities m). rr_type a = type_soa \<and> (\<exists>n\<in>set (fst (cname_chain (qu_name q) m)). dl_zone_of D (rr_name a) n))"
proof -
  let ?fl = "if is_secure status then 0 else ch_min_ttl cfg"
  have ok: "ch_min_ttl cfg \<le> ch_negative_ttl_max cfg" using assms(3) by (simp add: validate_cache_iff cache_ok_def)
  from entry_for_negative [OF assms(1,2)] obtain life where l: "negative_lifespan D cfg ?fl status (qu_name q) m = Some life"
    and e: "en_max_lifespan_secs e = life" by blast
  obtain names t where ch: "cname_chain (qu_name q) m = (names, t)" by fastforce
  with l obtain s where s: "negative_ttl_from_soa D (ms_authorities m) names = Some s" and
    lf: "life = min (min (clamp s ?fl (max (ch_negative_ttl_max cfg) (ch_min_ttl cfg))) (opt_ttl t))
        (opt_ttl (if is_secure status then denial_proof_ttl m else None))"
    by (auto simp: negative_lifespan_def Let_def split: option.splits)
  have "clamp s ?fl (max (ch_negative_ttl_max cfg) (ch_min_ttl cfg)) \<le> ch_negative_ttl_max cfg"
    using ok by (auto simp: clamp_def)
  then have "life \<le> ch_negative_ttl_max cfg" unfolding lf by (simp add: min.coboundedI1)
  moreover have "pred_option (\<lambda>x. life \<le> x) t" unfolding lf by (cases t) (auto simp: opt_ttl_def)
  moreover have "is_secure status \<longrightarrow> pred_option (\<lambda>x. life \<le> x) (denial_proof_ttl m)"
    unfolding lf by (cases "denial_proof_ttl m") (auto simp: opt_ttl_def)
  moreover have "\<exists>a\<in>set (ms_authorities m). rr_type a = type_soa \<and> (\<exists>n\<in>set names. dl_zone_of D (rr_name a) n)"
    using s by (rule negative_ttl_soa)
  ultimately show ?thesis using e ch by simp
qed

lemma negative_lifespan_bounded_witness:
  "\<exists>e. entry_for sample_dns 0 cache_config_default sample_key sample_question sample_nxdomain Insecure = Some e \<and>
    en_max_lifespan_secs e \<le> 3600"
proof -
  have n: "is_negative sample_question sample_nxdomain" "validate_cache cache_config_default = Inr ()"
    "ch_negative_ttl_max cache_config_default = 3600"
    "entry_for sample_dns 0 cache_config_default sample_key sample_question sample_nxdomain Insecure \<noteq> None" by code_simp+
  then obtain e where e: "entry_for sample_dns 0 cache_config_default sample_key sample_question sample_nxdomain Insecure = Some e" by blast
  from negative_lifespan_bounded [OF e n(1,2)] e n(3) show ?thesis by simp
qed

text \<open>Invalidating a name, given as its presentation text, evicts the
  entries of every query for that name, whatever their type, class and flags.\<close>

lemma invalidate_covers_name:
  assumes "from_query D query = Some k" and "ms_queries query = q # qs"
    and "trim (dl_ascii D (qu_name q)) = dl_ascii D (qu_name q)"
  shows "ca_entries (invalidate_domain D (dl_ascii D (qu_name q)) c) k = None"
proof -
  let ?a = "dl_ascii D (qu_name q)"
  have k: "ck_qname k = normalize_name D (qu_name q)" using assms(1,2) by (simp add: from_query_def) auto
  show ?thesis
  proof (cases "trim_end_matches (cc CHR ''.'') ?a = []")
    case True
    with assms(3) show ?thesis by (simp add: invalidate_domain_def flush_def)
  next
    case False
    then have "?a \<noteq> []" "?a \<noteq> lit ''.''" by (auto simp: trim_end_matches_def lit_simps)
    with False assms(3) k show ?thesis
      by (auto simp: invalidate_domain_def normalize_name_def Let_def split: sum.splits)
  qed
qed

lemma invalidate_covers_name_witness:
  "ca_entries sample_cache sample_key \<noteq> None \<and>
   ca_entries (invalidate_domain sample_dns (lit ''a.example'') sample_cache) sample_key = None"
proof -
  have "trim (dl_ascii sample_dns (qu_name sample_question)) = dl_ascii sample_dns (qu_name sample_question)"
    "ms_queries sample_query = [sample_question]" "dl_ascii sample_dns (qu_name sample_question) = lit ''a.example''" by code_simp+
  then show ?thesis using invalidate_covers_name [OF sample_from_query, of sample_question "[]" sample_cache]
    by (simp add: sample_cache_entries)
qed

text \<open>C33: among the callers that hold or await a single-flight lock at the same time,
  two have the same lock exactly when they asked for the same key, whatever pruning of the table
  happened in between: identical queries are coalesced and different ones never wait for each
  other.\<close>

theorem single_flight_coalesces:
  assumes "flights_reachable f hs" and "(k, l) \<in> set hs" and "(k', l') \<in> set hs"
  shows "l = l' \<longleftrightarrow> k = k'"
proof -
  have inv: "flights_inv f hs" using assms(1) by (rule flights_reachable_inv)
  then have "(k, l) \<in> set (sf_table f)" "(k', l') \<in> set (sf_table f)" "inj_on snd (set (sf_table f))"
    "distinct (map fst (sf_table f))" using assms(2,3) by (auto simp: flights_inv_def)
  then show ?thesis by (metis eq_key_imp_eq_value inj_onD prod.inject snd_conv)
qed

theorem single_flight_coalesces_witness:
  "snd (single_flight sample_key (fst (single_flight sample_key flights_new))) = snd (single_flight sample_key flights_new)"
proof -
  obtain f l where 1: "single_flight sample_key flights_new = (f, l)" by fastforce
  obtain f' l' where 2: "single_flight sample_key f = (f', l')" by fastforce
  have "flights_reachable f' [(sample_key, l'), (sample_key, l)]"
    by (rule flights_take [OF flights_take [OF flights_start 1] 2])
  from single_flight_coalesces [OF this, of sample_key l' sample_key l] 1 2 show ?thesis by simp
qed

end
