(* ===== verification/Ip_Classes.thy ===== *)
theory Ip_Classes
  imports Rule_Syntax Ipv6_Text
begin

text \<open>
  Address classification for outbound connections, \<^verbatim>\<open>crates/sito-core/src/ssrf.rs\<close>, with the
  predicates of \<^verbatim>\<open>std::net\<close> it uses.  The properties compare the octet tests of the code
  with the list of networks they stand for.
\<close>

section \<open>Standard library predicates\<close>

definition v6_octets :: "128 word \<Rightarrow> nat list" where
  "v6_octets w = map (\<lambda>i. unat w div 256 ^ (15 - i) mod 256) [0..<16]"

definition is_private :: "32 word \<Rightarrow> bool" where
  "is_private v = (case octets v of
     [a, b, c, d] \<Rightarrow> a = 10 \<or> (a = 172 \<and> 16 \<le> b \<and> b \<le> 31) \<or> (a = 192 \<and> b = 168) | _ \<Rightarrow> False)"

definition is_loopback4 :: "32 word \<Rightarrow> bool" where
  "is_loopback4 v \<longleftrightarrow> octets v ! 0 = 127"

definition is_link_local4 :: "32 word \<Rightarrow> bool" where
  "is_link_local4 v \<longleftrightarrow> octets v ! 0 = 169 \<and> octets v ! 1 = 254"

definition is_broadcast :: "32 word \<Rightarrow> bool" where
  "is_broadcast v \<longleftrightarrow> octets v = [255, 255, 255, 255]"

definition is_documentation4 :: "32 word \<Rightarrow> bool" where
  "is_documentation4 v \<longleftrightarrow> take 3 (octets v) \<in> {[192, 0, 2], [198, 51, 100], [203, 0, 113]}"

definition is_unspecified4 :: "32 word \<Rightarrow> bool" where
  "is_unspecified4 v \<longleftrightarrow> octets v = [0, 0, 0, 0]"

definition is_multicast4 :: "32 word \<Rightarrow> bool" where
  "is_multicast4 v \<longleftrightarrow> 224 \<le> octets v ! 0 \<and> octets v ! 0 \<le> 239"

definition to_ipv4_mapped :: "128 word \<Rightarrow> 32 word option" where
  "to_ipv4_mapped v =
     (let o6 = v6_octets v
      in if take 12 o6 = [0, 0, 0, 0, 0, 0, 0, 0, 0, 0, 255, 255] then Some (v4_of_octets (drop 12 o6)) else None)"

definition is_loopback6 :: "128 word \<Rightarrow> bool" where
  "is_loopback6 v \<longleftrightarrow> unat v = 1"

definition is_unspecified6 :: "128 word \<Rightarrow> bool" where
  "is_unspecified6 v \<longleftrightarrow> unat v = 0"

definition is_multicast6 :: "128 word \<Rightarrow> bool" where
  "is_multicast6 v \<longleftrightarrow> (segments v ! 0) AND 0xff00 = 0xff00"


section \<open>Denied targets\<close>

definition is_denied_target_ipv4 :: "32 word \<Rightarrow> bool" where
  "is_denied_target_ipv4 v4 \<longleftrightarrow>
     (let o4 = octets v4
      in is_private v4 \<or> is_loopback4 v4 \<or> is_link_local4 v4 \<or> is_broadcast v4 \<or> is_documentation4 v4 \<or>
         is_unspecified4 v4 \<or> is_multicast4 v4 \<or>
         o4 ! 0 = 0 \<or> o4 ! 0 \<ge> 240 \<or>
         (o4 ! 0 = 100 \<and> (o4 ! 1) AND 0xc0 = 64) \<or>
         (o4 ! 0 = 192 \<and> o4 ! 1 = 0 \<and> o4 ! 2 = 0) \<or>
         (o4 ! 0 = 198 \<and> (o4 ! 1) AND 0xfe = 18) \<or>
         (o4 ! 0 = 192 \<and> o4 ! 1 = 88 \<and> o4 ! 2 = 99))"

text \<open>The address inside a translation or encapsulation prefix; \<^verbatim>\<open>!b\<close> on a byte is \<open>255 - b\<close>.\<close>

definition embedded_of :: "128 word \<Rightarrow> 32 word option" where
  "embedded_of v6 =
     (let o6 = v6_octets v6
      in if o6 ! 0 = 0 \<and> o6 ! 1 = 0x64 \<and> o6 ! 2 = 0xff \<and> o6 ! 3 = 0x9b \<and> list_all (\<lambda>b. b = 0) (take 8 (drop 4 o6))
         then Some (v4_of_octets [o6 ! 12, o6 ! 13, o6 ! 14, o6 ! 15])
         else if o6 ! 0 = 0 \<and> o6 ! 1 = 0x64 \<and> o6 ! 2 = 0xff \<and> o6 ! 3 = 0x9b \<and> o6 ! 4 = 0 \<and> o6 ! 5 = 1
         then Some (v4_of_octets [o6 ! 12, o6 ! 13, o6 ! 14, o6 ! 15])
         else if o6 ! 0 = 0x20 \<and> o6 ! 1 = 0x02
         then Some (v4_of_octets [o6 ! 2, o6 ! 3, o6 ! 4, o6 ! 5])
         else if o6 ! 0 = 0x20 \<and> o6 ! 1 = 0x01 \<and> o6 ! 2 = 0 \<and> o6 ! 3 = 0
         then Some (v4_of_octets [255 - o6 ! 12, 255 - o6 ! 13, 255 - o6 ! 14, 255 - o6 ! 15])
         else if list_all (\<lambda>b. b = 0) (take 12 o6)
         then Some (v4_of_octets [o6 ! 12, o6 ! 13, o6 ! 14, o6 ! 15])
         else None)"

fun is_denied_target_ip :: "ip_addr \<Rightarrow> bool" where
  "is_denied_target_ip (V4 v4) = is_denied_target_ipv4 v4"
| "is_denied_target_ip (V6 v6) =
     (case to_ipv4_mapped v6 of
        Some v4 \<Rightarrow> is_denied_target_ipv4 v4
      | None \<Rightarrow>
          case embedded_of v6 of
            Some v4 \<Rightarrow> is_denied_target_ipv4 v4
          | None \<Rightarrow>
              (let seg = segments v6
               in is_loopback6 v6 \<or> is_unspecified6 v6 \<or> is_multicast6 v6 \<or>
                  (seg ! 0) AND 0xfe00 = 0xfc00 \<or>
                  (seg ! 0) AND 0xffc0 = 0xfe80 \<or>
                  (seg ! 0) AND 0xffc0 = 0xfec0 \<or>
                  (seg ! 0 = 0x2001 \<and> seg ! 1 = 0x0db8) \<or>
                  (seg ! 0 = 0x0100 \<and> seg ! 1 = 0 \<and> seg ! 2 = 0 \<and> seg ! 3 = 0)))"


section \<open>The networks behind the tests\<close>

definition denied_nets4 :: "(32 word \<times> nat) list" where
  "denied_nets4 =
     [(0x00000000, 8), (0x0a000000, 8), (0x64400000, 10), (0x7f000000, 8), (0xa9fe0000, 16), (0xac100000, 12),
      (0xc0000000, 24), (0xc0000200, 24), (0xc0586300, 24), (0xc0a80000, 16), (0xc6120000, 15), (0xc6336400, 24),
      (0xcb007100, 24), (0xe0000000, 4), (0xf0000000, 4)]"

definition in_nets :: "ip_addr \<Rightarrow> (ip_addr \<times> nat) list \<Rightarrow> bool" where
  "in_nets ip nets \<longleftrightarrow> list_ex (\<lambda>(net, p). cidr_matches net p ip) nets"

definition denied_nets6 :: "(128 word \<times> nat) list" where
  "denied_nets6 =
     [(0xff000000000000000000000000000000, 8), (0xfc000000000000000000000000000000, 7),
      (0xfe800000000000000000000000000000, 10), (0xfec00000000000000000000000000000, 10),
      (0x20010db8000000000000000000000000, 32), (0x01000000000000000000000000000000, 64)]"

text \<open>Prefixes whose addresses stand for an IPv4 address: mapped, NAT64, local-use NAT64 and compatible
  addresses have it in the low 32 bits, 6to4 behind the prefix, Teredo inverted at the end.\<close>

definition low_embeddings :: "(128 word \<times> nat) list" where
  "low_embeddings =
     [(0x00000000000000000000ffff00000000, 96), (0x0064ff9b000000000000000000000000, 96),
      (0x0064ff9b000100000000000000000000, 48), (0, 96)]"

definition embedded_v4 :: "128 word \<Rightarrow> 32 word option" where
  "embedded_v4 x =
     (if in_nets (V6 x) (map (apfst V6) low_embeddings) then Some (word_of_nat (unat x mod 2 ^ 32))
      else if cidr_matches (V6 0x20020000000000000000000000000000) 16 (V6 x) then Some (word_of_nat (unat x div 2 ^ 80 mod 2 ^ 32))
      else if cidr_matches (V6 0x20010000000000000000000000000000) 32 (V6 x) then Some (NOT (word_of_nat (unat x mod 2 ^ 32)))
      else None)"


section \<open>Digits and prefixes\<close>

text \<open>The \<open>W\<close> digits of \<open>X\<close> to the base \<open>2 ^ b\<close>, most significant first\<close>

definition digits :: "nat \<Rightarrow> nat \<Rightarrow> nat \<Rightarrow> nat list" where
  "digits b W X = map (\<lambda>i. X div (2 ^ b) ^ (W - 1 - i) mod 2 ^ b) [0..<W]"

lemma digits_std: "octets v = digits 8 4 (unat v)" "v6_octets x = digits 8 16 (unat x)" "segments x = digits 16 8 (unat x)"
  by (simp_all add: digits_def octets_def v6_octets_def segments_def)

lemma digits_length [simp]: "length (digits b W X) = W"
  by (simp add: digits_def)

lemma digits_nth [simp]: "i < W \<Longrightarrow> digits b W X ! i = X div (2 ^ b) ^ (W - 1 - i) mod 2 ^ b"
  by (simp add: digits_def)

lemma digits_lt: "i < W \<Longrightarrow> digits b W X ! i < 2 ^ b"
  by simp

lemma pair_eq_iff: "d < m \<Longrightarrow> d' < m \<Longrightarrow> a * m + d = a' * m + d' \<longleftrightarrow> a = a' \<and> d = (d' :: nat)"
proof
  assume d: "d < m" "d' < m" and e: "a * m + d = a' * m + d'"
  have "(a * m + d) div m = a" "(a' * m + d') div m = a'" using d by simp_all
  with e show "a = a' \<and> d = d'" by simp
qed simp

lemma digits_high:
  assumes "X < (2 ^ b) ^ W" "Y < (2 ^ b) ^ W" "k \<le> W"
  shows "X div (2 ^ b) ^ (W - k) = Y div (2 ^ b) ^ (W - k) \<longleftrightarrow> take k (digits b W X) = take k (digits b W Y)"
  using assms(3)
proof (induction k)
  case 0
  then show ?case using assms by simp
next
  case (Suc k)
  have e: "W - k = Suc (W - Suc k)" using Suc.prems by simp
  have "Z div (2 ^ b) ^ (W - Suc k) = Z div (2 ^ b) ^ (W - k) * 2 ^ b + digits b W Z ! k" for Z
    using div_pow_step [of Z "2 ^ b" "W - Suc k"] Suc.prems e by simp
  then have "X div (2 ^ b) ^ (W - Suc k) = Y div (2 ^ b) ^ (W - Suc k) \<longleftrightarrow>
      X div (2 ^ b) ^ (W - k) = Y div (2 ^ b) ^ (W - k) \<and> digits b W X ! k = digits b W Y ! k"
    using Suc.prems pair_eq_iff [of "digits b W X ! k" "2 ^ b" "digits b W Y ! k"] by (simp del: digits_nth add: digits_lt)
  also have "\<dots> \<longleftrightarrow> take (Suc k) (digits b W X) = take (Suc k) (digits b W Y)"
    using Suc by (simp add: take_Suc_conv_app_nth del: digits_nth)
  finally show ?case .
qed

lemma digits_prefix:
  assumes "X < (2 ^ b) ^ W" "Y < (2 ^ b) ^ W" "k < W" "r < b"
  shows "X div 2 ^ (b * W - (b * k + r)) = Y div 2 ^ (b * W - (b * k + r)) \<longleftrightarrow>
    take k (digits b W X) = take k (digits b W Y) \<and> digits b W X ! k div 2 ^ (b - r) = digits b W Y ! k div 2 ^ (b - r)"
proof -
  obtain j where W: "W = Suc (k + j)" using assms(3) less_iff_Suc_add by blast
  obtain s where b: "b = r + s" using assms(4) less_imp_add_positive by blast
  have "Z div 2 ^ (b * W - (b * k + r)) = Z div (2 ^ b) ^ (W - k) * 2 ^ r + digits b W Z ! k div 2 ^ s" for Z
  proof -
    have "b * W - (b * k + r) = b * j + s" by (simp add: W b algebra_simps)
    then have "Z div 2 ^ (b * W - (b * k + r)) = Z div (2 ^ b) ^ j div 2 ^ s"
      by (simp add: power_add power_mult div_mult2_eq)
    also have "Z div (2 ^ b) ^ j = digits b W Z ! k + (Z div (2 ^ b) ^ (W - k) * 2 ^ r) * 2 ^ s"
      using div_pow_step [of Z "2 ^ b" j] by (simp add: W) (simp add: b power_add ac_simps)
    finally show ?thesis by simp
  qed
  moreover have "digits b W Z ! k div 2 ^ s < 2 ^ r" for Z
    using digits_lt [OF assms(3), of b Z] unfolding b power_add by (rule less_mult_imp_div_less)
  ultimately show ?thesis
    using pair_eq_iff digits_high [OF assms(1,2), of k] assms(3) by (simp add: b del: digits_nth)
qed

lemma drop_bit_unat: "drop_bit n a = drop_bit n b \<longleftrightarrow> unat a div 2 ^ n = unat b div 2 ^ n" for a b :: "'a::len word"
proof -
  have "unat (drop_bit n w) = unat w div 2 ^ n" for w :: "'a word"
    by (simp only: unat_drop_bit_eq) (simp add: drop_bit_eq_div)
  then show ?thesis by (simp only: word_unat_eq_iff)
qed

lemma cidr_v4_octets:
  assumes "k < 4" "r < 8"
  shows "cidr_matches (V4 n) (8 * k + r) (V4 t) \<longleftrightarrow>
    take k (octets n) = take k (octets t) \<and> octets n ! k div 2 ^ (8 - r) = octets t ! k div 2 ^ (8 - r)"
proof -
  have "cidr_matches (V4 n) p (V4 t) \<longleftrightarrow> unat n div 2 ^ (32 - p) = unat t div 2 ^ (32 - p)" if "p < 32" for p
    using that mask_and_eq_iff [of n "32 - p" t] drop_bit_unat [of "32 - p" n t]
      unsigned_less [of n, where ?'a = nat] unsigned_less [of t, where ?'a = nat]
    by (cases "p = 0") (simp_all add: cidr_matches_def Let_def)
  then show ?thesis
    using digits_prefix [of "unat n" 8 4 "unat t" k r] assms unsigned_less [of n, where ?'a = nat]
      unsigned_less [of t, where ?'a = nat] by (simp add: digits_std del: digits_nth)
qed

lemma cidr_v6_digits:
  assumes "(b, W) \<in> {(8, 16), (16, 8)}" and "k < W" "r < b"
  shows "cidr_matches (V6 n) (b * k + r) (V6 t) \<longleftrightarrow>
    take k (digits b W (unat n)) = take k (digits b W (unat t)) \<and>
    digits b W (unat n) ! k div 2 ^ (b - r) = digits b W (unat t) ! k div 2 ^ (b - r)"
proof -
  have "cidr_matches (V6 n) p (V6 t) \<longleftrightarrow> unat n div 2 ^ (128 - p) = unat t div 2 ^ (128 - p)" if "p < 128" for p
    using that mask_and_eq_iff [of n "128 - p" t] drop_bit_unat [of "128 - p" n t]
      unsigned_less [of n, where ?'a = nat] unsigned_less [of t, where ?'a = nat]
    by (cases "p = 0") (simp_all add: cidr_matches_def Let_def)
  then show ?thesis
    using digits_prefix [of "unat n" b W "unat t" k r] assms unsigned_less [of n, where ?'a = nat]
      unsigned_less [of t, where ?'a = nat] by (auto simp del: digits_nth)
qed

lemma high_mask:
  assumes "(a :: nat) < 2 ^ m" and "k \<le> m"
  shows "a AND (2 ^ m - 2 ^ k) = c * 2 ^ k \<longleftrightarrow> a div 2 ^ k = c"
proof -
  have "(2 ^ m - 2 ^ k :: nat) = push_bit k (mask (m - k))"
    using assms(2) by (simp add: push_bit_eq_mult mask_eq_exp_minus_1 diff_mult_distrib flip: power_add)
  moreover have "a AND push_bit k (mask (m - k)) = push_bit k (drop_bit k a)"
  proof (rule bit_eqI)
    fix i
    have "i < m" if "bit a i"
    proof (rule ccontr)
      assume "\<not> i < m"
      then have "(2 :: nat) ^ m \<le> 2 ^ i" by simp
      with assms(1) have "a < 2 ^ i" by (rule order_less_le_trans)
      with that show False by (simp add: bit_iff_odd)
    qed
    then show "bit (a AND push_bit k (mask (m - k))) i = bit (push_bit k (drop_bit k a)) i"
      using assms(2) by (auto simp: bit_simps diff_less_mono)
  qed
  ultimately show ?thesis by (simp add: push_bit_eq_mult drop_bit_eq_div)
qed

lemma div_eq_between: "0 < q \<Longrightarrow> m div q = n \<longleftrightarrow> n * q \<le> m \<and> m < Suc n * (q :: nat)"
  by (metis div_nat_eqI dividend_less_div_times div_times_less_eq_dividend mult.commute mult_Suc)

lemma octets_cases:
  obtains a b c d where "octets w = [a, b, c, d]" "a < 256" "b < 256" "c < 256" "d < 256"
  by (rule that) (auto simp: octets_def upt_rec)


lemma octets_nets:
  "octets 0 = [0, 0, 0, 0]" "octets 0x0a000000 = [10, 0, 0, 0]" "octets 0x64400000 = [100, 64, 0, 0]" "octets 0x7f000000 = [127, 0, 0, 0]" "octets 0xa9fe0000 = [169, 254, 0, 0]" "octets 0xac100000 = [172, 16, 0, 0]" "octets 0xc0000000 = [192, 0, 0, 0]" "octets 0xc0000200 = [192, 0, 2, 0]" "octets 0xc0586300 = [192, 88, 99, 0]" "octets 0xc0a80000 = [192, 168, 0, 0]" "octets 0xc6120000 = [198, 18, 0, 0]" "octets 0xc6336400 = [198, 51, 100, 0]" "octets 0xcb007100 = [203, 0, 113, 0]" "octets 0xe0000000 = [224, 0, 0, 0]" "octets 0xf0000000 = [240, 0, 0, 0]"
  by code_simp+


section \<open>Properties\<close>

text \<open>C34: an IPv4 target is denied exactly when it lies in one of fifteen special-purpose
  networks; the overlapping tests of the code leave no gap and deny nothing else.\<close>

theorem ssrf_v4_ranges: "is_denied_target_ip (V4 w) \<longleftrightarrow> in_nets (V4 w) (map (apfst V4) denied_nets4)"
proof -
  obtain a b c d where w: "octets w = [a, b, c, d]" and lt: "a < 256" "b < 256" "c < 256" "d < 256"
    by (rule octets_cases)
  note prefixes = cidr_v4_octets [of 1 0, simplified] cidr_v4_octets [of 1 2, simplified] cidr_v4_octets [of 2 0, simplified]
    cidr_v4_octets [of 1 4, simplified] cidr_v4_octets [of 3 0, simplified] cidr_v4_octets [of 1 7, simplified]
    cidr_v4_octets [of 0 4, simplified]
  have "in_nets (V4 w) (map (apfst V4) denied_nets4) \<longleftrightarrow>
      a = 0 \<or> a = 10 \<or> (a = 100 \<and> b div 64 = 1) \<or> a = 127 \<or> (a = 169 \<and> b = 254) \<or> (a = 172 \<and> b div 16 = 1) \<or>
      (a = 192 \<and> b = 0 \<and> c = 0) \<or> (a = 192 \<and> b = 0 \<and> c = 2) \<or> (a = 192 \<and> b = 88 \<and> c = 99) \<or>
      (a = 192 \<and> b = 168) \<or> (a = 198 \<and> b div 2 = 9) \<or> (a = 198 \<and> b = 51 \<and> c = 100) \<or>
      (a = 203 \<and> b = 0 \<and> c = 113) \<or> a div 16 = 14 \<or> a div 16 = 15"
    using lt by (simp add: in_nets_def denied_nets4_def prefixes w octets_nets eq_commute [of "Suc 0"])
  also have "\<dots> \<longleftrightarrow> is_denied_target_ipv4 w"
  proof -
    have divs: "b div 16 = 1 \<longleftrightarrow> 16 \<le> b \<and> b \<le> 31" "a div 16 = 14 \<longleftrightarrow> 224 \<le> a \<and> a \<le> 239" "a div 16 = 15 \<longleftrightarrow> 240 \<le> a"
      using lt(1) div_eq_between [of 16 b 1] div_eq_between [of 16 a 14] div_eq_between [of 16 a 15] by auto
    have masks: "b AND 0xc0 = 64 \<longleftrightarrow> b div 64 = 1" "b AND 0xfe = 18 \<longleftrightarrow> b div 2 = 9"
      using high_mask [of b 8 6 1] high_mask [of b 8 1 9] lt by simp_all
    have classes: "is_private w \<longleftrightarrow> a = 10 \<or> (a = 172 \<and> 16 \<le> b \<and> b \<le> 31) \<or> (a = 192 \<and> b = 168)" "is_loopback4 w \<longleftrightarrow> a = 127"
      "is_link_local4 w \<longleftrightarrow> a = 169 \<and> b = 254" "is_multicast4 w \<longleftrightarrow> 224 \<le> a \<and> a \<le> 239"
      "is_documentation4 w \<longleftrightarrow> (a = 192 \<and> b = 0 \<and> c = 2) \<or> (a = 198 \<and> b = 51 \<and> c = 100) \<or> (a = 203 \<and> b = 0 \<and> c = 113)"
      by (simp_all add: is_private_def is_loopback4_def is_link_local4_def is_multicast4_def is_documentation4_def w)
    have implied: "is_broadcast w \<Longrightarrow> 240 \<le> a" "is_unspecified4 w \<Longrightarrow> a = 0"
      by (simp_all add: is_broadcast_def is_unspecified4_def w)
    have nths: "octets w ! 0 = a" "octets w ! 1 = b" "octets w ! 2 = c" by (simp_all add: w)
    show ?thesis unfolding is_denied_target_ipv4_def Let_def nths divs masks classes
      by (rule iffI; elim disjE; use implied in \<open>simp\<close>)
  qed
  finally show ?thesis by simp
qed

lemma v4_of_octets_value: "v4_of_octets [a, b, c, d] = word_of_nat (((a * 256 + b) * 256 + c) * 256 + d)"
  by (simp add: v4_of_octets_def)

lemma v6_octets_cases:
  obtains x0 x1 x2 x3 x4 x5 x6 x7 x8 x9 x10 x11 x12 x13 x14 x15
  where "v6_octets x = [x0, x1, x2, x3, x4, x5, x6, x7, x8, x9, x10, x11, x12, x13, x14, x15]"
    "x2 < 256" "x3 < 256" "x4 < 256" "x5 < 256" "x12 < 256" "x13 < 256" "x14 < 256" "x15 < 256"
    "unat x mod 2 ^ 32 = ((x12 * 256 + x13) * 256 + x14) * 256 + x15"
    "unat x div 2 ^ 80 mod 2 ^ 32 = ((x2 * 256 + x3) * 256 + x4) * 256 + x5"
proof (rule that)
  let ?f = "\<lambda>i. unat x div 256 ^ (15 - i) mod 256"
  show "v6_octets x = [?f 0, ?f 1, ?f 2, ?f 3, ?f 4, ?f 5, ?f 6, ?f 7, ?f 8, ?f 9, ?f 10, ?f 11, ?f 12, ?f 13, ?f 14, ?f 15]"
    by (simp add: v6_octets_def upt_rec)
  have four: "n mod 2 ^ 32 = ((n div 256 ^ 3 mod 256 * 256 + n div 256 ^ 2 mod 256) * 256 + n div 256 ^ 1 mod 256) * 256 + n div 256 ^ 0 mod 256"
    for n :: nat
    using foldl_digits [of 4 3 256 n] by (simp add: upt_rec)
  show "unat x mod 2 ^ 32 = ((?f 12 * 256 + ?f 13) * 256 + ?f 14) * 256 + ?f 15"
    using four [of "unat x"] by simp
  show "unat x div 2 ^ 80 mod 2 ^ 32 = ((?f 2 * 256 + ?f 3) * 256 + ?f 4) * 256 + ?f 5"
    using four [of "unat x div 2 ^ 80"] by (simp add: div_mult2_eq [symmetric])
qed simp_all

lemma v6_octets_nets:
    "v6_octets 0x00000000000000000000ffff00000000 = [0, 0, 0, 0, 0, 0, 0, 0, 0, 0, 255, 255, 0, 0, 0, 0]"
    "v6_octets 0x0064ff9b000000000000000000000000 = [0, 100, 255, 155, 0, 0, 0, 0, 0, 0, 0, 0, 0, 0, 0, 0]"
    "v6_octets 0x0064ff9b000100000000000000000000 = [0, 100, 255, 155, 0, 1, 0, 0, 0, 0, 0, 0, 0, 0, 0, 0]"
    "v6_octets 0x20020000000000000000000000000000 = [32, 2, 0, 0, 0, 0, 0, 0, 0, 0, 0, 0, 0, 0, 0, 0]"
    "v6_octets 0x20010000000000000000000000000000 = [32, 1, 0, 0, 0, 0, 0, 0, 0, 0, 0, 0, 0, 0, 0, 0]"
    "v6_octets 0 = [0, 0, 0, 0, 0, 0, 0, 0, 0, 0, 0, 0, 0, 0, 0, 0]"
  by code_simp+

lemma segments_nets:
    "segments 0xff000000000000000000000000000000 = [65280, 0, 0, 0, 0, 0, 0, 0]"
    "segments 0xfc000000000000000000000000000000 = [64512, 0, 0, 0, 0, 0, 0, 0]"
    "segments 0xfe800000000000000000000000000000 = [65152, 0, 0, 0, 0, 0, 0, 0]"
    "segments 0xfec00000000000000000000000000000 = [65216, 0, 0, 0, 0, 0, 0, 0]"
    "segments 0x20010db8000000000000000000000000 = [8193, 3512, 0, 0, 0, 0, 0, 0]"
    "segments 0x01000000000000000000000000000000 = [256, 0, 0, 0, 0, 0, 0, 0]"
  by code_simp+

lemma not_word_of_nat: "n < 2 ^ 32 \<Longrightarrow> NOT (word_of_nat n :: 32 word) = word_of_nat (2 ^ 32 - 1 - n)"
  by (simp add: not_eq_complement of_nat_diff)

lemma cidr_v6_bytes:
  assumes "k < 16"
  shows "cidr_matches (V6 n) (8 * k) (V6 t) \<longleftrightarrow> take k (v6_octets n) = take k (v6_octets t)"
proof -
  have "digits 8 16 (unat m) ! k div 256 = 0" for m :: "128 word" using digits_lt [OF assms, of 8 "unat m"] by simp
  then show ?thesis using cidr_v6_digits [of 8 16 k 0 n t] assms by (simp add: digits_std del: digits_nth)
qed

lemma cidr_v6_segments:
  assumes "k < 8"
  shows "cidr_matches (V6 n) (16 * k) (V6 t) \<longleftrightarrow> take k (segments n) = take k (segments t)"
proof -
  have "digits 16 8 (unat m) ! k div 65536 = 0" for m :: "128 word" using digits_lt [OF assms, of 16 "unat m"] by simp
  then show ?thesis using cidr_v6_digits [of 16 8 k 0 n t] assms by (simp add: digits_std del: digits_nth)
qed

lemma seg0_net: "r < 16 \<Longrightarrow> cidr_matches (V6 n) r (V6 t) \<longleftrightarrow> segments n ! 0 div 2 ^ (16 - r) = segments t ! 0 div 2 ^ (16 - r)"
  using cidr_v6_digits [of 16 8 0 r n t, folded digits_std] by simp

lemma seg0_mask: "r < 16 \<Longrightarrow> segments t ! 0 AND (2 ^ 16 - 2 ^ (16 - r)) = c * 2 ^ (16 - r) \<longleftrightarrow> segments t ! 0 div 2 ^ (16 - r) = c"
  using digits_lt [of 0 8 16 "unat t", folded digits_std] by (intro high_mask) simp_all

lemma embedded_v4_code: "embedded_v4 x = (case to_ipv4_mapped x of Some v \<Rightarrow> Some v | None \<Rightarrow> embedded_of x)"
proof -
  obtain x0 x1 x2 x3 x4 x5 x6 x7 x8 x9 x10 x11 x12 x13 x14 x15
    where os: "v6_octets x = [x0, x1, x2, x3, x4, x5, x6, x7, x8, x9, x10, x11, x12, x13, x14, x15]"
    and lt: "x2 < 256" "x3 < 256" "x4 < 256" "x5 < 256" "x12 < 256" "x13 < 256" "x14 < 256" "x15 < 256"
    and low: "unat x mod 2 ^ 32 = ((x12 * 256 + x13) * 256 + x14) * 256 + x15"
    and mid: "unat x div 2 ^ 80 mod 2 ^ 32 = ((x2 * 256 + x3) * 256 + x4) * 256 + x5" by (rule v6_octets_cases)
  note bytes = cidr_v6_bytes [of 12, simplified] cidr_v6_bytes [of 6, simplified] cidr_v6_bytes [of 2, simplified]
    cidr_v6_bytes [of 4, simplified]
  have teredo: "NOT (word_of_nat (unat x mod 2 ^ 32)) = v4_of_octets [255 - x12, 255 - x13, 255 - x14, 255 - x15]"
    unfolding v4_of_octets_value low using lt by (subst not_word_of_nat) (auto intro!: arg_cong [where f = word_of_nat])
  have lows: "in_nets (V6 x) (map (apfst V6) low_embeddings) \<longleftrightarrow>
      [x0, x1, x2, x3, x4, x5, x6, x7, x8, x9, x10, x11] = [0, 0, 0, 0, 0, 0, 0, 0, 0, 0, 255, 255] \<or>
      [x0, x1, x2, x3, x4, x5, x6, x7, x8, x9, x10, x11] = [0, 0x64, 0xff, 0x9b, 0, 0, 0, 0, 0, 0, 0, 0] \<or>
      [x0, x1, x2, x3, x4, x5] = [0, 0x64, 0xff, 0x9b, 0, 1] \<or>
      [x0, x1, x2, x3, x4, x5, x6, x7, x8, x9, x10, x11] = [0, 0, 0, 0, 0, 0, 0, 0, 0, 0, 0, 0]"
    by (simp add: in_nets_def low_embeddings_def bytes v6_octets_nets os eq_commute [of "Suc 0"])
  have nets: "cidr_matches (V6 0x20020000000000000000000000000000) 16 (V6 x) \<longleftrightarrow> x0 = 0x20 \<and> x1 = 0x02"
    "cidr_matches (V6 0x20010000000000000000000000000000) 32 (V6 x) \<longleftrightarrow> x0 = 0x20 \<and> x1 = 0x01 \<and> x2 = 0 \<and> x3 = 0"
    by (simp_all add: bytes v6_octets_nets os eq_commute [of "Suc 0"])
  define M N L Z S T where cases: "M \<longleftrightarrow> [x0, x1, x2, x3, x4, x5, x6, x7, x8, x9, x10, x11] = [0, 0, 0, 0, 0, 0, 0, 0, 0, 0, 255, 255]"
    "N \<longleftrightarrow> [x0, x1, x2, x3, x4, x5, x6, x7, x8, x9, x10, x11] = [0, 0x64, 0xff, 0x9b, 0, 0, 0, 0, 0, 0, 0, 0]"
    "L \<longleftrightarrow> [x0, x1, x2, x3, x4, x5] = [0, 0x64, 0xff, 0x9b, 0, 1]"
    "Z \<longleftrightarrow> [x0, x1, x2, x3, x4, x5, x6, x7, x8, x9, x10, x11] = [0, 0, 0, 0, 0, 0, 0, 0, 0, 0, 0, 0]"
    "S \<longleftrightarrow> x0 = 0x20 \<and> x1 = 0x02" "T \<longleftrightarrow> x0 = 0x20 \<and> x1 = 0x01 \<and> x2 = 0 \<and> x3 = 0"
  let ?lo = "v4_of_octets [x12, x13, x14, x15]"
  have "to_ipv4_mapped x = (if M then Some ?lo else None)" by (simp add: to_ipv4_mapped_def os cases)
  moreover have "embedded_of x = (if N then Some ?lo else if L then Some ?lo else if S then Some (v4_of_octets [x2, x3, x4, x5])
      else if T then Some (v4_of_octets [255 - x12, 255 - x13, 255 - x14, 255 - x15]) else if Z then Some ?lo else None)"
    unfolding embedded_of_def os Let_def cases by simp
  moreover have "\<not> (S \<and> (M \<or> N \<or> L \<or> Z))" "\<not> (T \<and> (M \<or> N \<or> L \<or> Z))" unfolding cases by auto
  moreover have "embedded_v4 x = (if M \<or> N \<or> L \<or> Z then Some ?lo else if S then Some (v4_of_octets [x2, x3, x4, x5])
      else if T then Some (v4_of_octets [255 - x12, 255 - x13, 255 - x14, 255 - x15]) else None)"
    unfolding embedded_v4_def lows nets teredo unfolding low mid v4_of_octets_value cases by simp
  ultimately show ?thesis by simp
qed

text \<open>The unspecified and the loopback address are already caught as compatible addresses, so the two
  later tests for them never decide.\<close>

lemma loopback_compatible: "embedded_of 0 = Some 0" "embedded_of 1 = Some 1"
  by code_simp+

text \<open>C35: an IPv6 target that stands for an IPv4 address, in whichever of the six
  embeddings, is denied exactly when that IPv4 address is; any other one is denied exactly when it
  lies in one of six special-purpose networks.\<close>

theorem ssrf_v6_unwraps:
  "is_denied_target_ip (V6 x) \<longleftrightarrow>
     (case embedded_v4 x of
        Some v \<Rightarrow> is_denied_target_ip (V4 v)
      | None \<Rightarrow> in_nets (V6 x) (map (apfst V6) denied_nets6))"
proof (cases "embedded_v4 x")
  case (Some v)
  then show ?thesis by (auto simp: embedded_v4_code split: option.splits)
next
  case None
  then have code: "to_ipv4_mapped x = None" "embedded_of x = None"
    by (auto simp: embedded_v4_code split: option.splits)
  obtain s0 s1 s2 s3 s4 s5 s6 s7 where sx: "segments x = [s0, s1, s2, s3, s4, s5, s6, s7]" by (simp add: segments_def upt_rec)
  have "\<not> in_nets (V6 x) (map (apfst V6) low_embeddings)" using None by (auto simp: embedded_v4_def split: if_splits)
  then have "\<not> take 12 (v6_octets x) = take 12 (v6_octets 0)"
    using cidr_v6_bytes [of 12 0 x] by (simp add: in_nets_def low_embeddings_def)
  moreover have "take 12 (v6_octets 1) = take 12 (v6_octets 0)" by code_simp
  ultimately have "\<not> is_loopback6 x" "\<not> is_unspecified6 x"
    using word_unat_eq_iff [of x 0] word_unat_eq_iff [of x 1] unfolding is_loopback6_def is_unspecified6_def
    by (auto simp only: unsigned_0 unsigned_1)
  moreover have "segments x ! 0 AND 0xff00 = 0xff00 \<longleftrightarrow> cidr_matches (V6 0xff000000000000000000000000000000) 8 (V6 x)"
    "segments x ! 0 AND 0xfe00 = 0xfc00 \<longleftrightarrow> cidr_matches (V6 0xfc000000000000000000000000000000) 7 (V6 x)"
    "segments x ! 0 AND 0xffc0 = 0xfe80 \<longleftrightarrow> cidr_matches (V6 0xfe800000000000000000000000000000) 10 (V6 x)"
    "segments x ! 0 AND 0xffc0 = 0xfec0 \<longleftrightarrow> cidr_matches (V6 0xfec00000000000000000000000000000) 10 (V6 x)"
    using seg0_mask [of 8 x 255] seg0_mask [of 7 x 126] seg0_mask [of 10 x 1018] seg0_mask [of 10 x 1019]
    by (simp_all add: seg0_net segments_nets)
  moreover have "segments x ! 0 = 0x2001 \<and> segments x ! 1 = 0x0db8 \<longleftrightarrow> cidr_matches (V6 0x20010db8000000000000000000000000) 32 (V6 x)"
    "segments x ! 0 = 0x0100 \<and> segments x ! 1 = 0 \<and> segments x ! 2 = 0 \<and> segments x ! 3 = 0 \<longleftrightarrow>
     cidr_matches (V6 0x01000000000000000000000000000000) 64 (V6 x)"
    by (simp_all add: cidr_v6_segments [of 2, simplified] cidr_v6_segments [of 4, simplified] segments_nets sx)
  ultimately show ?thesis
    unfolding is_denied_target_ip.simps code None Let_def is_multicast6_def in_nets_def denied_nets6_def by simp
qed

end
