(* ===== verification/Rewrite_Table.thy ===== *)
theory Rewrite_Table
  imports Dns_Message Core_Types Ip_Classes
begin

text \<open>
  Local DNS rewrites, \<^verbatim>\<open>crates/sito-rewrites/src/{config,table}.rs\<close>: building the table from
  the configuration, exact, wildcard, alias and reverse lookups, and client exceptions.

  Names are the abstract type of Dns_Message; \<^verbatim>\<open>Name::from_str\<close>, \<^verbatim>\<open>Name::to_ascii\<close>,
  \<^verbatim>\<open>Name::to_string\<close> and the idna crate are the fields of \<open>name_lib\<close>.  The vector of visited
  names is an argument: after a recursive call returns nothing reads it any more.  The depth bound
  makes the recursion terminate.
\<close>

record 'n name_lib =
  nl_from_str :: "rstr \<Rightarrow> 'n option"
  nl_ascii :: "'n \<Rightarrow> rstr"
  nl_display :: "'n \<Rightarrow> rstr"
  nl_puny :: puny_decoder
  nl_idna :: "rstr \<Rightarrow> rstr option"


text \<open>\<^verbatim>\<open>Name::from_str\<close>\<close>

definition parse_name :: "'n name_lib \<Rightarrow> rstr \<Rightarrow> 'n option" where
  "parse_name L s = nl_from_str L s"


section \<open>Configuration\<close>

record rewrite_entry =
  re_domain :: rstr
  re_type :: rstr
  re_answer :: rstr
  re_exception_clients :: "rstr list"

record rewrites_config =
  rc_auto_ptr :: bool
  rc_ttl :: nat
  rc_entries :: "rewrite_entry list"

definition default_auto_ptr :: bool where "default_auto_ptr = False"

definition default_ttl :: nat where "default_ttl = 60"

definition rewrites_config_default :: rewrites_config where
  "rewrites_config_default = \<lparr>rc_auto_ptr = default_auto_ptr, rc_ttl = default_ttl, rc_entries = []\<rparr>"


section \<open>Table\<close>

definition default_rewrite_ttl :: nat where "default_rewrite_ttl = 60"

definition max_cname_depth :: nat where "max_cname_depth = 8"

datatype 'n local_data =
    LA "32 word"
  | LAAAA "128 word"
  | LCname 'n
  | LPtr 'n
  | LTxt "rstr list"

record 'n stored_rule =
  sr_wildcard_suffix :: "rstr option"
  sr_record_type :: nat
  sr_data :: "'n local_data"
  sr_exception_clients :: "rstr list"

record 'n rewrite_table =
  rt_exact :: "rstr \<times> nat \<Rightarrow> 'n stored_rule list option"
  rt_wildcards :: "'n stored_rule list"
  rt_auto_ptr :: "rstr \<Rightarrow> 'n stored_rule option"
  rt_ttl :: nat

definition rewrite_table_default :: "'n rewrite_table" where
  "rewrite_table_default =
     \<lparr>rt_exact = (\<lambda>_. None), rt_wildcards = [], rt_auto_ptr = (\<lambda>_. None), rt_ttl = default_rewrite_ttl\<rparr>"


section \<open>Helpers\<close>

definition normalize_domain_key :: "'n name_lib \<Rightarrow> rstr \<Rightarrow> rstr" where
  "normalize_domain_key L domain =
     (let trimmed = trim_end_matches (cc CHR ''.'') (trim domain);
          norm = (\<lambda>s. case normalize_domain_or_idna (nl_puny L) (nl_idna L) s of
                        Inr d \<Rightarrow> d
                      | Inl _ \<Rightarrow> to_ascii_lowercase s)
      in case strip_prefix (lit ''*.'') trimmed of
           Some rest \<Rightarrow> lit ''*.'' @ norm rest
         | None \<Rightarrow> norm trimmed)"

definition matches_wildcard :: "rstr \<Rightarrow> rstr \<Rightarrow> bool" where
  "matches_wildcard candidate suff = matches_strict_subdomain candidate suff"

definition parse_entry_record :: "'n name_lib \<Rightarrow> rstr \<Rightarrow> rstr \<Rightarrow> (nat \<times> 'n local_data) option" where
  "parse_entry_record L rtype answer =
     (let t = to_ascii_uppercase rtype;
          target = parse_name L (trim_end_matches (cc CHR ''.'') answer @ lit ''.'')
      in if t = lit ''A'' then map_option (\<lambda>ip. (type_a, LA ip)) (parse_ipv4 answer)
         else if t = lit ''AAAA'' then map_option (\<lambda>ip. (type_aaaa, LAAAA ip)) (parse_ipv6 answer)
         else if t = lit ''CNAME'' then map_option (\<lambda>n. (type_cname, LCname n)) target
         else if t = lit ''PTR'' then map_option (\<lambda>n. (type_ptr, LPtr n)) target
         else if t = lit ''TXT'' then Some (type_txt, LTxt [answer])
         else None)"

definition is_rfc1918 :: "32 word \<Rightarrow> bool" where
  "is_rfc1918 ip =
     (let o4 = octets ip
      in if o4 ! 0 = 10 then True
         else if o4 ! 0 = 172 \<and> 16 \<le> o4 ! 1 \<and> o4 ! 1 \<le> 31 then True
         else if o4 ! 0 = 192 \<and> o4 ! 1 = 168 then True
         else False)"

definition is_auto_ptr_candidate_v4 :: "32 word \<Rightarrow> bool" where
  "is_auto_ptr_candidate_v4 ip =
     (let o4 = octets ip
      in if is_rfc1918 ip then True
         else if o4 ! 0 = 127 then True
         else if o4 ! 0 = 169 \<and> o4 ! 1 = 254 then True
         else if o4 ! 0 = 100 \<and> 64 \<le> o4 ! 1 \<and> o4 ! 1 \<le> 127 then True
         else False)"

definition is_ula :: "128 word \<Rightarrow> bool" where
  "is_ula ip \<longleftrightarrow> (v6_octets ip ! 0) AND 0xfe = 0xfc"

definition ipv4_to_in_addr_arpa :: "32 word \<Rightarrow> rstr" where
  "ipv4_to_in_addr_arpa ip =
     (let o4 = octets ip
      in show_nat (o4 ! 3) @ lit ''.'' @ show_nat (o4 ! 2) @ lit ''.'' @ show_nat (o4 ! 1) @ lit ''.'' @
         show_nat (o4 ! 0) @ lit ''.in-addr.arpa'')"

definition ipv6_to_ip6_arpa :: "128 word \<Rightarrow> rstr" where
  "ipv6_to_ip6_arpa ip =
     join (lit ''.'') (concat (map (\<lambda>b. [show_radix 16 (b AND 0x0f), show_radix 16 (drop_bit 4 b AND 0x0f)])
       (rev (v6_octets ip)))) @ lit ''.ip6.arpa''"

text \<open>\<^verbatim>\<open>parse_cidr\<close> accepts only prefixes that fit the family.\<close>

definition parse_exception_cidr :: "rstr \<Rightarrow> (ip_addr \<times> nat) option" where
  "parse_exception_cidr v =
     do { (addr, pre) \<leftarrow> split_once (cc CHR ''/'') v;
          addr \<leftarrow> parse_ip (trim addr);
          pre \<leftarrow> parse_uint 256 (trim pre);
          (if pre > (case addr of V4 _ \<Rightarrow> 32 | V6 _ \<Rightarrow> 128) then None else Some (addr, pre)) }"

definition ip_in_cidr :: "ip_addr \<Rightarrow> nat \<Rightarrow> ip_addr \<Rightarrow> bool" where
  "ip_in_cidr network pre target =
     (case (network, target) of
        (V4 net, V4 tgt) \<Rightarrow>
          if pre = 0 then True
          else let mask = (if pre \<ge> 32 then - 1 else push_bit (32 - pre) (- 1))
               in net AND mask = tgt AND mask
      | (V6 net, V6 tgt) \<Rightarrow>
          if pre = 0 then True
          else let mask = (if pre \<ge> 128 then - 1 else push_bit (128 - pre) (- 1))
               in net AND mask = tgt AND mask
      | _ \<Rightarrow> False)"

fun excepted_by :: "client_context \<Rightarrow> rstr \<Rightarrow> bool" where
  "excepted_by client exc =
     (if (case parse_exception_cidr exc of Some (network, pre) \<Rightarrow> ip_in_cidr network pre (cx_ip client) | None \<Rightarrow> False) then True
      else if eq_ignore_ascii_case exc (show_ip (cx_ip client)) then True
      else if (case cx_client_name client of Some name \<Rightarrow> eq_ignore_ascii_case exc name | None \<Rightarrow> False) then True
      else if cx_client_name client \<noteq> None \<and>
              (case cx_id client of Some i \<Rightarrow> eq_ignore_ascii_case exc i | None \<Rightarrow> False) then True
      else if (case cx_group client of Some g \<Rightarrow> eq_ignore_ascii_case exc g | None \<Rightarrow> False) then True
      else if (case cx_mac client of Some m \<Rightarrow> eq_ignore_ascii_case exc m | None \<Rightarrow> False) then True
      else False)"

definition is_client_excepted :: "client_context \<Rightarrow> rstr list \<Rightarrow> bool" where
  "is_client_excepted client exceptions = list_ex (excepted_by client) exceptions"


section \<open>Building the table\<close>

definition ptr_rule :: "'n \<Rightarrow> rstr list \<Rightarrow> 'n stored_rule" where
  "ptr_rule target exceptions =
     \<lparr>sr_wildcard_suffix = None, sr_record_type = type_ptr, sr_data = LPtr target, sr_exception_clients = exceptions\<rparr>"

definition auto_ptr_candidate ::
  "'n name_lib \<Rightarrow> rstr \<Rightarrow> rstr list \<Rightarrow> 'n local_data \<Rightarrow> (rstr \<times> 'n stored_rule) list" where
  "auto_ptr_candidate L norm_domain exceptions rdata =
     (let target = parse_name L (norm_domain @ lit ''.'');
          candidate = (\<lambda>ptr_name. case target of Some t \<Rightarrow> [(ptr_name, ptr_rule t exceptions)] | None \<Rightarrow> [])
      in case rdata of
           LA ip \<Rightarrow> if is_auto_ptr_candidate_v4 ip then candidate (ipv4_to_in_addr_arpa ip) else []
         | LAAAA ip \<Rightarrow> if is_ula ip then candidate (ipv6_to_ip6_arpa ip) else []
         | _ \<Rightarrow> [])"

text \<open>One entry: exact and wildcard rules and candidates so far, extended.\<close>

definition add_entry ::
  "'n name_lib \<Rightarrow> bool \<Rightarrow> rewrite_entry \<Rightarrow>
   (rstr \<times> nat \<Rightarrow> 'n stored_rule list option) \<times> 'n stored_rule list \<times> (rstr \<times> 'n stored_rule) list \<Rightarrow>
   (rstr \<times> nat \<Rightarrow> 'n stored_rule list option) \<times> 'n stored_rule list \<times> (rstr \<times> 'n stored_rule) list" where
  "add_entry L auto_ptr entry acc =
     (let (exact, wildcards, candidates) = acc
      in case parse_entry_record L (re_type entry) (re_answer entry) of
           None \<Rightarrow> (exact, wildcards, candidates)
         | Some (record_type, rdata) \<Rightarrow>
             (let norm_domain = normalize_domain_key L (re_domain entry);
                  exceptions = re_exception_clients entry;
                  rule = (\<lambda>suff. \<lparr>sr_wildcard_suffix = suff, sr_record_type = record_type, sr_data = rdata,
                                   sr_exception_clients = exceptions\<rparr>)
              in case strip_prefix (lit ''*.'') norm_domain of
                   Some suff \<Rightarrow> (exact, wildcards @ [rule (Some suff)], candidates)
                 | None \<Rightarrow>
                     (exact((norm_domain, record_type) \<mapsto>
                        (case exact (norm_domain, record_type) of None \<Rightarrow> [] | Some rs \<Rightarrow> rs) @ [rule None]),
                      wildcards,
                      if auto_ptr then candidates @ auto_ptr_candidate L norm_domain exceptions rdata else candidates)))"

text \<open>Explicit entries come first, then the first candidate for an address.\<close>

fun insert_auto_ptr ::
  "(rstr \<times> nat \<Rightarrow> 'n stored_rule list option) \<Rightarrow> (rstr \<times> 'n stored_rule) list \<Rightarrow> (rstr \<Rightarrow> 'n stored_rule option) \<Rightarrow>
   rstr \<Rightarrow> 'n stored_rule option" where
  "insert_auto_ptr exact [] m = m"
| "insert_auto_ptr exact ((ptr_key, rule) # cs) m =
     insert_auto_ptr exact cs
       (if exact (ptr_key, type_ptr) = None then (case m ptr_key of None \<Rightarrow> m(ptr_key \<mapsto> rule) | Some _ \<Rightarrow> m) else m)"

definition table_new :: "'n name_lib \<Rightarrow> rewrites_config \<Rightarrow> 'n rewrite_table" where
  "table_new L config =
     (let (exact, wildcards, candidates) = fold (add_entry L (rc_auto_ptr config)) (rc_entries config) (\<lambda>_. None, [], [])
      in \<lparr>rt_exact = exact, rt_wildcards = wildcards, rt_auto_ptr = insert_auto_ptr exact candidates (\<lambda>_. None),
          rt_ttl = max (rc_ttl config) 1\<rparr>)"


section \<open>Lookup\<close>

definition build_record :: "'n rewrite_table \<Rightarrow> 'n \<Rightarrow> 'n local_data \<Rightarrow> 'n rr" where
  "build_record T qname d =
     \<lparr>rr_name = qname, rr_ttl = rt_ttl T,
      rr_data = (case d of LA ip \<Rightarrow> AData ip | LAAAA ip \<Rightarrow> AaaaData ip | LCname t \<Rightarrow> CnameData t | LPtr t \<Rightarrow> PtrData t
                 | LTxt ss \<Rightarrow> TxtData ss)\<rparr>"

text \<open>What the rules say about one name: records, an alias to follow, or nothing.\<close>

datatype 'n step_result = Records "'n rr list" | Follow 'n | NoRule

fun first_alias :: "client_context \<Rightarrow> 'n stored_rule list \<Rightarrow> 'n option" where
  "first_alias client [] = None"
| "first_alias client (r # rs) =
     (case sr_data r of
        LCname target \<Rightarrow> if \<not> is_client_excepted client (sr_exception_clients r) then Some target else first_alias client rs
      | _ \<Rightarrow> first_alias client rs)"

fun wildcard_loop ::
  "client_context \<Rightarrow> rstr \<Rightarrow> nat \<Rightarrow> 'n stored_rule list \<Rightarrow> nat option \<Rightarrow> 'n stored_rule list \<Rightarrow> 'n stored_rule list" where
  "wildcard_loop client qname_str qtype [] best matched = matched"
| "wildcard_loop client qname_str qtype (r # rs) best matched =
     (if is_client_excepted client (sr_exception_clients r) then wildcard_loop client qname_str qtype rs best matched
      else if sr_record_type r \<noteq> qtype \<and> sr_record_type r \<noteq> type_cname then wildcard_loop client qname_str qtype rs best matched
      else case sr_wildcard_suffix r of
          None \<Rightarrow> wildcard_loop client qname_str qtype rs best matched
        | Some suff \<Rightarrow>
            if \<not> matches_wildcard qname_str suff then wildcard_loop client qname_str qtype rs best matched
            else case best of
                Some len \<Rightarrow>
                  if str_len suff < len then wildcard_loop client qname_str qtype rs best matched
                  else if str_len suff = len then wildcard_loop client qname_str qtype rs best (matched @ [r])
                  else wildcard_loop client qname_str qtype rs (Some (str_len suff)) [r]
              | None \<Rightarrow> wildcard_loop client qname_str qtype rs (Some (str_len suff)) [r])"

definition wildcard_step :: "'n rewrite_table \<Rightarrow> client_context \<Rightarrow> rstr \<Rightarrow> 'n \<Rightarrow> nat \<Rightarrow> 'n step_result" where
  "wildcard_step T client qname_str qname qtype =
     (let matched = wildcard_loop client qname_str qtype (rt_wildcards T) None [];
          preferred = filter (\<lambda>r. sr_record_type r = qtype) matched
      in if preferred \<noteq> [] then Records (map (\<lambda>r. build_record T qname (sr_data r)) preferred)
         else case find (\<lambda>r. sr_record_type r = type_cname) matched of
             Some r \<Rightarrow> (case sr_data r of LCname target \<Rightarrow> Follow target | _ \<Rightarrow> NoRule)
           | None \<Rightarrow> NoRule)"

definition lookup_step :: "'n rewrite_table \<Rightarrow> client_context \<Rightarrow> rstr \<Rightarrow> 'n \<Rightarrow> nat \<Rightarrow> 'n step_result" where
  "lookup_step T client qname_str qname qtype =
     (let answers = (case rt_exact T (qname_str, qtype) of
                       Some rules \<Rightarrow> map (\<lambda>r. build_record T qname (sr_data r))
                         (filter (\<lambda>r. \<not> is_client_excepted client (sr_exception_clients r)) rules)
                     | None \<Rightarrow> [])
      in if answers \<noteq> [] then Records answers
         else case (if qtype \<noteq> type_cname
                    then (case rt_exact T (qname_str, type_cname) of Some rules \<Rightarrow> first_alias client rules | None \<Rightarrow> None)
                    else None) of
             Some target \<Rightarrow> Follow target
           | None \<Rightarrow>
               (case (if qtype = type_ptr then rt_auto_ptr T qname_str else None) of
                  Some rule \<Rightarrow>
                    if \<not> is_client_excepted client (sr_exception_clients rule)
                    then Records [build_record T qname (sr_data rule)]
                    else wildcard_step T client qname_str qname qtype
                | None \<Rightarrow> wildcard_step T client qname_str qname qtype))"

text \<open>\<^verbatim>\<open>lookup_inner\<close> with \<^verbatim>\<open>resolve_cname\<close>, its only other caller, in line\<close>

function lookup_inner ::
  "'n name_lib \<Rightarrow> 'n rewrite_table \<Rightarrow> nat \<Rightarrow> client_context \<Rightarrow> 'n \<Rightarrow> rstr list \<Rightarrow> nat \<Rightarrow> 'n rr list option" where
  "lookup_inner L T qtype client qname visited depth =
     (if depth > max_cname_depth then None
      else let qname_str = normalize_domain_key L (nl_ascii L qname)
           in if qname_str \<in> set visited then None
              else let visited' = visited @ [qname_str]
                   in case lookup_step T client qname_str qname qtype of
                        Records rs \<Rightarrow> Some rs
                      | NoRule \<Rightarrow> None
                      | Follow target \<Rightarrow>
                          if normalize_domain_key L (nl_display L target) \<in> set visited' then None
                          else Some (build_record T qname (LCname target) #
                                 (case lookup_inner L T qtype client target visited' (depth + 1) of
                                    Some target_answers \<Rightarrow> target_answers
                                  | None \<Rightarrow> [])))"
  by pat_completeness auto
termination
  by (relation "measure (\<lambda>(L, T, qtype, client, qname, visited, depth). Suc max_cname_depth - depth)") auto

declare lookup_inner.simps [simp del]

definition rewrite_lookup :: "'n name_lib \<Rightarrow> 'n rewrite_table \<Rightarrow> 'n \<Rightarrow> nat \<Rightarrow> client_context \<Rightarrow> 'n rr list option" where
  "rewrite_lookup L T qname qtype client = lookup_inner L T qtype client qname [] 0"

end
