(* ===== verification/Rewrite_Correct.thy ===== *)
theory Rewrite_Correct
  imports Rewrite_Table
begin

text \<open>
  Correctness of local rewrites: the answer to a query is a loop-free alias chain of bounded length
  ending in records of the queried type, an exception takes the entry away from that client and
  nothing else, and reverse records point back to the entries they were made from.
\<close>

section \<open>Well-formed tables\<close>

definition data_type :: "'n local_data \<Rightarrow> nat" where
  "data_type d = (case d of LA _ \<Rightarrow> type_a | LAAAA _ \<Rightarrow> type_aaaa | LCname _ \<Rightarrow> type_cname | LPtr _ \<Rightarrow> type_ptr | LTxt _ \<Rightarrow> type_txt)"

definition rule_typed :: "nat \<Rightarrow> 'n stored_rule \<Rightarrow> bool" where
  "rule_typed t r \<longleftrightarrow> sr_record_type r = t \<and> data_type (sr_data r) = t"

definition table_wf :: "'n rewrite_table \<Rightarrow> bool" where
  "table_wf T \<longleftrightarrow>
     (\<forall>k t rs. rt_exact T (k, t) = Some rs \<longrightarrow> list_all (rule_typed t) rs) \<and>
     list_all (\<lambda>r. rule_typed (sr_record_type r) r) (rt_wildcards T) \<and>
     (\<forall>k r. rt_auto_ptr T k = Some r \<longrightarrow> rule_typed type_ptr r)"

lemma rr_type_build: "rr_type (build_record T q d) = data_type d"
  by (cases d) (simp_all add: rr_type_def build_record_def data_type_def)

lemma build_record_simps: "rr_name (build_record T q d) = q" "rr_ttl (build_record T q d) = rt_ttl T"
  by (simp_all add: build_record_def)

lemma parse_entry_typed: "parse_entry_record L ty a = Some (t, d) \<Longrightarrow> data_type d = t"
  by (auto simp: parse_entry_record_def Let_def data_type_def split: if_splits)

definition acc_wf ::
  "(rstr \<times> nat \<Rightarrow> 'n stored_rule list option) \<times> 'n stored_rule list \<times> (rstr \<times> 'n stored_rule) list \<Rightarrow> bool" where
  "acc_wf acc \<longleftrightarrow> (case acc of (exact, wildcards, candidates) \<Rightarrow>
     (\<forall>k t rs. exact (k, t) = Some rs \<longrightarrow> list_all (rule_typed t) rs) \<and>
     list_all (\<lambda>r. rule_typed (sr_record_type r) r) wildcards \<and> list_all (rule_typed type_ptr \<circ> snd) candidates)"

lemma candidate_typed: "list_all (rule_typed type_ptr \<circ> snd) (auto_ptr_candidate L nd exc d)"
  by (auto simp: auto_ptr_candidate_def Let_def ptr_rule_def rule_typed_def data_type_def
      split: local_data.split option.split)

lemma add_entry_wf: "acc_wf acc \<Longrightarrow> acc_wf (add_entry L ap e acc)"
  using candidate_typed [of L]
  by (auto simp: add_entry_def acc_wf_def Let_def rule_typed_def parse_entry_typed
      split: prod.splits option.splits if_splits)

lemma fold_add_wf: "acc_wf acc \<Longrightarrow> acc_wf (fold (add_entry L ap) es acc)"
  by (induction es arbitrary: acc) (simp_all add: add_entry_wf)

lemma insert_auto_ptr_eq:
  "insert_auto_ptr exact cs m k =
     (case m k of Some r \<Rightarrow> Some r | None \<Rightarrow> if exact (k, type_ptr) = None then map_of cs k else None)"
  by (induction exact cs m rule: insert_auto_ptr.induct) (auto split: option.splits)

lemma table_new_wf: "table_wf (table_new L cfg)"
proof -
  obtain exact wildcards candidates where f:
    "fold (add_entry L (rc_auto_ptr cfg)) (rc_entries cfg) (\<lambda>_. None, [], []) = (exact, wildcards, candidates)"
    by (metis prod_cases3)
  have "acc_wf (exact, wildcards, candidates)"
    unfolding f [symmetric] by (rule fold_add_wf) (simp add: acc_wf_def)
  then show ?thesis
    unfolding table_new_def f
    by (fastforce simp: table_wf_def acc_wf_def insert_auto_ptr_eq list_all_iff dest: map_of_SomeD split: if_splits)
qed


section \<open>One step\<close>

lemma wildcard_loop_sub: "set (wildcard_loop cl s t rs best m) \<subseteq> set rs \<union> set m"
proof (induction rs arbitrary: best m)
  case (Cons r rs)
  show ?case
    using Cons.IH [of best m] Cons.IH [of best "m @ [r]"] Cons.IH [of _ "[r]"]
    unfolding wildcard_loop.simps by (simp split: option.split) blast
qed simp

lemma wildcard_step_records:
  assumes "table_wf T" and "wildcard_step T cl s q t = Records rs"
  shows "rs \<noteq> [] \<and> (\<forall>r\<in>set rs. rr_name r = q \<and> rr_type r = t \<and> rr_ttl r = rt_ttl T)"
proof -
  let ?m = "filter (\<lambda>r. sr_record_type r = t) (wildcard_loop cl s t (rt_wildcards T) None [])"
  have rs: "rs = map (\<lambda>r. build_record T q (sr_data r)) ?m" "?m \<noteq> []"
    using assms(2) by (auto simp: wildcard_step_def Let_def split: if_splits option.splits local_data.splits)
  have "rule_typed t r" if "r \<in> set ?m" for r
    using assms(1) that wildcard_loop_sub [of cl s t "rt_wildcards T" None "[]"] by (auto simp: table_wf_def list_all_iff)
  then show ?thesis unfolding rs(1) using rs(2) by (auto simp: rr_type_build rule_typed_def build_record_simps)
qed

lemma lookup_step_records:
  assumes "table_wf T" and "lookup_step T cl s q t = Records rs"
  shows "rs \<noteq> [] \<and> (\<forall>r\<in>set rs. rr_name r = q \<and> rr_type r = t \<and> rr_ttl r = rt_ttl T)"
proof -
  have typed: "\<forall>r\<in>set rules. rule_typed u r" if "rt_exact T (k, u) = Some rules" for k u rules
    using assms(1) that by (auto simp: table_wf_def list_all_iff)
  have ptr: "rule_typed type_ptr r" if "rt_auto_ptr T k = Some r" for k r
    using assms(1) that by (auto simp: table_wf_def)
  show ?thesis
    using assms(2) wildcard_step_records [OF assms(1), of cl s q t rs] typed ptr
    unfolding lookup_step_def Let_def
    by (fastforce simp: rr_type_build rule_typed_def build_record_simps split: if_splits option.splits)
qed


section \<open>Alias chains\<close>

definition alias_chain :: "'n rewrite_table \<Rightarrow> 'n list \<Rightarrow> 'n rr list" where
  "alias_chain T path = map (\<lambda>(a, b). build_record T a (LCname b)) (zip path (tl path))"

abbreviation name_key :: "'n name_lib \<Rightarrow> 'n \<Rightarrow> rstr" where
  "name_key L n \<equiv> normalize_domain_key L (nl_ascii L n)"

lemma alias_chain_Cons: "path \<noteq> [] \<Longrightarrow> alias_chain T (q # path) = build_record T q (LCname (hd path)) # alias_chain T path"
  by (cases path) (simp_all add: alias_chain_def)

lemma lookup_inner_chain:
  assumes "table_wf T" and "\<And>n. normalize_domain_key L (nl_display L n) = name_key L n"
    and "lookup_inner L T t cl q visited depth = Some rs"
  shows "\<exists>path finals. path \<noteq> [] \<and> hd path = q \<and> rs = alias_chain T path @ finals \<and> rs \<noteq> [] \<and>
    distinct (map (name_key L) path) \<and> set (map (name_key L) path) \<inter> set visited = {} \<and>
    length path + depth \<le> max_cname_depth + 2 \<and>
    (\<forall>r\<in>set finals. rr_name r = last path \<and> rr_type r = t \<and> rr_ttl r = rt_ttl T)"
  using assms
proof (induction L T t cl q visited depth arbitrary: rs rule: lookup_inner.induct)
  case (1 L T t cl q visited depth)
  define s where "s = name_key L q"
  from "1.prems"(3) have d: "depth \<le> max_cname_depth" and new: "s \<notin> set visited"
    by (auto simp: lookup_inner.simps [of L T] s_def Let_def split: if_splits)
  show ?case
  proof (cases "lookup_step T cl s q t")
    case (Records as)
    with "1.prems"(3) d new have "rs = as" by (simp add: lookup_inner.simps [of L T] s_def [symmetric])
    with lookup_step_records [OF "1.prems"(1) Records] new d show ?thesis
      by (intro exI [of _ "[q]"] exI [of _ as]) (auto simp: alias_chain_def s_def)
  next
    case NoRule
    with "1.prems"(3) d new show ?thesis by (simp add: lookup_inner.simps [of L T] s_def [symmetric])
  next
    case (Follow target)
    let ?rest = "lookup_inner L T t cl target (visited @ [s]) (depth + 1)"
    from "1.prems"(3) d new Follow have tk: "name_key L target \<notin> set (visited @ [s])"
      and rs: "rs = build_record T q (LCname target) # (case ?rest of Some as \<Rightarrow> as | None \<Rightarrow> [])"
      by (auto simp: lookup_inner.simps [of L T t cl q] s_def [symmetric] "1.prems"(2) Let_def split: if_splits)
    show ?thesis
    proof (cases ?rest)
      case None
      with rs tk new d show ?thesis
        by (intro exI [of _ "[q, target]"] exI [of _ "[]"]) (auto simp: alias_chain_def s_def)
    next
      case (Some as)
      have "\<not> depth > max_cname_depth" "normalize_domain_key L (nl_display L target) \<notin> set (visited @ [s])"
        using d tk "1.prems"(2) by simp_all
      from "1.IH" [OF this(1) s_def _ refl Follow this(2) "1.prems"(1,2) Some] new
      obtain path finals where p: "path \<noteq> []" "hd path = target" "as = alias_chain T path @ finals" "distinct (map (name_key L) path)"
        "set (map (name_key L) path) \<inter> set (visited @ [s]) = {}" "length path + (depth + 1) \<le> max_cname_depth + 2"
        "\<forall>r\<in>set finals. rr_name r = last path \<and> rr_type r = t \<and> rr_ttl r = rt_ttl T" by blast
      with rs Some new show ?thesis
        by (intro exI [of _ "q # path"] exI [of _ finals]) (auto simp: alias_chain_Cons s_def)
    qed
  qed
qed


section \<open>Exceptions\<close>

abbreviation visible :: "client_context \<Rightarrow> 'n stored_rule \<Rightarrow> bool" where
  "visible cl r \<equiv> \<not> is_client_excepted cl (sr_exception_clients r)"

definition rules_at :: "(rstr \<times> nat \<Rightarrow> 'n stored_rule list option) \<Rightarrow> rstr \<times> nat \<Rightarrow> 'n stored_rule list" where
  "rules_at exact k = (case exact k of None \<Rightarrow> [] | Some rs \<Rightarrow> rs)"

text \<open>Two tables that show the same rules to a client\<close>

definition same_view :: "client_context \<Rightarrow> 'n rewrite_table \<Rightarrow> 'n rewrite_table \<Rightarrow> bool" where
  "same_view cl T T' \<longleftrightarrow> rt_ttl T = rt_ttl T' \<and> rt_auto_ptr T = rt_auto_ptr T' \<and>
     (\<forall>k. filter (visible cl) (rules_at (rt_exact T) k) = filter (visible cl) (rules_at (rt_exact T') k)) \<and>
     filter (visible cl) (rt_wildcards T) = filter (visible cl) (rt_wildcards T')"

lemma first_alias_visible: "first_alias cl rs = first_alias cl (filter (visible cl) rs)"
  by (induction rs) (auto split: local_data.split)

lemma wildcard_loop_visible: "wildcard_loop cl s t rs best m = wildcard_loop cl s t (filter (visible cl) rs) best m"
  by (induction rs arbitrary: best m) (simp_all split: option.split)

lemma lookup_step_view: "same_view cl T T' \<Longrightarrow> lookup_step T cl s q t = lookup_step T' cl s q t"
proof -
  assume v: "same_view cl T T'"
  then have b: "build_record T = build_record T'" by (auto simp: same_view_def build_record_def fun_eq_iff)
  have w: "wildcard_step T cl s q t = wildcard_step T' cl s q t"
    using v wildcard_loop_visible [of cl s t "rt_wildcards T"] wildcard_loop_visible [of cl s t "rt_wildcards T'"] b
    by (simp add: wildcard_step_def same_view_def Let_def)
  have e: "(case rt_exact U k of Some rules \<Rightarrow> map f (filter (visible cl) rules) | None \<Rightarrow> []) =
      map f (filter (visible cl) (rules_at (rt_exact U) k))" for U :: "'a rewrite_table" and k and f :: "'a stored_rule \<Rightarrow> 'a rr"
    by (simp add: rules_at_def split: option.split)
  have a: "(case rt_exact U k of Some rules \<Rightarrow> first_alias cl rules | None \<Rightarrow> None) =
      first_alias cl (filter (visible cl) (rules_at (rt_exact U) k))" for U :: "'a rewrite_table" and k
    by (simp add: rules_at_def first_alias_visible [symmetric] split: option.split)
  from v have p: "rt_auto_ptr T = rt_auto_ptr T'"
    and x: "\<And>k. filter (visible cl) (rules_at (rt_exact T) k) = filter (visible cl) (rules_at (rt_exact T') k)"
    by (auto simp: same_view_def)
  show ?thesis unfolding lookup_step_def e a w b p x ..
qed

lemma lookup_inner_view:
  assumes "same_view cl T T'"
  shows "lookup_inner L T t cl q visited depth = lookup_inner L T' t cl q visited depth"
  using assms
proof (induction L T t cl q visited depth rule: lookup_inner.induct)
  case (1 L T t cl q visited depth)
  have b: "build_record T = build_record T'" using "1.prems" by (auto simp: same_view_def build_record_def fun_eq_iff)
  note eqs = lookup_inner.simps [of L T t cl q visited depth] lookup_inner.simps [of L T' t cl q visited depth]
  show ?case
  proof (cases "depth > max_cname_depth \<or> name_key L q \<in> set visited")
    case True
    then show ?thesis by (auto simp: eqs)
  next
    case False
    then show ?thesis
      using "1.IH" [OF _ refl _ refl _ _ "1.prems"] lookup_step_view [OF "1.prems"]
      by (auto simp: eqs b Let_def split: step_result.split)
  qed
qed

definition entry_visible :: "client_context \<Rightarrow> rewrite_entry \<Rightarrow> bool" where
  "entry_visible cl e \<longleftrightarrow> \<not> is_client_excepted cl (re_exception_clients e)"

lemma rules_at_upd:
  "rules_at (x(k \<mapsto> (case x k of None \<Rightarrow> [] | Some rs \<Rightarrow> rs) @ [r])) k' = (if k' = k then rules_at x k @ [r] else rules_at x k')"
  by (simp add: rules_at_def)

lemma fold_add_view:
  assumes "\<And>k. filter (visible cl) (rules_at x k) = filter (visible cl) (rules_at x' k)"
    and "filter (visible cl) w = filter (visible cl) w'"
    and "fold (add_entry L False) es (x, w, c) = (y, v, d)"
    and "fold (add_entry L False) (filter (entry_visible cl) es) (x', w', c') = (y', v', d')"
  shows "(\<forall>k. filter (visible cl) (rules_at y k) = filter (visible cl) (rules_at y' k)) \<and>
    filter (visible cl) v = filter (visible cl) v' \<and> d = c \<and> d' = c'"
  using assms
proof (induction es arbitrary: x w c x' w' c')
  case (Cons e es)
  obtain x1 w1 c1 where a: "add_entry L False e (x, w, c) = (x1, w1, c1)" by (metis prod_cases3)
  obtain x1' w1' c1' where a': "(if entry_visible cl e then add_entry L False e (x', w', c') else (x', w', c')) = (x1', w1', c1')"
    by (metis prod_cases3)
  have "(\<forall>k. filter (visible cl) (rules_at x1 k) = filter (visible cl) (rules_at x1' k)) \<and>
      filter (visible cl) w1 = filter (visible cl) w1' \<and> c1 = c \<and> c1' = c'"
  proof (cases "parse_entry_record L (re_type e) (re_answer e)")
    case None
    then show ?thesis using a a' Cons.prems(1,2) by (auto simp: add_entry_def split: if_splits)
  next
    case (Some p)
    obtain t d where p: "p = (t, d)" by fastforce
    show ?thesis
      using a a' Cons.prems(1,2) Some
      by (cases "strip_prefix (lit ''*.'') (normalize_domain_key L (re_domain e))"; cases "entry_visible cl e")
        (auto simp: add_entry_def Let_def rules_at_upd entry_visible_def p)
  qed
  moreover have "fold (add_entry L False) es (x1, w1, c1) = (y, v, d)"
    "fold (add_entry L False) (filter (entry_visible cl) es) (x1', w1', c1') = (y', v', d')"
    using Cons.prems(3,4) a a' by (auto split: if_splits)
  ultimately show ?case using Cons.IH [of x1 x1' w1 w1' c1 c1'] by auto
qed simp

lemma table_new_view:
  assumes "\<not> rc_auto_ptr cfg"
  shows "same_view cl (table_new L cfg) (table_new L (cfg\<lparr>rc_entries := filter (entry_visible cl) (rc_entries cfg)\<rparr>))"
proof -
  obtain y v d where f: "fold (add_entry L False) (rc_entries cfg) (\<lambda>_. None, [], []) = (y, v, d)" by (metis prod_cases3)
  obtain y' v' d' where f': "fold (add_entry L False) (filter (entry_visible cl) (rc_entries cfg)) (\<lambda>_. None, [], []) = (y', v', d')"
    by (metis prod_cases3)
  from fold_add_view [OF refl refl f f'] assms show ?thesis
    by (auto simp: same_view_def table_new_def f f' insert_auto_ptr_eq)
qed


section \<open>Reverse records\<close>

text \<open>Entry \<open>e\<close> is a forward entry for \<open>ip\<close> that gets a reverse record to \<open>t\<close>.\<close>

definition forward_entry :: "'n name_lib \<Rightarrow> rewrite_entry \<Rightarrow> 32 word \<Rightarrow> 'n \<Rightarrow> bool" where
  "forward_entry L e ip t \<longleftrightarrow> parse_entry_record L (re_type e) (re_answer e) = Some (type_a, LA ip) \<and>
     strip_prefix (lit ''*.'') (normalize_domain_key L (re_domain e)) = None \<and> is_auto_ptr_candidate_v4 ip \<and>
     parse_name L (normalize_domain_key L (re_domain e) @ lit ''.'') = Some t"

definition entry_candidates :: "'n name_lib \<Rightarrow> rewrite_entry \<Rightarrow> (rstr \<times> 'n stored_rule) list" where
  "entry_candidates L e =
     (case parse_entry_record L (re_type e) (re_answer e) of
        Some (t, d) \<Rightarrow> if strip_prefix (lit ''*.'') (normalize_domain_key L (re_domain e)) = None
                     then auto_ptr_candidate L (normalize_domain_key L (re_domain e)) (re_exception_clients e) d else []
      | None \<Rightarrow> [])"

lemma fold_candidates: "snd (snd (fold (add_entry L True) es acc)) = snd (snd acc) @ concat (map (entry_candidates L) es)"
proof (induction es arbitrary: acc)
  case (Cons e es)
  have "snd (snd (add_entry L True e acc)) = snd (snd acc) @ entry_candidates L e"
    by (cases acc; cases "parse_entry_record L (re_type e) (re_answer e)";
        cases "strip_prefix (lit ''*.'') (normalize_domain_key L (re_domain e))")
      (auto simp: add_entry_def entry_candidates_def Let_def)
  with Cons show ?case by simp
qed simp

lemma show_radix_no_dot: "46 \<notin> set (show_radix r n)" if "r \<le> 16" "2 \<le> r"
  using that
proof (induction r n rule: show_radix.induct)
  case (1 r n)
  have "digit_char (n mod r) \<noteq> 46" by (simp add: digit_char_def)
  with 1 show ?case by (subst show_radix.simps) (auto simp: digit_char_def)
qed

lemma show_radix_inj: "show_radix r m = show_radix r n \<Longrightarrow> 2 \<le> r \<Longrightarrow> r \<le> 16 \<Longrightarrow> m = n"
  by (metis digits_val_show_radix option.inject)

lemma in_addr_labels:
  "split_on 46 (ipv4_to_in_addr_arpa ip) = map show_nat (rev (octets ip)) @ [lit ''in-addr'', lit ''arpa'']"
proof -
  obtain a b c d where o4: "octets ip = [a, b, c, d]" by (rule octets_cases)
  have "split_on 46 (lit ''in-addr.arpa'') = [lit ''in-addr'', lit ''arpa'']" by code_simp
  moreover have "ipv4_to_in_addr_arpa ip =
      show_nat d @ 46 # show_nat c @ 46 # show_nat b @ 46 # show_nat a @ 46 # lit ''in-addr.arpa''"
    by (simp add: ipv4_to_in_addr_arpa_def o4 lit_simps)
  ultimately show ?thesis by (simp add: split_on_append split_on_id show_radix_no_dot o4)
qed

lemma ip6_labels: "\<exists>ps. split_on 46 (ipv6_to_ip6_arpa ip) = ps @ [lit ''ip6'', lit ''arpa'']"
proof -
  have "split_on 46 (lit ''ip6.arpa'') = [lit ''ip6'', lit ''arpa'']" by code_simp
  moreover have "ipv6_to_ip6_arpa ip = p @ 46 # lit ''ip6.arpa''" if "p = join (lit ''.'') (concat (map (\<lambda>b. [show_radix 16 (b AND 0x0f), show_radix 16 (drop_bit 4 b AND 0x0f)])
       (rev (v6_octets ip))))" for p
    by (simp add: ipv6_to_ip6_arpa_def that lit_simps)
  ultimately show ?thesis by (simp add: split_on_append)
qed

lemma in_addr_inj: "ipv4_to_in_addr_arpa ip = ipv4_to_in_addr_arpa ip' \<longleftrightarrow> ip = ip'"
proof
  assume "ipv4_to_in_addr_arpa ip = ipv4_to_in_addr_arpa ip'"
  then have "map show_nat (rev (octets ip)) = map show_nat (rev (octets ip'))"
    using in_addr_labels [of ip] in_addr_labels [of ip'] by simp
  moreover have "inj show_nat" using show_radix_inj [of 10] by (auto intro: injI)
  ultimately have "octets ip = octets ip'" using map_injective by fastforce
  then show "ip = ip'" by (metis octets_value)
qed simp

lemma in_addr_not_ip6: "ipv4_to_in_addr_arpa ip \<noteq> ipv6_to_ip6_arpa ip'"
proof
  assume "ipv4_to_in_addr_arpa ip = ipv6_to_ip6_arpa ip'"
  with in_addr_labels [of ip] ip6_labels [of ip'] obtain ps where
    "map show_nat (rev (octets ip)) @ [lit ''in-addr'', lit ''arpa''] = ps @ [lit ''ip6'', lit ''arpa'']" by metis
  then have "lit ''in-addr'' = lit ''ip6''" by simp
  then show False by (simp add: lit_simps)
qed

lemma candidate_in_addr:
  "(ipv4_to_in_addr_arpa ip, r) \<in> set (auto_ptr_candidate L nd exc d) \<longleftrightarrow>
     d = LA ip \<and> is_auto_ptr_candidate_v4 ip \<and> (\<exists>n. parse_name L (nd @ lit ''.'') = Some n \<and> r = ptr_rule n exc)"
proof (cases "parse_name L (nd @ lit ''.'')")
  case None
  then have "auto_ptr_candidate L nd exc d = []"
    by (simp add: auto_ptr_candidate_def Let_def split: local_data.split)
  with None show ?thesis by simp
next
  case (Some n)
  then have "auto_ptr_candidate L nd exc d =
      (case d of LA ip' \<Rightarrow> if is_auto_ptr_candidate_v4 ip' then [(ipv4_to_in_addr_arpa ip', ptr_rule n exc)] else []
       | LAAAA ip' \<Rightarrow> if is_ula ip' then [(ipv6_to_ip6_arpa ip', ptr_rule n exc)] else [] | _ \<Rightarrow> [])"
    by (simp add: auto_ptr_candidate_def Let_def split: local_data.split)
  with Some show ?thesis by (cases d) (auto simp: in_addr_inj in_addr_not_ip6)
qed

lemma entry_candidates_in_addr:
  "(ipv4_to_in_addr_arpa ip, r) \<in> set (entry_candidates L e) \<longleftrightarrow>
     (\<exists>t. forward_entry L e ip t \<and> r = ptr_rule t (re_exception_clients e))"
proof (cases "parse_entry_record L (re_type e) (re_answer e)")
  case None
  then show ?thesis by (simp add: entry_candidates_def forward_entry_def)
next
  case (Some p)
  obtain t d where p: "p = (t, d)" by fastforce
  with Some have t: "data_type d = t" using parse_entry_typed by blast
  have "d = LA ip \<Longrightarrow> t = type_a" using t by (simp add: data_type_def)
  with Some p show ?thesis by (auto simp: entry_candidates_def forward_entry_def candidate_in_addr)
qed

lemma map_of_first:
  assumes "\<And>e r. (k, r) \<in> set (f e) \<longleftrightarrow> P e r" and "\<And>e. length (f e) \<le> 1"
  shows "map_of (concat (map f es)) k = Some r \<longleftrightarrow>
    (\<exists>pre e post. es = pre @ e # post \<and> P e r \<and> (\<forall>e'\<in>set pre. \<forall>r'. \<not> P e' r'))"
proof (induction es)
  case (Cons e es)
  show ?case
  proof (cases "\<exists>r'. P e r'")
    case True
    then obtain r' where "(k, r') \<in> set (f e)" using assms(1) by blast
    moreover have "f e = [] \<or> (\<exists>x. f e = [x])" using assms(2) [of e] by (cases "f e") auto
    ultimately have fe: "f e = [(k, r')]" by auto
    then have "P e r \<longleftrightarrow> r = r'" using assms(1) [of r e] by auto
    moreover have "(\<exists>pre e' post. e # es = pre @ e' # post \<and> P e' r \<and> (\<forall>x\<in>set pre. \<forall>r'. \<not> P x r')) \<longleftrightarrow> P e r" (is "?L \<longleftrightarrow> _")
    proof
      assume ?L
      then obtain pre e' post where h: "e # es = pre @ e' # post" "P e' r" "\<forall>x\<in>set pre. \<forall>r'. \<not> P x r'" by blast
      with True show "P e r" by (cases pre) auto
    next
      assume "P e r"
      then show ?L by (intro exI [of _ "[]"]) simp
    qed
    ultimately show ?thesis using fe by auto
  next
    case False
    then have "map_of (f e) k = None" using assms(1) by (force simp: map_of_eq_None_iff)
    with False Cons show ?thesis by (auto simp: map_add_def Cons_eq_append_conv split: option.split) (metis append_Cons set_ConsD)+
  qed
qed simp

lemma candidates_short: "length (entry_candidates L e) \<le> 1"
  by (auto simp: entry_candidates_def auto_ptr_candidate_def Let_def split: option.split local_data.split)


section \<open>An example table\<close>

definition sample_names :: "rstr name_lib" where
  "sample_names = \<lparr>nl_from_str = Some, nl_ascii = (\<lambda>n. n), nl_display = (\<lambda>n. n), nl_puny = (\<lambda>_. None), nl_idna = (\<lambda>_. None)\<rparr>"

definition sample_rewrites :: "rstr list \<Rightarrow> rewrites_config" where
  "sample_rewrites exc = \<lparr>rc_auto_ptr = False, rc_ttl = 0, rc_entries =
     [\<lparr>re_domain = lit ''a.lan'', re_type = lit ''cname'', re_answer = lit ''b.lan'', re_exception_clients = []\<rparr>,
      \<lparr>re_domain = lit ''B.lan.'', re_type = lit ''A'', re_answer = lit ''192.168.1.2'', re_exception_clients = exc\<rparr>,
      \<lparr>re_domain = lit ''*.lan'', re_type = lit ''A'', re_answer = lit ''10.0.0.1'', re_exception_clients = []\<rparr>]\<rparr>"

definition answer_data :: "'n rr list option \<Rightarrow> 'n rdata list option" where
  "answer_data rs = map_option (map rr_data) rs"


text \<open>A configured TTL of zero becomes one second.\<close>

lemma ttl_floor_is_one: "rt_ttl (table_new sample_names (sample_rewrites [])) = 1"
  by code_simp


section \<open>Properties\<close>



text \<open>Without automatic reverse records, a client gets exactly the answers of the
  table from which the entries that except it are removed: exceptions hide whole entries from the
  client and change nothing else.\<close>

lemma rewrite_exceptions:
  assumes "\<not> rc_auto_ptr cfg"
  shows "rewrite_lookup L (table_new L cfg) q t cl =
    rewrite_lookup L (table_new L (cfg\<lparr>rc_entries := filter (entry_visible cl) (rc_entries cfg)\<rparr>)) q t cl"
  unfolding rewrite_lookup_def by (rule lookup_inner_view [OF table_new_view [OF assms]])

lemma rewrite_exceptions_witness:
  "answer_data (rewrite_lookup sample_names (table_new sample_names (sample_rewrites [lit ''10.1.0.0/16''])) (lit ''b.lan.'') type_a
     (ctx_new (V4 0x0a010203))) = Some [AData 0x0a000001]"
proof -
  let ?c = "sample_rewrites [lit ''10.1.0.0/16'']"
  let ?cl = "ctx_new (V4 0x0a010203)"
  have "\<not> rc_auto_ptr ?c" by (simp add: sample_rewrites_def)
  note same = rewrite_exceptions [OF this, of sample_names "lit ''b.lan.''" type_a ?cl]
  have "answer_data (rewrite_lookup sample_names (table_new sample_names
      (?c\<lparr>rc_entries := filter (entry_visible ?cl) (rc_entries ?c)\<rparr>)) (lit ''b.lan.'') type_a ?cl) = Some [AData 0x0a000001]"
    by code_simp
  then show ?thesis by (simp only: same)
qed

text \<open>The reverse record of an IPv4 address is made from the first entry that maps
  a plain name to this very address, points to that name, and exists exactly when such an entry
  exists, the address is local and no explicit reverse entry is configured.\<close>

lemma auto_ptr_points_back:
  assumes "rc_auto_ptr cfg"
  shows "rt_auto_ptr (table_new L cfg) (ipv4_to_in_addr_arpa ip) = Some r \<longleftrightarrow>
    rt_exact (table_new L cfg) (ipv4_to_in_addr_arpa ip, type_ptr) = None \<and>
    (\<exists>pre e post t. rc_entries cfg = pre @ e # post \<and> forward_entry L e ip t \<and>
       r = ptr_rule t (re_exception_clients e) \<and> \<not> (\<exists>e'\<in>set pre. \<exists>t'. forward_entry L e' ip t'))"
proof -
  obtain y v d where f: "fold (add_entry L True) (rc_entries cfg) (\<lambda>_. None, [], []) = (y, v, d)" by (metis prod_cases3)
  have d: "d = concat (map (entry_candidates L) (rc_entries cfg))"
    using fold_candidates [of L "rc_entries cfg" "(\<lambda>_. None, [], [])"] by (simp add: f)
  have "rt_auto_ptr (table_new L cfg) (ipv4_to_in_addr_arpa ip) =
      (if rt_exact (table_new L cfg) (ipv4_to_in_addr_arpa ip, type_ptr) = None
       then map_of (concat (map (entry_candidates L) (rc_entries cfg))) (ipv4_to_in_addr_arpa ip) else None)"
    using assms by (simp add: table_new_def f insert_auto_ptr_eq d)
  then show ?thesis
    using map_of_first [where k = "ipv4_to_in_addr_arpa ip" and f = "entry_candidates L" and es = "rc_entries cfg" and r = r,
        OF entry_candidates_in_addr candidates_short] by simp blast
qed

lemma auto_ptr_points_back_witness:
  "rt_auto_ptr (table_new sample_names ((sample_rewrites [])\<lparr>rc_auto_ptr := True\<rparr>)) (lit ''2.1.168.192.in-addr.arpa'') =
     Some (ptr_rule (lit ''b.lan.'') [])"
proof -
  let ?c = "(sample_rewrites [])\<lparr>rc_auto_ptr := True\<rparr>"
  have k: "lit ''2.1.168.192.in-addr.arpa'' = ipv4_to_in_addr_arpa 0xc0a80102" by code_simp
  have "rt_exact (table_new sample_names ?c) (ipv4_to_in_addr_arpa 0xc0a80102, type_ptr) = None"
    "forward_entry sample_names (rc_entries ?c ! 1) 0xc0a80102 (lit ''b.lan.'')" "re_exception_clients (rc_entries ?c ! 1) = []"
    "parse_entry_record sample_names (re_type (rc_entries ?c ! 0)) (re_answer (rc_entries ?c ! 0)) = Some (type_cname, LCname (lit ''b.lan.''))"
    "type_cname \<noteq> type_a" "rc_auto_ptr ?c"
    by code_simp+
  moreover have "rc_entries ?c = [rc_entries ?c ! 0] @ (rc_entries ?c ! 1) # [rc_entries ?c ! 2]"
    by (simp add: sample_rewrites_def)
  ultimately show ?thesis
    unfolding k auto_ptr_points_back [OF \<open>rc_auto_ptr ?c\<close>]
    by (intro conjI exI [of _ "[rc_entries ?c ! 0]"] exI [of _ "rc_entries ?c ! 1"] exI [of _ "[rc_entries ?c ! 2]"] exI [of _ "lit ''b.lan.''"])
      (auto simp: forward_entry_def)
qed

end
