(* ===== verification/Message_Wire.thy ===== *)
theory Message_Wire
  imports Dns_Message Config_Model
begin

text \<open>
  Responses the server makes up itself, \<^verbatim>\<open>crates/sito-proto/src/wire.rs\<close>: the synthesizers for
  blocked names, aliases and local records, the EDNS payload helpers and the block padding of
  encrypted responses.  The encoder is the field \<open>dl_encoded_len\<close>: the length of the encoded
  message, or nothing when it cannot be encoded.
\<close>

section \<open>Payload sizes and padding\<close>

datatype wire_error = DecodeError | EncodeError

definition extract_query_info :: "'n message \<Rightarrow> ('n \<times> nat \<times> nat) option" where
  "extract_query_info m =
     (case ms_queries m of [] \<Rightarrow> None | q # _ \<Rightarrow> Some (qu_name q, qu_type q, qu_class q))"

definition client_edns_payload_size :: "'n message \<Rightarrow> nat" where
  "client_edns_payload_size m = (case ms_edns m of Some e \<Rightarrow> max (ed_max_payload e) 512 | None \<Rightarrow> 512)"

definition set_edns_payload_size :: "'n dns_lib \<Rightarrow> nat \<Rightarrow> 'n message \<Rightarrow> 'n message" where
  "set_edns_payload_size D max_payload m =
     (let e = (case ms_edns m of Some e \<Rightarrow> e | None \<Rightarrow> dl_edns_new D)
      in m\<lparr>ms_edns := Some (e\<lparr>ed_max_payload := dl_payload D max_payload\<rparr>)\<rparr>)"

definition dot_padding_block_size :: nat where
  "dot_padding_block_size = 468"

definition padding_option :: nat where
  "padding_option = 12"

definition insert_option :: "nat \<Rightarrow> nat list \<Rightarrow> 'n message \<Rightarrow> 'n message" where
  "insert_option code bytes m =
     m\<lparr>ms_edns := map_option (\<lambda>e. e\<lparr>ed_options := ed_options e @ [(code, bytes)]\<rparr>) (ms_edns m)\<rparr>"

text \<open>\<open>None\<close> is the underflow of the last subtraction.\<close>

definition padding_len :: "nat \<Rightarrow> nat \<Rightarrow> nat option" where
  "padding_len current_len block_size =
     (let target_len = (if current_len mod block_size = 0 then current_len
                        else (current_len div block_size + 1) * block_size);
          target_len = (if target_len < current_len + 4 then target_len + block_size else target_len)
      in if target_len < current_len + 4 then None else Some (target_len - (current_len + 4)))"

definition apply_dot_padding :: "'n dns_lib \<Rightarrow> nat \<Rightarrow> 'n message \<Rightarrow> (wire_error + 'n message) option" where
  "apply_dot_padding D block_size m =
     (if block_size = 0 then Some (Inr m)
      else let m = (if ms_edns m = None then m\<lparr>ms_edns := Some (dl_edns_new D)\<rparr> else m)
           in case dl_encoded_len D m of
                None \<Rightarrow> Some (Inl EncodeError)
              | Some current_len \<Rightarrow>
                  map_option (\<lambda>n. Inr (insert_option padding_option (replicate n 0) m))
                    (padding_len current_len block_size))"


section \<open>Synthesized responses\<close>

text \<open>What every synthesized response takes over from the query: its OPT record carries the
  client's payload size and DO flag and nothing else.\<close>

definition echo_edns :: "'n dns_lib \<Rightarrow> 'n message \<Rightarrow> edns option" where
  "echo_edns D query =
     map_option (\<lambda>e. (dl_edns_new D)\<lparr>ed_max_payload := dl_payload D (ed_max_payload e), ed_dnssec_ok := ed_dnssec_ok e\<rparr>)
       (ms_edns query)"

definition response_base :: "'n dns_lib \<Rightarrow> 'n message \<Rightarrow> 'n message" where
  "response_base D query =
     (message_response (ms_id query) (ms_op_code query))
       \<lparr>ms_recursion_desired := ms_recursion_desired query, ms_recursion_available := True,
        ms_checking_disabled := ms_checking_disabled query, ms_queries := ms_queries query,
        ms_edns := echo_edns D query\<rparr>"

definition zero_ip_answer :: "nat \<Rightarrow> 'n query \<Rightarrow> 'n rr list" where
  "zero_ip_answer ttl q =
     (if qu_type q = type_a then [from_rdata (qu_name q) ttl (AData 0)]
      else if qu_type q = type_aaaa then [from_rdata (qu_name q) ttl (AaaaData 0)]
      else [])"

definition custom_ip_answer :: "ip_addr \<Rightarrow> nat \<Rightarrow> 'n query \<Rightarrow> 'n rr list" where
  "custom_ip_answer ip ttl q =
     (case ip of
        V4 v4 \<Rightarrow> if qu_type q = type_a then [from_rdata (qu_name q) ttl (AData v4)] else []
      | V6 v6 \<Rightarrow> if qu_type q = type_aaaa then [from_rdata (qu_name q) ttl (AaaaData v6)] else [])"

definition synthesize_blocked_response :: "'n dns_lib \<Rightarrow> 'n message \<Rightarrow> blocking_mode \<Rightarrow> nat \<Rightarrow> 'n message" where
  "synthesize_blocked_response D query mode ttl =
     (let response = response_base D query
      in case mode of
           ZeroIp \<Rightarrow> response\<lparr>ms_rcode := rcode_noerror, ms_answers := concat (map (zero_ip_answer ttl) (ms_queries query))\<rparr>
         | Nxdomain \<Rightarrow> response\<lparr>ms_rcode := rcode_nxdomain\<rparr>
         | Refused \<Rightarrow> response\<lparr>ms_rcode := rcode_refused\<rparr>
         | CustomIp ip \<Rightarrow>
             response\<lparr>ms_rcode := rcode_noerror, ms_answers := concat (map (custom_ip_answer ip ttl) (ms_queries query))\<rparr>
         | NullRdata \<Rightarrow> response\<lparr>ms_rcode := rcode_noerror\<rparr>)"

definition synthesize_cname_response :: "'n dns_lib \<Rightarrow> 'n message \<Rightarrow> 'n \<Rightarrow> nat \<Rightarrow> 'n message" where
  "synthesize_cname_response D query cname_target ttl =
     (let response = (response_base D query)\<lparr>ms_rcode := rcode_noerror\<rparr>
      in case ms_queries query of
           [] \<Rightarrow> response
         | q # _ \<Rightarrow> response\<lparr>ms_answers := [from_rdata (qu_name q) ttl (CnameData cname_target)]\<rparr>)"

definition synthesize_records_response :: "'n dns_lib \<Rightarrow> 'n message \<Rightarrow> 'n rr list \<Rightarrow> 'n message" where
  "synthesize_records_response D query answers =
     (response_base D query)\<lparr>ms_rcode := rcode_noerror, ms_answers := answers\<rparr>"

lemma response_base_simps [simp]:
  "ms_id (response_base D q) = ms_id q" "ms_response (response_base D q)" "ms_op_code (response_base D q) = ms_op_code q"
  "ms_recursion_desired (response_base D q) = ms_recursion_desired q" "ms_recursion_available (response_base D q)"
  "ms_checking_disabled (response_base D q) = ms_checking_disabled q" "ms_queries (response_base D q) = ms_queries q"
  "ms_edns (response_base D q) = echo_edns D q" "\<not> ms_authentic_data (response_base D q)"
  "\<not> ms_truncation (response_base D q)" "ms_rcode (response_base D q) = rcode_noerror"
  "ms_answers (response_base D q) = []" "ms_authorities (response_base D q) = []" "ms_additionals (response_base D q) = []"
  by (simp_all add: response_base_def message_response_def)

text \<open>The shape shared by every synthesized response, whatever its records: identifier, opcode,
  question and flags are the query's, nothing claims authenticity, and only answers are filled.\<close>

definition echoes :: "'n dns_lib \<Rightarrow> 'n message \<Rightarrow> 'n message \<Rightarrow> bool" where
  "echoes D query response \<longleftrightarrow>
     ms_id response = ms_id query \<and> ms_response response \<and> ms_op_code response = ms_op_code query \<and>
     ms_queries response = ms_queries query \<and> ms_recursion_desired response = ms_recursion_desired query \<and>
     ms_recursion_available response \<and> ms_checking_disabled response = ms_checking_disabled query \<and>
     ms_edns response = echo_edns D query \<and> \<not> ms_authentic_data response \<and> \<not> ms_truncation response \<and>
     ms_authorities response = [] \<and> ms_additionals response = []"

lemma echoes_base [simp]: "echoes D q (response_base D q)"
  by (simp add: echoes_def)

lemma echoes_update [simp]:
  "echoes D q (r\<lparr>ms_rcode := c\<rparr>) = echoes D q r" "echoes D q (r\<lparr>ms_answers := rs\<rparr>) = echoes D q r"
  by (simp_all add: echoes_def)

lemma echoes_synthesized [simp]:
  "echoes D q (synthesize_blocked_response D q mode ttl)"
  "echoes D q (synthesize_cname_response D q target ttl)"
  "echoes D q (synthesize_records_response D q rs)"
  by (simp_all add: synthesize_blocked_response_def synthesize_cname_response_def synthesize_records_response_def
      Let_def split: blocking_mode.split list.split)

text \<open>Every answer of a blocked response is an address record for a queried name, and the address
  is the configured one.\<close>

definition sink_answer :: "blocking_mode \<Rightarrow> nat \<Rightarrow> 'n query list \<Rightarrow> 'n rr \<Rightarrow> bool" where
  "sink_answer mode ttl qs r \<longleftrightarrow>
     rr_ttl r = ttl \<and>
     (\<exists>q\<in>set qs. rr_name r = qu_name q \<and> rr_type r = qu_type q) \<and>
     (case mode of
        ZeroIp \<Rightarrow> rr_data r = AData 0 \<or> rr_data r = AaaaData 0
      | CustomIp (V4 a) \<Rightarrow> rr_data r = AData a
      | CustomIp (V6 a) \<Rightarrow> rr_data r = AaaaData a
      | _ \<Rightarrow> False)"

lemma blocked_answers_sink:
  "r \<in> set (ms_answers (synthesize_blocked_response D q mode ttl)) \<Longrightarrow> sink_answer mode ttl (ms_queries q) r"
  by (auto simp: synthesize_blocked_response_def sink_answer_def zero_ip_answer_def custom_ip_answer_def from_rdata_def
      rr_type_def type_a_def type_aaaa_def Let_def split: blocking_mode.splits ip_addr.splits if_splits)

lemma padding_len_aligned:
  assumes "4 \<le> b"
  obtains p where "padding_len n b = Some p" "b dvd n + 4 + p" "p < b"
proof -
  define t where "t = (if n mod b = 0 then n else (n div b + 1) * b)"
  define u where "u = (if t < n + 4 then t + b else t)"
  have dvd: "b dvd u" by (auto simp: t_def u_def)
  have "n \<le> t \<and> t < n + b"
  proof -
    have "n = n div b * b + n mod b" by simp
    moreover have "n mod b < b" using assms by simp
    ultimately have "n \<le> (n div b + 1) * b" "n mod b \<noteq> 0 \<Longrightarrow> (n div b + 1) * b < n + b"
      by (simp_all only: distrib_right mult_1)
    then show ?thesis using assms by (simp add: t_def)
  qed
  then have u: "n + 4 \<le> u" "u < n + 4 + b" using assms by (auto simp: u_def)
  have "padding_len n b = (if u < n + 4 then None else Some (u - (n + 4)))"
    by (simp only: padding_len_def t_def u_def Let_def)
  then show thesis using that u dvd by simp
qed


section \<open>Property\<close>

text \<open>For every block size of at least four bytes, padding succeeds on any
  message that can be encoded and the padded message encodes to a multiple of the block size, less
  than a block more than the four option bytes need; the encoder is only assumed to write an
  appended option as four bytes of header and its data.\<close>

lemma dot_padding_aligned:
  assumes encoder: "\<And>m e c bytes. ms_edns m = Some e \<Longrightarrow>
      dl_encoded_len D (insert_option c bytes m) = map_option (\<lambda>n. n + 4 + length bytes) (dl_encoded_len D m)"
    and block: "4 \<le> block"
    and len: "dl_encoded_len D (m\<lparr>ms_edns := Some (case ms_edns m of Some e \<Rightarrow> e | None \<Rightarrow> dl_edns_new D)\<rparr>) = Some n"
  shows "\<exists>m' n'. apply_dot_padding D block m = Some (Inr m') \<and> dl_encoded_len D m' = Some n' \<and> block dvd n' \<and> n' < n + 4 + block"
proof -
  define m1 where "m1 = m\<lparr>ms_edns := Some (case ms_edns m of Some e \<Rightarrow> e | None \<Rightarrow> dl_edns_new D)\<rparr>"
  have m1: "(if ms_edns m = None then m\<lparr>ms_edns := Some (dl_edns_new D)\<rparr> else m) = m1"
    by (cases "ms_edns m") (auto simp: m1_def)
  obtain p where p: "padding_len n block = Some p" "block dvd n + 4 + p" "p < block"
    using padding_len_aligned [OF block] .
  have "apply_dot_padding D block m = Some (Inr (insert_option padding_option (replicate p 0) m1))"
    using block len p(1) by (simp add: apply_dot_padding_def m1 m1_def [symmetric] Let_def del: split_paired_Ex)
  moreover have "dl_encoded_len D (insert_option padding_option (replicate p 0) m1) = Some (n + 4 + p)"
    using encoder [of m1] len by (simp add: m1_def)
  ultimately show ?thesis using p by fastforce
qed

text \<open>An encoder that counts twelve bytes of header and the options satisfies the hypothesis.\<close>

definition counting_dns :: "rstr dns_lib" where
  "counting_dns = \<lparr>dl_ascii = (\<lambda>n. n), dl_zone_of = (\<lambda>z n. suffix z n), dl_is_dnssec = (\<lambda>t. t \<in> {24, 46, 47, 50}),
     dl_encoded_len = (\<lambda>m. Some (12 + (case ms_edns m of None \<Rightarrow> 0 | Some e \<Rightarrow> 11 + sum_list (map (\<lambda>(c, b). 4 + length b) (ed_options e))))),
     dl_puny = (\<lambda>_. None),
     dl_edns_new = \<lparr>ed_version = 0, ed_max_payload = 1232, ed_dnssec_ok = False, ed_subnet = None, ed_options = []\<rparr>,
     dl_payload = max 512, dl_auth_ttl = (\<lambda>_ r _. rr_ttl r)\<rparr>"

lemma dot_padding_aligned_witness:
  "\<exists>m' n'. apply_dot_padding counting_dns 468 (message_response 1 0) = Some (Inr m') \<and>
     dl_encoded_len counting_dns m' = Some n' \<and> 468 dvd n' \<and> n' < 23 + 4 + 468"
  by (rule dot_padding_aligned) (auto simp: counting_dns_def insert_option_def message_response_def)

end
