(* ===== verification/Client_Lists.thy ===== *)
theory Client_Lists
  imports Domain_Names Rust_Net "HOL-Library.AList"
begin

text \<open>
  The curated lists a query is matched against besides the filter rules: parental categories
  (\<^verbatim>\<open>sito-clients/src/parental.rs\<close>), blockable services (\<^verbatim>\<open>services.rs\<close>), their runtime
  replacement with its truncation guard (\<^verbatim>\<open>runtime_lists.rs\<close>), the safe search table
  (\<^verbatim>\<open>safe_search.rs\<close>) and the registry of public encrypted resolvers
  (\<^verbatim>\<open>sito-filter/src/anti_bypass.rs\<close>).

  Hash maps are association lists with distinct keys, hash sets are sets.  The JSON parser is a
  parameter (\<open>json_lib\<close>): it yields an object with string lists in the order the parsed map
  iterates, or a list of services, or an error text.
\<close>

section \<open>Parental categories\<close>

definition category_ignored_hostnames :: "rstr list" where
  "category_ignored_hostnames =
     [lit ''localhost'', lit ''localhost.localdomain'', lit ''local'', lit ''broadcasthost'', lit ''ip6-localhost'',
      lit ''ip6-loopback'', lit ''ip6-localnet'', lit ''ip6-mcastprefix'', lit ''ip6-allnodes'', lit ''ip6-allrouters'',
      lit ''ip6-allhosts'', lit ''0.0.0.0'', lit ''::1'', lit ''::'']"

definition list_label_ok :: "rstr \<Rightarrow> bool" where
  "list_label_ok l \<longleftrightarrow> l \<noteq> [] \<and> str_len l \<le> 63 \<and> list_all host_char l"

definition strip_prefix_or :: "rstr \<Rightarrow> rstr \<Rightarrow> rstr" where
  "strip_prefix_or p s = (case strip_prefix p s of None \<Rightarrow> s | Some t \<Rightarrow> t)"

text \<open>The common end of both normalizations: dots, length and labels.\<close>

definition finish_domain :: "rstr \<Rightarrow> rstr option" where
  "finish_domain s =
     (let s = trim_end_matches (cc CHR ''.'') s
      in if s = [] \<or> str_len s > 253 then None
         else let lowered = to_ascii_lowercase s
              in if list_all list_label_ok (split_on (cc CHR ''.'') lowered) then Some lowered else None)"

definition normalize_domain_token :: "rstr \<Rightarrow> rstr option" where
  "normalize_domain_token token =
     (let s = trim token
      in if s = [] then None
         else let s = strip_prefix_or (lit ''||'') s;
                  s = (case split_once (cc CHR ''$'') s of None \<Rightarrow> s | Some (a, _) \<Rightarrow> a);
                  s = strip_suffix_or (lit ''^'') s
              in finish_domain s)"

definition is_category_ignored :: "rstr \<Rightarrow> bool" where
  "is_category_ignored token =
     list_ex (eq_ignore_ascii_case (trim_end_matches (cc CHR ''.'') token)) category_ignored_hostnames"

definition token_domains :: "rstr list \<Rightarrow> rstr list" where
  "token_domains tokens =
     concat (map (\<lambda>t. if is_category_ignored t then []
                       else case normalize_domain_token t of Some d \<Rightarrow> [d] | None \<Rightarrow> []) tokens)"

definition line_domains :: "rstr \<Rightarrow> rstr list" where
  "line_domains line =
     (let trimmed = trim line
      in if trimmed = [] \<or> prefix (lit ''#'') trimmed \<or> prefix (lit ''!'') trimmed then []
         else let without_comment = trim (hd (split_on (cc CHR ''#'') trimmed))
              in if without_comment = [] then []
                 else case split_whitespace without_comment of
                     [] \<Rightarrow> []
                   | t # ts \<Rightarrow>
                       if parse_ip t \<noteq> None then token_domains ts
                       else if ts = [] then token_domains [t]
                       else [])"

definition parse_domain_lines :: "rstr \<Rightarrow> rstr list" where
  "parse_domain_lines content = concat (map line_domains (lines content))"

record bundled_list =
  bl_id :: rstr
  bl_kind :: rstr
  bl_file :: rstr
  bl_entries :: nat
  bl_checksum_blake3 :: rstr

record parental_registry =
  pr_categories :: "(rstr \<times> rstr set) list"
  pr_lists :: "bundled_list list"

definition parental_empty :: parental_registry where
  "parental_empty = \<lparr>pr_categories = [], pr_lists = []\<rparr>"

definition category_domains :: "parental_registry \<Rightarrow> rstr \<Rightarrow> rstr set option" where
  "category_domains reg category = map_of (pr_categories reg) (to_ascii_lowercase category)"

definition add_category_list :: "rstr \<Rightarrow> rstr \<Rightarrow> parental_registry \<Rightarrow> parental_registry" where
  "add_category_list category content reg =
     (let old = (case category_domains reg category of None \<Rightarrow> {} | Some s \<Rightarrow> s)
      in reg\<lparr>pr_categories := AList.update (to_ascii_lowercase category) (old \<union> set (parse_domain_lines content))
               (pr_categories reg)\<rparr>)"

definition set_category_list :: "rstr \<Rightarrow> rstr \<Rightarrow> parental_registry \<Rightarrow> parental_registry \<times> nat" where
  "set_category_list category content reg =
     (let key = to_ascii_lowercase category;
          reg = add_category_list category content (reg\<lparr>pr_categories := AList.delete key (pr_categories reg)\<rparr>)
      in (reg, case map_of (pr_categories reg) key of None \<Rightarrow> 0 | Some s \<Rightarrow> card s))"

text \<open>The loop over the parent suffixes of a name\<close>

function parent_walk :: "rstr set \<Rightarrow> rstr \<Rightarrow> bool" where
  "parent_walk domains s =
     (case split_once (cc CHR ''.'') s of
        None \<Rightarrow> False
      | Some (_, parent) \<Rightarrow> if parent \<in> domains then True else parent_walk domains parent)"
  by pat_completeness auto
termination
  by (relation "measure (\<lambda>(d, s). length s)") (auto simp: split_once_Some)

declare parent_walk.simps [simp del]

definition matches_set :: "rstr set \<Rightarrow> rstr \<Rightarrow> bool" where
  "matches_set domains query_domain =
     (let q = to_ascii_lowercase (trim_end_matches (cc CHR ''.'') query_domain)
      in if q \<in> domains then True else parent_walk domains q)"

definition matches_category :: "parental_registry \<Rightarrow> rstr \<Rightarrow> rstr \<Rightarrow> bool" where
  "matches_category reg category query_domain =
     (case category_domains reg category of None \<Rightarrow> False | Some domains \<Rightarrow> matches_set domains query_domain)"

definition matches_any_category :: "parental_registry \<Rightarrow> rstr list \<Rightarrow> rstr \<Rightarrow> bool" where
  "matches_any_category reg categories query_domain = list_ex (\<lambda>c. matches_category reg c query_domain) categories"


section \<open>Services\<close>

record service_registry =
  sg_services :: "(rstr \<times> rstr set) list"
  sg_lists :: "bundled_list list"

definition services_empty :: service_registry where
  "services_empty = \<lparr>sg_services = [], sg_lists = []\<rparr>"

record json_lib =
  js_map :: "rstr \<Rightarrow> (rstr \<times> rstr list) list option"
  js_services :: "rstr \<Rightarrow> rstr + (rstr \<times> rstr list) list"

definition clean_domain_rule :: "rstr \<Rightarrow> rstr option" where
  "clean_domain_rule rule =
     (let trimmed = trim rule
      in if trimmed = [] then None
         else if (prefix (lit ''/'') trimmed \<and> suffix (lit ''/'') trimmed) \<or> contains_char (cc CHR ''*'') trimmed \<or>
                 contains_char (cc CHR ''?'') trimmed \<or> contains_char (cc CHR ''~'') trimmed
         then None
         else finish_domain (strip_suffix_or (lit ''^'') (strip_prefix_or (lit ''||'') trimmed)))"

definition clean_rules :: "rstr list \<Rightarrow> rstr set" where
  "clean_rules rules = set (concat (map (\<lambda>r. case clean_domain_rule r of Some d \<Rightarrow> [d] | None \<Rightarrow> []) rules))"

definition services_of :: "(rstr \<times> rstr list) list \<Rightarrow> service_registry" where
  "services_of entries =
     \<lparr>sg_services = fold (\<lambda>(svc, rules). AList.update (to_ascii_lowercase svc) (clean_rules rules)) entries [],
      sg_lists = []\<rparr>"

definition services_from_json :: "json_lib \<Rightarrow> rstr \<Rightarrow> rstr + service_registry" where
  "services_from_json J json =
     (case js_map J json of
        Some entries \<Rightarrow> Inr (services_of entries)
      | None \<Rightarrow> (case js_services J json of Inl e \<Rightarrow> Inl e | Inr entries \<Rightarrow> Inr (services_of entries)))"

definition service_count :: "service_registry \<Rightarrow> nat" where
  "service_count reg = length (sg_services reg)"

definition is_service_domain :: "service_registry \<Rightarrow> rstr \<Rightarrow> rstr \<Rightarrow> bool" where
  "is_service_domain reg service query_domain =
     (case map_of (sg_services reg) (to_ascii_lowercase service) of
        None \<Rightarrow> False
      | Some rules \<Rightarrow> matches_set rules query_domain)"

definition matches_any_service :: "service_registry \<Rightarrow> rstr list \<Rightarrow> rstr \<Rightarrow> rstr option" where
  "matches_any_service reg services query_domain = find (\<lambda>svc. is_service_domain reg svc query_domain) services"


section \<open>Bundled lists\<close>

datatype bundled_list_error =
    MissingContent rstr
  | ChecksumMismatch rstr rstr rstr
  | InvalidContent rstr rstr

record bundled_env =
  be_content :: "rstr \<Rightarrow> rstr option"
  be_blake3 :: "rstr \<Rightarrow> rstr"

definition bundled_verify :: "bundled_env \<Rightarrow> bundled_list \<Rightarrow> rstr \<Rightarrow> bundled_list_error + unit" where
  "bundled_verify B l content =
     (let actual = be_blake3 B content
      in if eq_ignore_ascii_case actual (bl_checksum_blake3 l) then Inr ()
         else Inl (ChecksumMismatch (bl_id l) (bl_checksum_blake3 l) actual))"

definition verified_content :: "bundled_env \<Rightarrow> bundled_list \<Rightarrow> bundled_list_error + rstr" where
  "verified_content B l =
     (case be_content B (bl_file l) of
        None \<Rightarrow> Inl (MissingContent (bl_id l))
      | Some content \<Rightarrow> (case bundled_verify B l content of Inl e \<Rightarrow> Inl e | Inr _ \<Rightarrow> Inr content))"

fun parental_load_loop :: "bundled_env \<Rightarrow> bundled_list list \<Rightarrow> parental_registry \<Rightarrow> bundled_list_error + parental_registry" where
  "parental_load_loop B [] reg = Inr reg"
| "parental_load_loop B (l # ls) reg =
     (if bl_kind l \<noteq> lit ''domains'' then parental_load_loop B ls reg
      else case verified_content B l of
          Inl e \<Rightarrow> Inl e
        | Inr content \<Rightarrow> parental_load_loop B ls (add_category_list (bl_id l) content reg))"

definition parental_from_manifest :: "bundled_env \<Rightarrow> bundled_list list \<Rightarrow> bundled_list_error + parental_registry" where
  "parental_from_manifest B manifest = parental_load_loop B manifest \<lparr>pr_categories = [], pr_lists = manifest\<rparr>"

definition services_from_manifest :: "bundled_env \<Rightarrow> json_lib \<Rightarrow> bundled_list list \<Rightarrow> bundled_list_error + service_registry" where
  "services_from_manifest B J manifest =
     (case find (\<lambda>l. bl_id l = lit ''services'') manifest of
        None \<Rightarrow> Inl (MissingContent (lit ''services''))
      | Some l \<Rightarrow>
          (case verified_content B l of
             Inl e \<Rightarrow> Inl e
           | Inr content \<Rightarrow>
               (case services_from_json J content of
                  Inl reason \<Rightarrow> Inl (InvalidContent (lit ''services'') reason)
                | Inr reg \<Rightarrow> Inr (reg\<lparr>sg_lists := [l]\<rparr>))))"


section \<open>Runtime replacement\<close>

record list_status =
  ls_category :: rstr
  ls_source_url :: "rstr option"
  ls_last_refresh_unix :: "nat option"
  ls_entries :: nat
  ls_bundled :: bool

record runtime_lists =
  rl_parental :: parental_registry
  rl_services :: service_registry
  rl_statuses :: "rstr \<Rightarrow> list_status option"

definition bundled_status :: "bundled_list \<Rightarrow> list_status" where
  "bundled_status l =
     \<lparr>ls_category = bl_id l, ls_source_url = None, ls_last_refresh_unix = None, ls_entries = bl_entries l, ls_bundled = True\<rparr>"

definition lists_from_arcs :: "parental_registry \<Rightarrow> service_registry \<Rightarrow> runtime_lists" where
  "lists_from_arcs parental services =
     \<lparr>rl_parental = parental, rl_services = services,
      rl_statuses = fold (\<lambda>l m. m(bl_id l \<mapsto> bundled_status l)) (pr_lists parental @ sg_lists services) (\<lambda>_. None)\<rparr>"

definition status_or_new :: "rstr \<Rightarrow> runtime_lists \<Rightarrow> list_status" where
  "status_or_new category rl =
     (case rl_statuses rl category of
        Some s \<Rightarrow> s
      | None \<Rightarrow> \<lparr>ls_category = category, ls_source_url = None, ls_last_refresh_unix = None, ls_entries = 0, ls_bundled = False\<rparr>)"

definition mark_refreshed :: "nat \<Rightarrow> rstr \<Rightarrow> rstr \<Rightarrow> runtime_lists \<Rightarrow> runtime_lists" where
  "mark_refreshed now category source_url rl =
     rl\<lparr>rl_statuses := (rl_statuses rl)(category \<mapsto>
        (status_or_new category rl)\<lparr>ls_source_url := Some source_url, ls_last_refresh_unix := Some now, ls_bundled := False\<rparr>)\<rparr>"

definition previous_status :: "rstr \<Rightarrow> runtime_lists \<Rightarrow> list_status option" where
  "previous_status category rl =
     (case rl_statuses rl category of Some s \<Rightarrow> Some s | None \<Rightarrow> rl_statuses rl (to_ascii_lowercase category))"

definition refused :: "rstr \<Rightarrow> rstr \<Rightarrow> rstr" where
  "refused category detail =
     lit ''refusing to replace category '' @ [39] @ category @ [39] @ lit '' with '' @ detail @
     lit ''; use a forced refresh to accept the truncation''"

definition apply_content_inner :: "json_lib \<Rightarrow> rstr \<Rightarrow> rstr \<Rightarrow> bool \<Rightarrow> runtime_lists \<Rightarrow> runtime_lists \<times> (rstr + nat)" where
  "apply_content_inner J category content force rl =
     (let parsed =
            (if eq_ignore_ascii_case category (lit ''services'')
             then (case services_from_json J content of
                     Inl e \<Rightarrow> Inl e
                   | Inr reg \<Rightarrow> Inr (service_count reg, rl\<lparr>rl_services := reg\<rparr>))
             else let (reg, entries) = set_category_list category content (rl_parental rl)
                  in Inr (entries, rl\<lparr>rl_parental := reg\<rparr>))
      in case parsed of
           Inl e \<Rightarrow> (rl, Inl e)
         | Inr (entries, rl') \<Rightarrow>
             (let status = previous_status category rl;
                  previous = (case status of Some s \<Rightarrow> ls_entries s | None \<Rightarrow> 0);
                  was_bundled = (case status of Some s \<Rightarrow> ls_bundled s | None \<Rightarrow> True);
                  truncating = (entries = 0 \<or> sat_mul64 entries 2 < previous)
              in if \<not> force \<and> previous > 0 \<and> truncating \<and> (\<not> was_bundled \<or> entries = 0)
                 then (rl, Inl (refused category
                         (if entries = 0 then lit ''empty content''
                          else show_nat entries @ lit '' entries after '' @ show_nat previous @ lit '' (>50% shrink)'')))
                 else (rl'\<lparr>rl_statuses := (rl_statuses rl)(category \<mapsto>
                           (status_or_new category rl)\<lparr>ls_entries := entries, ls_bundled := False\<rparr>)\<rparr>,
                       Inr entries)))"

definition apply_content :: "json_lib \<Rightarrow> rstr \<Rightarrow> rstr \<Rightarrow> runtime_lists \<Rightarrow> runtime_lists \<times> (rstr + nat)" where
  "apply_content J category content rl = apply_content_inner J category content False rl"

definition apply_content_forced :: "json_lib \<Rightarrow> rstr \<Rightarrow> rstr \<Rightarrow> runtime_lists \<Rightarrow> runtime_lists \<times> (rstr + nat)" where
  "apply_content_forced J category content rl = apply_content_inner J category content True rl"


section \<open>Safe search\<close>

datatype youtube_mode = Strict | Moderate

definition target_cname :: "youtube_mode \<Rightarrow> rstr" where
  "target_cname m = (case m of Strict \<Rightarrow> lit ''restrict.youtube.com'' | Moderate \<Rightarrow> lit ''restrictmoderate.youtube.com'')"

definition is_youtube_domain :: "rstr \<Rightarrow> bool" where
  "is_youtube_domain d \<longleftrightarrow>
     d \<in> {lit ''youtube.com'', lit ''www.youtube.com'', lit ''m.youtube.com'', lit ''youtubei.googleapis.com'',
          lit ''youtube.googleapis.com'', lit ''www.youtube-nocookie.com'', lit ''youtube-nocookie.com''}"

definition is_bing_domain :: "rstr \<Rightarrow> bool" where
  "is_bing_domain d \<longleftrightarrow> d \<in> {lit ''bing.com'', lit ''www.bing.com'', lit ''cn.bing.com''}"

definition is_duckduckgo_domain :: "rstr \<Rightarrow> bool" where
  "is_duckduckgo_domain d \<longleftrightarrow> d \<in> {lit ''duckduckgo.com'', lit ''www.duckduckgo.com'', lit ''safe.duckduckgo.com''}"

definition is_ascii_alphabetic :: "rchar \<Rightarrow> bool" where
  "is_ascii_alphabetic c \<longleftrightarrow> (65 \<le> c \<and> c \<le> 90) \<or> (97 \<le> c \<and> c \<le> 122)"

definition tld_ok :: "rstr \<Rightarrow> bool" where
  "tld_ok tld \<longleftrightarrow> str_len tld \<ge> 2 \<and> list_all is_ascii_alphabetic tld"

definition is_google_search_domain :: "rstr \<Rightarrow> bool" where
  "is_google_search_domain d =
     (let candidate = strip_prefix_or (lit ''www.'') d
      in case strip_prefix (lit ''google.'') candidate of
           None \<Rightarrow> False
         | Some suff \<Rightarrow>
             if suff = [] then False
             else (case split_on (cc CHR ''.'') suff of
                     [tld] \<Rightarrow> tld_ok tld
                   | [mid, tld] \<Rightarrow> mid \<in> {lit ''co'', lit ''com'', lit ''org'', lit ''net''} \<and> tld_ok tld
                   | _ \<Rightarrow> False))"

definition match_safe_search :: "rstr \<Rightarrow> youtube_mode \<Rightarrow> rstr option" where
  "match_safe_search domain mode =
     (let d = to_ascii_lowercase (trim_end_matches (cc CHR ''.'') domain)
      in if is_youtube_domain d then Some (target_cname mode)
         else if is_google_search_domain d then Some (lit ''forcesafesearch.google.com'')
         else if is_bing_domain d then Some (lit ''strict.bing.com'')
         else if is_duckduckgo_domain d then Some (lit ''safe.duckduckgo.com'')
         else None)"


section \<open>Public encrypted resolvers\<close>

record doh_resolver_entry =
  dr_domains :: "rstr list"
  dr_ips :: "rstr list"

record anti_bypass_registry =
  ab_exact_domains :: "rstr set"
  ab_suffix_domains :: "rstr list"
  ab_ips :: "ip_addr set"

definition anti_bypass_empty :: anti_bypass_registry where
  "anti_bypass_empty = \<lparr>ab_exact_domains = {}, ab_suffix_domains = [], ab_ips = {}\<rparr>"

definition resolver_domain :: "rstr \<Rightarrow> rstr" where
  "resolver_domain domain = to_ascii_lowercase (trim_end_matches (cc CHR ''.'') (trim domain))"

definition add_resolver_domain :: "rstr \<Rightarrow> anti_bypass_registry \<Rightarrow> anti_bypass_registry" where
  "add_resolver_domain domain reg =
     (let d = resolver_domain domain
      in case strip_prefix (lit ''*.'') d of
           Some suff \<Rightarrow> reg\<lparr>ab_suffix_domains := ab_suffix_domains reg @ [lit ''.'' @ suff]\<rparr>
         | None \<Rightarrow> reg\<lparr>ab_exact_domains := insert d (ab_exact_domains reg),
                       ab_suffix_domains := ab_suffix_domains reg @ [lit ''.'' @ d]\<rparr>)"

definition add_resolver_ip :: "rstr \<Rightarrow> anti_bypass_registry \<Rightarrow> anti_bypass_registry" where
  "add_resolver_ip ip_str reg =
     (case parse_ip (trim ip_str) of Some ip \<Rightarrow> reg\<lparr>ab_ips := insert ip (ab_ips reg)\<rparr> | None \<Rightarrow> reg)"

definition add_resolver_entry :: "doh_resolver_entry \<Rightarrow> anti_bypass_registry \<Rightarrow> anti_bypass_registry" where
  "add_resolver_entry entry reg = fold add_resolver_ip (dr_ips entry) (fold add_resolver_domain (dr_domains entry) reg)"

text \<open>\<^verbatim>\<open>from_json\<close> after the parser\<close>

definition anti_bypass_of :: "doh_resolver_entry list \<Rightarrow> anti_bypass_registry" where
  "anti_bypass_of entries = fold add_resolver_entry entries anti_bypass_empty"

definition ab_matches_domain :: "anti_bypass_registry \<Rightarrow> rstr \<Rightarrow> bool" where
  "ab_matches_domain reg domain =
     (let d = resolver_domain domain
      in if d \<in> ab_exact_domains reg then True else list_ex (\<lambda>s. suffix s d) (ab_suffix_domains reg))"

definition ab_matches_ip :: "anti_bypass_registry \<Rightarrow> ip_addr \<Rightarrow> bool" where
  "ab_matches_ip reg ip \<longleftrightarrow> ip \<in> ab_ips reg"

end
