(* ===== verification/Lists_Correct.thy ===== *)
theory Lists_Correct
  imports Client_Lists
begin

text \<open>
  What the curated lists promise: the walk over parent suffixes is label-wise suffix matching,
  replacing a category replaces exactly that category, refreshes cannot silently shrink one, the
  resolver registry matches the listed names and their subdomains, and safe search rewrites to
  names it leaves alone.
\<close>

section \<open>Matching\<close>

lemma parent_walk_iff: "parent_walk R s \<longleftrightarrow> (\<exists>p d. s = p @ 46 # d \<and> d \<in> R)"
proof (induction R s rule: parent_walk.induct)
  case (1 R s)
  show ?case
  proof (cases "split_once 46 s")
    case None
    then have "46 \<notin> set s" by (simp add: split_once_None)
    then show ?thesis by (auto simp: parent_walk.simps [of R s] None)
  next
    case (Some ab)
    then obtain a b where ab: "split_once 46 s = Some (a, b)" "s = a @ 46 # b" "46 \<notin> set a"
      by (cases ab) (auto simp: split_once_Some)
    have "(\<exists>p d. s = p @ 46 # d \<and> d \<in> R) \<longleftrightarrow> b \<in> R \<or> (\<exists>p d. b = p @ 46 # d \<and> d \<in> R)"
    proof
      assume "\<exists>p d. s = p @ 46 # d \<and> d \<in> R"
      then obtain p d where pd: "a @ 46 # b = p @ 46 # d" "d \<in> R" using ab(2) by auto
      then consider "b = d" | q where "p = a @ 46 # q"
        using ab(3) by (auto simp: append_eq_append_conv2 Cons_eq_append_conv append_eq_Cons_conv)
      then show "b \<in> R \<or> (\<exists>p d. b = p @ 46 # d \<and> d \<in> R)" using pd by cases auto
    next
      assume "b \<in> R \<or> (\<exists>p d. b = p @ 46 # d \<and> d \<in> R)"
      then show "\<exists>p d. s = p @ 46 # d \<and> d \<in> R"
      proof
        assume "\<exists>p d. b = p @ 46 # d \<and> d \<in> R"
        then obtain p d where "s = (a @ 46 # p) @ 46 # d" "d \<in> R" using ab(2) by auto
        then show ?thesis by blast
      qed (use ab(2) in blast)
    qed
    then show ?thesis
      using 1 [of "(a, b)" a b] ab(1) by (simp add: parent_walk.simps [of R s])
  qed
qed

lemma matches_set_iff:
  assumes "[] \<notin> R"
  shows "matches_set R q \<longleftrightarrow>
    (\<exists>d\<in>R. matches_domain_suffix (to_ascii_lowercase (trim_end_matches (cc CHR ''.'') q)) d)"
proof -
  have "matches_domain_suffix s d \<longleftrightarrow> s = d \<or> (\<exists>p. s = p @ 46 # d)" if "d \<in> R" for s d
    using that assms by (auto simp: matches_domain_suffix_iff suffix_split_iff)
  then show ?thesis by (auto simp: matches_set_def parent_walk_iff Let_def)
qed

lemma finish_domain_Some:
  assumes "finish_domain s = Some d"
  shows "d \<noteq> [] \<and> str_len d \<le> 253 \<and> to_ascii_lowercase d = d \<and> (\<forall>l\<in>set (split_on 46 d). list_label_ok l)"
  using assms by (auto simp: finish_domain_def Let_def list_all_iff split: if_splits)

lemma normalize_domain_token_Some: "normalize_domain_token t = Some d \<Longrightarrow> \<exists>s. finish_domain s = Some d"
  by (auto simp: normalize_domain_token_def Let_def split: if_splits option.splits)

lemma token_domains_mem: "d \<in> set (token_domains ts) \<Longrightarrow> \<exists>t. normalize_domain_token t = Some d"
proof (induction ts)
  case (Cons t ts)
  then show ?case
    by (cases "normalize_domain_token t"; cases "is_category_ignored t") (auto simp: token_domains_def)
qed (simp add: token_domains_def)

lemma parse_domain_lines_finish:
  assumes "d \<in> set (parse_domain_lines content)"
  shows "\<exists>s. finish_domain s = Some d"
proof -
  obtain line ts where "d \<in> set (token_domains ts)"
    using assms by (auto simp: parse_domain_lines_def line_domains_def Let_def split: if_splits list.splits)
  from token_domains_mem [OF this] show ?thesis using normalize_domain_token_Some by blast
qed

lemma parse_domain_lines_ne: "[] \<notin> set (parse_domain_lines content)"
  using parse_domain_lines_finish finish_domain_Some by blast

lemma category_set:
  "category_domains (fst (set_category_list c content reg)) c' =
     (if to_ascii_lowercase c' = to_ascii_lowercase c then Some (set (parse_domain_lines content)) else category_domains reg c')"
  by (simp add: set_category_list_def add_category_list_def category_domains_def Let_def update_conv' delete_conv')

lemma set_count: "snd (set_category_list c content reg) = card (set (parse_domain_lines content))"
  by (simp add: set_category_list_def add_category_list_def category_domains_def Let_def update_conv' delete_conv')



section \<open>Resolver names\<close>

text \<open>What one listed domain stands for\<close>

definition resolver_covers :: "rstr \<Rightarrow> rstr \<Rightarrow> bool" where
  "resolver_covers listed n =
     (case strip_prefix (lit ''*.'') (resolver_domain listed) of
        Some s \<Rightarrow> \<exists>p. n = p @ lit ''.'' @ s
      | None \<Rightarrow> n = resolver_domain listed \<or> (\<exists>p. n = p @ lit ''.'' @ resolver_domain listed))"

definition ab_covers :: "anti_bypass_registry \<Rightarrow> rstr \<Rightarrow> bool" where
  "ab_covers reg n \<longleftrightarrow> n \<in> ab_exact_domains reg \<or> list_ex (\<lambda>s. suffix s n) (ab_suffix_domains reg)"

lemma ab_covers_add: "ab_covers (add_resolver_domain x reg) n \<longleftrightarrow> ab_covers reg n \<or> resolver_covers x n"
  by (auto simp: ab_covers_def add_resolver_domain_def resolver_covers_def Let_def suffix_def split: option.splits)

lemma ab_covers_domains: "ab_covers (fold add_resolver_domain xs reg) n \<longleftrightarrow> ab_covers reg n \<or> (\<exists>x\<in>set xs. resolver_covers x n)"
  by (induction xs arbitrary: reg) (auto simp: ab_covers_add)

lemma ab_ips_domains: "ab_ips (fold add_resolver_domain xs reg) = ab_ips reg"
  by (induction xs arbitrary: reg) (auto simp: add_resolver_domain_def Let_def split: option.split)

lemma ab_ips_fold:
  "ab_ips (fold add_resolver_ip xs reg) = ab_ips reg \<union> {ip. \<exists>x\<in>set xs. parse_ip (trim x) = Some ip}"
  by (induction xs arbitrary: reg) (auto simp: add_resolver_ip_def split: option.split)

lemma ab_covers_ips: "ab_covers (fold add_resolver_ip xs reg) n = ab_covers reg n"
  by (induction xs arbitrary: reg) (auto simp: add_resolver_ip_def ab_covers_def split: option.split)

lemma ab_entries:
  "ab_covers (fold add_resolver_entry es reg) n \<longleftrightarrow> ab_covers reg n \<or> (\<exists>e\<in>set es. \<exists>x\<in>set (dr_domains e). resolver_covers x n)"
  "ab_ips (fold add_resolver_entry es reg) =
     ab_ips reg \<union> {ip. \<exists>e\<in>set es. \<exists>x\<in>set (dr_ips e). parse_ip (trim x) = Some ip}"
  by (induction es arbitrary: reg)
    (auto simp: add_resolver_entry_def ab_covers_ips ab_covers_domains ab_ips_fold ab_ips_domains)


section \<open>Safe search targets\<close>

lemma safe_targets_table:
  "match_safe_search (target_cname Strict) Strict = None" "match_safe_search (target_cname Strict) Moderate = None"
  "match_safe_search (target_cname Moderate) Strict = None" "match_safe_search (target_cname Moderate) Moderate = None"
  "match_safe_search (lit ''forcesafesearch.google.com'') Strict = None"
  "match_safe_search (lit ''forcesafesearch.google.com'') Moderate = None"
  "match_safe_search (lit ''strict.bing.com'') Strict = None" "match_safe_search (lit ''strict.bing.com'') Moderate = None"
  "match_safe_search (lit ''safe.duckduckgo.com'') Strict = Some (lit ''safe.duckduckgo.com'')"
  "match_safe_search (lit ''safe.duckduckgo.com'') Moderate = Some (lit ''safe.duckduckgo.com'')"
  by code_simp+

lemma safe_targets:
  "match_safe_search (target_cname y) m = None" "match_safe_search (lit ''forcesafesearch.google.com'') m = None"
  "match_safe_search (lit ''strict.bing.com'') m = None"
  "match_safe_search (lit ''safe.duckduckgo.com'') m = Some (lit ''safe.duckduckgo.com'')"
  by (cases y; cases m; simp add: safe_targets_table)+


section \<open>Spellings of a category\<close>

text \<open>The guard consults the status recorded under the spelling it is given: content refreshed
  under another spelling of the same category is not counted while this spelling is still recorded
  as bundled.\<close>

lemma guard_per_spelling:
  assumes "\<not> eq_ignore_ascii_case c (lit ''services'')" and "rl_statuses rl c = Some s" "ls_bundled s"
    and "parse_domain_lines content \<noteq> []"
  shows "snd (apply_content J c content rl) = Inr (card (set (parse_domain_lines content)))"
  using assms by (simp add: apply_content_def apply_content_inner_def Let_def split_beta set_count previous_status_def)


section \<open>Properties\<close>

text \<open>Replacing the content of a parental category makes that category match
  exactly the names that are a listed domain or a subdomain of one, label by label and ignoring
  case and trailing dots, for every spelling of the category's name; no other category changes; and
  the reported count is the number of distinct domains stored.  The walk over parent suffixes thus
  agrees with scanning the list with the reference suffix test.\<close>

lemma category_replaced:
  "(matches_category (fst (set_category_list c content reg)) c' q \<longleftrightarrow>
     (if eq_ignore_ascii_case c' c
      then (\<exists>d\<in>set (parse_domain_lines content).
              matches_domain_suffix (to_ascii_lowercase (trim_end_matches (cc CHR ''.'') q)) d)
      else matches_category reg c' q)) \<and>
   snd (set_category_list c content reg) = card (set (parse_domain_lines content))"
  by (simp add: matches_category_def category_set eq_ignore_ascii_case_def matches_set_iff parse_domain_lines_ne set_count)


definition no_json :: json_lib where
  "no_json = \<lparr>js_map = (\<lambda>_. None), js_services = (\<lambda>_. Inl (lit ''no json''))\<rparr>"

definition sample_lists :: runtime_lists where
  "sample_lists =
     \<lparr>rl_parental = \<lparr>pr_categories = [(lit ''adult'', {lit ''a.example'', lit ''b.example''})], pr_lists = []\<rparr>,
      rl_services = services_empty,
      rl_statuses = [lit ''adult'' \<mapsto> \<lparr>ls_category = lit ''adult'', ls_source_url = None, ls_last_refresh_unix = None,
                                      ls_entries = 2, ls_bundled = False\<rparr>]\<rparr>"

lemma sample_lists_eval: "snd (apply_content no_json (lit ''adult'') (lit ''c.example'') sample_lists) = Inr 1"
proof -
  have "snd (set_category_list (lit ''adult'') (lit ''c.example'') (rl_parental sample_lists)) = 1"
    "\<not> eq_ignore_ascii_case (lit ''adult'') (lit ''services'')" by code_simp+
  moreover obtain st where "previous_status (lit ''adult'') sample_lists = Some st" "ls_entries st = 2"
    by (simp add: previous_status_def sample_lists_def)
  moreover have "sat_mul64 1 2 = 2" by (simp add: sat_mul64_def u64_max_def)
  ultimately show ?thesis
    by (simp add: apply_content_def apply_content_inner_def Let_def split_beta)
qed


text \<open>A name counts as a public encrypted resolver exactly when the data
  lists it or a parent of it, or lists a wildcard strictly above it; an address exactly when the
  data lists its text.\<close>

lemma resolver_registry_exact:
  "(ab_matches_domain (anti_bypass_of es) q \<longleftrightarrow>
      (\<exists>e\<in>set es. \<exists>x\<in>set (dr_domains e). resolver_covers x (resolver_domain q))) \<and>
   (ab_matches_ip (anti_bypass_of es) ip \<longleftrightarrow> (\<exists>e\<in>set es. \<exists>x\<in>set (dr_ips e). parse_ip (trim x) = Some ip))"
proof -
  have "ab_matches_domain reg q = ab_covers reg (resolver_domain q)" for reg
    by (simp add: ab_matches_domain_def ab_covers_def Let_def)
  then show ?thesis
    by (simp add: anti_bypass_of_def ab_matches_ip_def ab_entries) (simp add: anti_bypass_empty_def ab_covers_def)
qed

text \<open>Whatever safe search answers with is a name that safe search itself leaves
  alone, so following the alias ends, with one exception: the DuckDuckGo target is rewritten to
  itself.\<close>

lemma safe_search_targets:
  assumes "match_safe_search d m = Some t"
  shows "match_safe_search t m' = (if t = lit ''safe.duckduckgo.com'' then Some t else None)"
proof -
  have "t \<in> {target_cname m, lit ''forcesafesearch.google.com'', lit ''strict.bing.com'', lit ''safe.duckduckgo.com''}"
    using assms by (auto simp: match_safe_search_def Let_def split: if_splits)
  moreover have "target_cname m \<noteq> lit ''safe.duckduckgo.com''" "lit ''forcesafesearch.google.com'' \<noteq> lit ''safe.duckduckgo.com''"
    "lit ''strict.bing.com'' \<noteq> lit ''safe.duckduckgo.com''"
    by (simp_all add: target_cname_def lit_simps split: youtube_mode.split)
  ultimately show ?thesis using safe_targets by auto
qed

lemma safe_search_targets_witness:
  "match_safe_search (lit ''www.google.de'') Strict = Some (lit ''forcesafesearch.google.com'') \<and>
   match_safe_search (lit ''forcesafesearch.google.com'') Strict = None"
proof -
  have g: "match_safe_search (lit ''www.google.de'') Strict = Some (lit ''forcesafesearch.google.com'')" by code_simp
  show ?thesis using safe_search_targets [OF g, of Strict] g by (simp add: lit_simps)
qed

end
