(* ===== verification/Client_Registry.thy ===== *)
theory Client_Registry
  imports Client_Lists Core_Types Rule_Syntax "HOL-Library.Product_Lexorder"
begin

unbundle bit_operations_syntax

text \<open>
  Identifying the client behind a query and deriving its policy: \<^verbatim>\<open>crates/sito-clients/src\<close>,
  files \<^verbatim>\<open>config.rs\<close>, \<^verbatim>\<open>policy.rs\<close>, \<^verbatim>\<open>mac.rs\<close>, \<^verbatim>\<open>registry.rs\<close> and the evaluation part of
  \<^verbatim>\<open>schedule.rs\<close>.

  Hash maps that are iterated or counted are association lists in iteration order, the others are
  functions.  A time is a UTC instant in nanoseconds with an offset; the cron engine is a
  parameter that answers for a parsed expression and a time, or fails.  Instants of the monotonic
  clock are nanoseconds as well.
\<close>

section \<open>Addresses in order\<close>

text \<open>\<^verbatim>\<open>IpAddr\<close> derives its order: version 4 before version 6, then the number.\<close>

instantiation ip_addr :: linorder
begin

definition less_eq_ip_addr :: "ip_addr \<Rightarrow> ip_addr \<Rightarrow> bool" where
  "less_eq_ip_addr a b =
     (case (a, b) of (V4 x, V4 y) \<Rightarrow> x \<le> y | (V6 x, V6 y) \<Rightarrow> x \<le> y | (V4 _, V6 _) \<Rightarrow> True | (V6 _, V4 _) \<Rightarrow> False)"

definition less_ip_addr :: "ip_addr \<Rightarrow> ip_addr \<Rightarrow> bool" where
  "less_ip_addr a b \<longleftrightarrow> a \<le> b \<and> \<not> b \<le> (a :: ip_addr)"

instance
  by standard (auto simp: less_eq_ip_addr_def less_ip_addr_def split: ip_addr.splits)

end


section \<open>MAC addresses\<close>

definition is_ascii_hexdigit :: "rchar \<Rightarrow> bool" where
  "is_ascii_hexdigit c \<longleftrightarrow> is_ascii_digit c \<or> (65 \<le> c \<and> c \<le> 70) \<or> (97 \<le> c \<and> c \<le> 102)"

fun mac_format :: "nat \<Rightarrow> rstr \<Rightarrow> rstr" where
  "mac_format i [] = []"
| "mac_format i (c # s) = (if i > 0 \<and> i mod 2 = 0 then [cc CHR '':'', c] else [c]) @ mac_format (i + 1) s"

definition normalize_mac :: "rstr \<Rightarrow> rstr option" where
  "normalize_mac s =
     (let clean = map lower (filter is_ascii_hexdigit s)
      in if str_len clean \<noteq> 12 then None else Some (mac_format 0 clean))"

definition normalize_mac_id :: "rstr \<Rightarrow> rstr option" where
  "normalize_mac_id value =
     (let trimmed = trim value;
          explicit = eq_ignore_ascii_case (take 4 trimmed) (lit ''mac:'');
          candidate = (if explicit then drop 4 trimmed else trimmed);
          has_separators = contains_char (cc CHR '':'') candidate \<or> contains_char (cc CHR ''-'') candidate \<or>
                           contains_char (cc CHR ''.'') candidate
      in if \<not> explicit \<and> \<not> has_separators then None else normalize_mac candidate)"

record mac_resolver =
  mr_cache :: "(ip_addr \<times> rstr \<times> nat) list"
  mr_negative :: "(ip_addr \<times> nat) list"
  mr_snapshot :: "ip_addr \<Rightarrow> rstr option"
  mr_mock_arp :: "(ip_addr \<Rightarrow> rstr option) option"

definition mac_cache_ttl :: nat where "mac_cache_ttl = 60 * 1000000000"

definition mac_negative_ttl :: nat where "mac_negative_ttl = 5 * 1000000000"

definition max_mac_entries :: nat where "max_mac_entries = 4096"

definition max_arp_entries :: nat where "max_arp_entries = 4096"

definition mac_resolver_new :: mac_resolver where
  "mac_resolver_new = \<lparr>mr_cache = [], mr_negative = [], mr_snapshot = (\<lambda>_. None), mr_mock_arp = None\<rparr>"

text \<open>\<^verbatim>\<open>min_by_key\<close>: the first entry with the least key\<close>

fun min_entry :: "('k \<times> 'v) list \<Rightarrow> ('v \<Rightarrow> nat) \<Rightarrow> ('k \<times> 'v) option" where
  "min_entry [] f = None"
| "min_entry (x # xs) f =
     (case min_entry xs f of None \<Rightarrow> Some x | Some y \<Rightarrow> if f (snd y) < f (snd x) then Some y else Some x)"

text \<open>Making room in a full cache: expired entries go first, then the one that expires first.\<close>

definition make_room :: "('v \<Rightarrow> nat) \<Rightarrow> nat \<Rightarrow> ('k \<times> 'v) list \<Rightarrow> ('k \<times> 'v) list" where
  "make_room expires now cache =
     (if length cache \<ge> max_mac_entries
      then let live = filter (\<lambda>(_, e). expires e > now) cache
           in if length live \<ge> max_mac_entries
              then (case min_entry live expires of Some (k, _) \<Rightarrow> AList.delete k live | None \<Rightarrow> live)
              else live
      else cache)"

definition store_positive :: "nat \<Rightarrow> ip_addr \<Rightarrow> rstr \<Rightarrow> mac_resolver \<Rightarrow> mac_resolver" where
  "store_positive now ip mac r =
     r\<lparr>mr_cache := AList.update ip (mac, now + mac_cache_ttl) (make_room snd now (mr_cache r))\<rparr>"

definition store_negative :: "nat \<Rightarrow> ip_addr \<Rightarrow> mac_resolver \<Rightarrow> mac_resolver" where
  "store_negative now ip r =
     r\<lparr>mr_negative := AList.update ip (now + mac_negative_ttl) (make_room (\<lambda>e. e) now (mr_negative r))\<rparr>"

definition resolve_mac :: "nat \<Rightarrow> ip_addr \<Rightarrow> mac_resolver \<Rightarrow> mac_resolver \<times> rstr option" where
  "resolve_mac now ip r =
     (case map_of (mr_cache r) ip of
        Some (mac, expires_at) \<Rightarrow>
          if expires_at > now then (r, Some mac)
          else if (case map_of (mr_negative r) ip of Some t \<Rightarrow> t > now | None \<Rightarrow> False) then (r, None)
          else (case mr_snapshot r ip of
                  Some mac \<Rightarrow> (store_positive now ip mac (r\<lparr>mr_negative := AList.delete ip (mr_negative r)\<rparr>), Some mac)
                | None \<Rightarrow> (store_negative now ip r, None))
      | None \<Rightarrow>
          if (case map_of (mr_negative r) ip of Some t \<Rightarrow> t > now | None \<Rightarrow> False) then (r, None)
          else (case mr_snapshot r ip of
                  Some mac \<Rightarrow> (store_positive now ip mac (r\<lparr>mr_negative := AList.delete ip (mr_negative r)\<rparr>), Some mac)
                | None \<Rightarrow> (store_negative now ip r, None)))"

text \<open>One round of the background task on the text of the ARP table (nothing when it cannot be
  read); a mock table suspends it.\<close>

fun arp_loop :: "rstr list \<Rightarrow> (ip_addr \<times> rstr) list \<Rightarrow> (ip_addr \<times> rstr) list" where
  "arp_loop [] m = m"
| "arp_loop (line # ls) m =
     (if length m \<ge> max_arp_entries then m
      else arp_loop ls
        (case split_whitespace line of
           f0 # _ # _ # f3 # _ \<Rightarrow>
             (case (parse_ip f0, normalize_mac f3) of
                (Some ip, Some norm) \<Rightarrow> if norm \<noteq> lit ''00:00:00:00:00:00'' then AList.update ip norm m else m
              | _ \<Rightarrow> m)
         | _ \<Rightarrow> m))"

definition parse_arp_table :: "rstr \<Rightarrow> (ip_addr \<times> rstr) list" where
  "parse_arp_table content = arp_loop (drop 1 (lines content)) []"

definition arp_refresh :: "rstr option \<Rightarrow> mac_resolver \<Rightarrow> mac_resolver" where
  "arp_refresh content r =
     (if mr_mock_arp r \<noteq> None then r
      else r\<lparr>mr_snapshot := map_of (case content of Some c \<Rightarrow> parse_arp_table c | None \<Rightarrow> []), mr_negative := []\<rparr>)"


section \<open>Configuration and policy\<close>

type_synonym date_time = "int \<times> int"

record 'c schedule =
  sd_raw :: rstr
  sd_cron :: 'c
  sd_window_cron :: "'c option"

type_synonym 'c cron_engine = "'c \<Rightarrow> date_time \<Rightarrow> bool option"

definition schedule_active :: "'c cron_engine \<Rightarrow> 'c schedule \<Rightarrow> date_time \<Rightarrow> bool" where
  "schedule_active C s now =
     (if (case sd_window_cron s of Some w \<Rightarrow> C w now = Some True | None \<Rightarrow> False) then True
      else case C (sd_cron s) now of Some matching \<Rightarrow> matching | None \<Rightarrow> True)"

record client_entry =
  cl_name :: rstr
  cl_ids :: "rstr list"
  cl_group :: rstr
  cl_ignore_query_log :: bool
  cl_ignore_stats :: bool
  cl_use_global_upstreams :: bool
  cl_upstreams :: "rstr list option"
  cl_trusted :: bool

record 'c client_group =
  cg_filtering :: bool
  cg_lists :: "rstr list"
  cg_custom_rules :: "rstr list"
  cg_safe_search :: bool
  cg_safe_search_youtube :: "youtube_mode option"
  cg_parental :: bool
  cg_parental_categories :: "rstr list"
  cg_schedule_enabled :: bool
  cg_schedule :: "'c schedule option"
  cg_blocked_services :: "(rstr \<times> 'c schedule option) list"

record 'c clients_config =
  cs_entries :: "client_entry list"
  cs_groups :: "rstr \<Rightarrow> 'c client_group option"
  cs_client_id_secrets :: "rstr \<Rightarrow> rstr option"
  cs_trust_routeros_lease_names :: bool

record effective_policy =
  ep_client_name :: "rstr option"
  ep_group_name :: rstr
  ep_ignore_query_log :: bool
  ep_ignore_stats :: bool
  ep_use_global_upstreams :: bool
  ep_upstreams :: "rstr list option"
  ep_trusted :: bool
  ep_lists :: "rstr list"
  ep_custom_rules :: "rstr list"
  ep_safe_search :: bool
  ep_safe_search_youtube :: youtube_mode
  ep_parental :: bool
  ep_parental_categories :: "rstr list"
  ep_is_filtering_enabled :: bool
  ep_active_blocked_services :: "rstr list"

definition policy_default :: effective_policy where
  "policy_default =
     \<lparr>ep_client_name = None, ep_group_name = lit ''default'', ep_ignore_query_log = False, ep_ignore_stats = False,
      ep_use_global_upstreams = True, ep_upstreams = None, ep_trusted = False, ep_lists = [], ep_custom_rules = [],
      ep_safe_search = False, ep_safe_search_youtube = Strict, ep_parental = False, ep_parental_categories = [],
      ep_is_filtering_enabled = True, ep_active_blocked_services = []\<rparr>"

text \<open>A hash set grown by insertion\<close>

definition set_add :: "'a \<Rightarrow> 'a list \<Rightarrow> 'a list" where
  "set_add x xs = (if x \<in> set xs then xs else xs @ [x])"

definition active_services :: "'c cron_engine \<Rightarrow> date_time \<Rightarrow> (rstr \<times> 'c schedule option) list \<Rightarrow> rstr list" where
  "active_services C now svcs =
     fold (\<lambda>(service, sched) acc.
        if (case sched of Some s \<Rightarrow> schedule_active C s now | None \<Rightarrow> True)
        then set_add (to_ascii_lowercase service) acc else acc) svcs []"

definition entry_policy :: "client_entry option \<Rightarrow> effective_policy \<Rightarrow> effective_policy" where
  "entry_policy entry p =
     (case entry of
        None \<Rightarrow> p
      | Some e \<Rightarrow> p\<lparr>ep_client_name := Some (cl_name e), ep_ignore_query_log := cl_ignore_query_log e,
                    ep_ignore_stats := cl_ignore_stats e, ep_use_global_upstreams := cl_use_global_upstreams e,
                    ep_upstreams := cl_upstreams e, ep_trusted := cl_trusted e\<rparr>)"

definition group_policy :: "'c cron_engine \<Rightarrow> date_time \<Rightarrow> 'c client_group \<Rightarrow> effective_policy \<Rightarrow> effective_policy" where
  "group_policy C now grp p =
     (let group_active = (if cg_schedule_enabled grp
                          then (case cg_schedule grp of Some s \<Rightarrow> schedule_active C s now | None \<Rightarrow> True)
                          else True);
          filtering_on = (cg_filtering grp \<and> group_active)
      in p\<lparr>ep_lists := cg_lists grp, ep_custom_rules := cg_custom_rules grp, ep_is_filtering_enabled := filtering_on,
           ep_safe_search := (filtering_on \<and> cg_safe_search grp),
           ep_safe_search_youtube := (case cg_safe_search_youtube grp of Some y \<Rightarrow> y | None \<Rightarrow> Strict),
           ep_parental := (filtering_on \<and> cg_parental grp),
           ep_parental_categories := fold set_add (cg_parental_categories grp) [],
           ep_active_blocked_services :=
             (if filtering_on then active_services C now (cg_blocked_services grp) else ep_active_blocked_services p)\<rparr>)"

definition build_effective_policy ::
  "'c cron_engine \<Rightarrow> 'c clients_config \<Rightarrow> client_entry option \<Rightarrow> date_time \<Rightarrow> effective_policy" where
  "build_effective_policy C config entry now =
     (let group_name = (case entry of Some e \<Rightarrow> cl_group e | None \<Rightarrow> lit ''default'');
          policy = entry_policy entry (policy_default\<lparr>ep_group_name := group_name\<rparr>)
      in case cs_groups config group_name of Some grp \<Rightarrow> group_policy C now grp policy | None \<Rightarrow> policy)"


section \<open>The identification index\<close>

record client_index =
  ix_exact_ips :: "ip_addr \<Rightarrow> nat option"
  ix_subnets :: "(ip_addr \<times> nat \<times> nat) list"
  ix_macs :: "(rstr \<times> nat) list"
  ix_secrets :: "(rstr \<times> nat) list"

definition index_empty :: client_index where
  "index_empty = \<lparr>ix_exact_ips = (\<lambda>_. None), ix_subnets = [], ix_macs = [], ix_secrets = []\<rparr>"

definition parse_client_cidr :: "rstr \<Rightarrow> (ip_addr \<times> nat) option" where
  "parse_client_cidr s =
     do { (ip_str, prefix_str) \<leftarrow> split_once (cc CHR ''/'') s;
          net_ip \<leftarrow> parse_ip (trim ip_str);
          pre \<leftarrow> parse_uint 256 (trim prefix_str);
          (if pre > (case net_ip of V4 _ \<Rightarrow> 32 | V6 _ \<Rightarrow> 128) then None else Some (net_ip, pre)) }"

definition ip_in_subnet :: "ip_addr \<Rightarrow> nat \<Rightarrow> ip_addr \<Rightarrow> bool" where
  "ip_in_subnet network pre target =
     (case (network, target) of
        (V4 net, V4 tgt) \<Rightarrow>
          if pre = 0 then True
          else let mask = (if pre \<ge> 32 then - 1 else push_bit (32 - pre) (- 1))
               in net AND mask = tgt AND mask
      | (V6 net, V6 tgt) \<Rightarrow>
          if pre = 0 then True
          else let mask = (if pre \<ge> 128 then - 1 else push_bit (128 - pre) (- 1))
               in net AND mask = tgt AND mask
      | _ \<Rightarrow> False)"

text \<open>\<^verbatim>\<open>entry(k).or_insert(v)\<close>\<close>

definition or_insert :: "'k \<Rightarrow> 'v \<Rightarrow> ('k \<times> 'v) list \<Rightarrow> ('k \<times> 'v) list" where
  "or_insert k v m = (if map_of m k = None then m @ [(k, v)] else m)"

definition index_id :: "nat \<Rightarrow> rstr \<Rightarrow> client_index \<Rightarrow> client_index" where
  "index_id entry_idx i index =
     (let index = (case parse_ip (trim i) of
                     Some ip \<Rightarrow> (if ix_exact_ips index ip = None
                                 then index\<lparr>ix_exact_ips := (ix_exact_ips index)(ip \<mapsto> entry_idx)\<rparr> else index)
                   | None \<Rightarrow> (case parse_client_cidr i of
                                Some (network, pre) \<Rightarrow> index\<lparr>ix_subnets := ix_subnets index @ [(network, pre, entry_idx)]\<rparr>
                              | None \<Rightarrow> index))
      in case normalize_mac_id i of
           Some mac \<Rightarrow> index\<lparr>ix_macs := or_insert mac entry_idx (ix_macs index)\<rparr>
         | None \<Rightarrow> index)"

definition index_entry :: "'c clients_config \<Rightarrow> nat \<times> client_entry \<Rightarrow> client_index \<Rightarrow> client_index" where
  "index_entry config ie index =
     (let (entry_idx, entry) = ie;
          index = fold (index_id entry_idx) (cl_ids entry) index
      in case cs_client_id_secrets config (cl_name entry) of
           Some secret \<Rightarrow> if secret \<noteq> [] then index\<lparr>ix_secrets := or_insert secret entry_idx (ix_secrets index)\<rparr> else index
         | None \<Rightarrow> index)"

definition build_client_index :: "'c clients_config \<Rightarrow> client_index" where
  "build_client_index config = fold (index_entry config) (enumerate 0 (cs_entries config)) index_empty"


section \<open>The registry\<close>

record routeros_lease =
  ro_mac :: rstr
  ro_ip :: "ip_addr option"
  ro_hostname :: "rstr option"
  ro_comment :: "rstr option"

record unidentified_client =
  un_ip :: ip_addr
  un_mac :: "rstr option"
  un_hostname :: "rstr option"
  un_comment :: "rstr option"
  un_last_seen :: int

record 'c client_registry =
  cr_config :: "'c clients_config"
  cr_index :: client_index
  cr_mac_resolver :: mac_resolver
  cr_routeros_leases :: "routeros_lease list"
  cr_unidentified :: "(ip_addr \<times> unidentified_client) list"

definition with_stores ::
  "'c clients_config \<Rightarrow> routeros_lease list \<Rightarrow> (ip_addr \<times> unidentified_client) list \<Rightarrow> 'c client_registry" where
  "with_stores config leases unidentified =
     \<lparr>cr_config = config, cr_index = build_client_index config, cr_mac_resolver = mac_resolver_new,
      cr_routeros_leases = leases, cr_unidentified = unidentified\<rparr>"

definition with_routeros_leases :: "'c clients_config \<Rightarrow> routeros_lease list \<Rightarrow> 'c client_registry" where
  "with_routeros_leases config leases = with_stores config leases []"

definition registry_new :: "'c clients_config \<Rightarrow> 'c client_registry" where
  "registry_new config = with_routeros_leases config []"

definition update_routeros_leases :: "routeros_lease list \<Rightarrow> 'c client_registry \<Rightarrow> 'c client_registry" where
  "update_routeros_leases leases reg = reg\<lparr>cr_routeros_leases := leases\<rparr>"

definition max_unidentified_clients :: nat where "max_unidentified_clients = 1024"

definition unidentified_client_ttl :: int where "unidentified_client_ttl = 24 * 3600 * 1000000000"

definition still_seen :: "int \<Rightarrow> ip_addr \<times> unidentified_client \<Rightarrow> bool" where
  "still_seen now x \<longleftrightarrow> now - un_last_seen (snd x) < unidentified_client_ttl"

definition unidentified_clients_at :: "int \<Rightarrow> 'c client_registry \<Rightarrow> 'c client_registry \<times> unidentified_client list" where
  "unidentified_clients_at now reg =
     (let kept = filter (still_seen now) (cr_unidentified reg)
      in (reg\<lparr>cr_unidentified := kept\<rparr>,
          sort_key (\<lambda>c. (- un_last_seen c, un_ip c)) (map snd kept)))"

definition record_unidentified ::
  "ip_addr \<Rightarrow> routeros_lease \<Rightarrow> date_time \<Rightarrow> (ip_addr \<times> unidentified_client) list \<Rightarrow> (ip_addr \<times> unidentified_client) list" where
  "record_unidentified ip lease now unidentified =
     (let m = AList.update ip
            \<lparr>un_ip = ip, un_mac = Some (ro_mac lease), un_hostname = ro_hostname lease, un_comment = ro_comment lease,
             un_last_seen = fst now\<rparr>
            (filter (still_seen (fst now)) unidentified)
      in if length m > max_unidentified_clients
         then let by_age = sort_key snd (map (\<lambda>(k, c). (k, un_last_seen c)) m);
                  excess = length m - max_unidentified_clients
              in fold (\<lambda>(k, _). AList.delete k) (take excess by_age) m
         else m)"


section \<open>Identification\<close>

definition constant_time_eq :: "nat list \<Rightarrow> nat list \<Rightarrow> bool" where
  "constant_time_eq a b =
     (if length a \<noteq> length b then False
      else fold (\<lambda>(x, y) diff. diff OR (x XOR y)) (zip a b) 0 = 0)"

definition extract_id_from_sni :: "rstr \<Rightarrow> rstr option" where
  "extract_id_from_sni sni =
     (let parts = split_on (cc CHR ''.'') (trim_end_matches (cc CHR ''.'') sni)
      in if length parts \<ge> 3 \<and> parts ! 0 \<noteq> [] then Some (parts ! 0) else None)"

definition trim_matches :: "rchar \<Rightarrow> rstr \<Rightarrow> rstr" where
  "trim_matches d s = trim_end_matches d (dropWhile (\<lambda>c. c = d) s)"

definition extract_id_from_url_path :: "rstr \<Rightarrow> rstr option" where
  "extract_id_from_url_path path =
     (let clean = trim_matches (cc CHR ''/'') path;
          segment = strip_prefix_or (lit ''dns-query/'') clean
      in if segment = [] \<or> contains_char (cc CHR ''/'') segment \<or> contains_char 92 segment \<or>
            sublist (lit ''..'') segment
         then None else Some segment)"

definition entry_for_secret :: "'c client_registry \<Rightarrow> rstr \<Rightarrow> client_entry option" where
  "entry_for_secret reg candidate =
     (let matched_idx = fold (\<lambda>(secret, i) matched.
            if constant_time_eq (as_bytes secret) (as_bytes candidate)
            then (case matched of Some prev \<Rightarrow> if prev \<le> i then matched else Some i | None \<Rightarrow> Some i)
            else matched) (ix_secrets (cr_index reg)) None
      in Option.bind matched_idx (idx (cs_entries (cr_config reg))))"

definition match_by_client_id_or_sni :: "'c client_registry \<Rightarrow> client_context \<Rightarrow> client_entry option" where
  "match_by_client_id_or_sni reg ctx =
     (if ix_secrets (cr_index reg) = [] then None
      else case Option.bind (cx_id ctx) (entry_for_secret reg) of
          Some e \<Rightarrow> Some e
        | None \<Rightarrow> (case cx_sni ctx of
                     None \<Rightarrow> None
                   | Some sni \<Rightarrow> Option.bind (extract_id_from_sni (to_ascii_lowercase sni)) (entry_for_secret reg)))"

fun best_subnet :: "ip_addr \<Rightarrow> (ip_addr \<times> nat \<times> nat) list \<Rightarrow> (nat \<times> nat) option \<Rightarrow> (nat \<times> nat) option" where
  "best_subnet ip [] best = best"
| "best_subnet ip ((network, pre, i) # ss) best =
     best_subnet ip ss
       (if \<not> ip_in_subnet network pre ip then best
        else case best of
            Some (best_prefix, j) \<Rightarrow> if best_prefix \<ge> pre then best else Some (pre, i)
          | None \<Rightarrow> Some (pre, i))"

definition match_by_ip_or_cidr :: "'c client_registry \<Rightarrow> ip_addr \<Rightarrow> client_entry option" where
  "match_by_ip_or_cidr reg client_ip =
     (case ix_exact_ips (cr_index reg) client_ip of
        Some i \<Rightarrow> idx (cs_entries (cr_config reg)) i
      | None \<Rightarrow> Option.bind (best_subnet client_ip (ix_subnets (cr_index reg)) None)
                  (\<lambda>(_, i). idx (cs_entries (cr_config reg)) i))"

definition match_by_mac :: "'c client_registry \<Rightarrow> rstr \<Rightarrow> client_entry option" where
  "match_by_mac reg mac =
     Option.bind (map_of (ix_macs (cr_index reg)) (to_ascii_lowercase mac)) (idx (cs_entries (cr_config reg)))"

text \<open>Whether a lease names an entry: by a MAC among its ids and, when lease names are trusted, by
  host name or comment.\<close>

definition lease_names_id :: "bool \<Rightarrow> routeros_lease \<Rightarrow> rstr \<Rightarrow> bool" where
  "lease_names_id trust_names lease i \<longleftrightarrow>
     (case normalize_mac_id i of Some m \<Rightarrow> eq_ignore_ascii_case m (ro_mac lease) | None \<Rightarrow> False) \<or>
     (trust_names \<and> (case ro_hostname lease of Some h \<Rightarrow> eq_ignore_ascii_case i h | None \<Rightarrow> False)) \<or>
     (trust_names \<and> (case ro_comment lease of Some c \<Rightarrow> eq_ignore_ascii_case i c | None \<Rightarrow> False))"

definition lease_names_entry :: "bool \<Rightarrow> routeros_lease \<Rightarrow> client_entry \<Rightarrow> bool" where
  "lease_names_entry trust_names lease entry \<longleftrightarrow>
     (trust_names \<and> (case ro_hostname lease of Some h \<Rightarrow> eq_ignore_ascii_case (cl_name entry) h | None \<Rightarrow> False)) \<or>
     list_ex (lease_names_id trust_names lease) (cl_ids entry)"

fun routeros_loop ::
  "'c clients_config \<Rightarrow> date_time \<Rightarrow> routeros_lease list \<Rightarrow> client_context \<times> (ip_addr \<times> unidentified_client) list \<Rightarrow>
   (client_context \<times> (ip_addr \<times> unidentified_client) list) \<times> client_entry option" where
  "routeros_loop config now [] (ctx, unidentified) = ((ctx, unidentified), None)"
| "routeros_loop config now (lease # leases) (ctx, unidentified) =
     (let trust_names = cs_trust_routeros_lease_names config;
          matches_ip = (ro_ip lease = Some (cx_ip ctx));
          matches_mac = (case cx_mac ctx of Some m \<Rightarrow> eq_ignore_ascii_case m (ro_mac lease) | None \<Rightarrow> False)
      in if matches_ip \<or> matches_mac
         then let ctx = (if cx_mac ctx = None then ctx\<lparr>cx_mac := Some (ro_mac lease)\<rparr> else ctx)
              in case find (lease_names_entry trust_names lease) (cs_entries config) of
                   Some entry \<Rightarrow> ((ctx, unidentified), Some entry)
                 | None \<Rightarrow>
                     routeros_loop config now leases
                       (if trust_names \<and> cx_client_name ctx = None then ctx\<lparr>cx_client_name := ro_hostname lease\<rparr> else ctx,
                        record_unidentified (cx_ip ctx) lease now unidentified)
         else routeros_loop config now leases (ctx, unidentified))"

definition match_by_routeros ::
  "date_time \<Rightarrow> client_context \<Rightarrow> 'c client_registry \<Rightarrow> 'c client_registry \<times> client_context \<times> client_entry option" where
  "match_by_routeros now ctx reg =
     (let ((ctx, unidentified), entry) =
            routeros_loop (cr_config reg) now (cr_routeros_leases reg) (ctx, cr_unidentified reg)
      in (reg\<lparr>cr_unidentified := unidentified\<rparr>, ctx, entry))"

definition lookup_mac :: "nat \<Rightarrow> ip_addr \<Rightarrow> 'c client_registry \<Rightarrow> 'c client_registry \<times> rstr option" where
  "lookup_mac instant ip reg =
     (if ix_macs (cr_index reg) = [] then (reg, None)
      else let (r, mac) = resolve_mac instant ip (cr_mac_resolver reg) in (reg\<lparr>cr_mac_resolver := r\<rparr>, mac))"

definition identify ::
  "nat \<Rightarrow> date_time \<Rightarrow> client_context \<Rightarrow> 'c client_registry \<Rightarrow> 'c client_registry \<times> client_context \<times> client_entry option" where
  "identify instant now ctx reg =
     (case match_by_client_id_or_sni reg ctx of
        Some e \<Rightarrow> (reg, ctx, Some e)
      | None \<Rightarrow>
          (case match_by_ip_or_cidr reg (cx_ip ctx) of
             Some e \<Rightarrow> (reg, ctx, Some e)
           | None \<Rightarrow>
               (let (reg, mac) = lookup_mac instant (cx_ip ctx) reg
                in case mac of
                     None \<Rightarrow> match_by_routeros now ctx reg
                   | Some mac \<Rightarrow>
                       (let ctx = ctx\<lparr>cx_mac := Some mac\<rparr>
                        in case match_by_mac reg mac of
                             Some e \<Rightarrow> (reg, ctx, Some e)
                           | None \<Rightarrow> match_by_routeros now ctx reg))))"

definition resolve_known_mac ::
  "nat \<Rightarrow> ip_addr \<Rightarrow> client_entry \<Rightarrow> 'c client_registry \<Rightarrow> 'c client_registry \<times> rstr option" where
  "resolve_known_mac instant ip entry reg =
     (let (reg, mac) = lookup_mac instant ip reg
      in case mac of
           Some m \<Rightarrow> (reg, Some m)
         | None \<Rightarrow>
             (case find (\<lambda>l. ro_ip l = Some ip) (cr_routeros_leases reg) of
                Some l \<Rightarrow> (reg, Some (ro_mac l))
              | None \<Rightarrow> (reg, Option.bind (find (\<lambda>i. normalize_mac_id i \<noteq> None) (cl_ids entry)) normalize_mac_id)))"

text \<open>\<^verbatim>\<open>instant\<close> is the monotonic clock, \<^verbatim>\<open>now\<close> the time in the configured zone.\<close>

definition registry_resolve ::
  "'c cron_engine \<Rightarrow> nat \<Rightarrow> date_time \<Rightarrow> client_context \<Rightarrow> 'c client_registry \<Rightarrow>
   'c client_registry \<times> client_context \<times> effective_policy" where
  "registry_resolve C instant now ctx reg =
     (let (reg, ctx, entry) = identify instant now ctx reg
      in case entry of
           Some e \<Rightarrow>
             (let ctx = ctx\<lparr>cx_client_name := Some (cl_name e), cx_group := Some (cl_group e)\<rparr>;
                  ctx = (if cx_id ctx = None then ctx\<lparr>cx_id := Some (cl_name e)\<rparr> else ctx);
                  (reg, ctx) = (if cx_mac ctx = None
                                then let (reg, mac) = resolve_known_mac instant (cx_ip ctx) e reg in (reg, ctx\<lparr>cx_mac := mac\<rparr>)
                                else (reg, ctx))
              in (reg, ctx, build_effective_policy C (cr_config reg) (Some e) now))
         | None \<Rightarrow> (reg, ctx, build_effective_policy C (cr_config reg) None now))"

end
