(* ===== verification/Registry_Correct.thy ===== *)
theory Registry_Correct
  imports Client_Registry
begin

text \<open>
  Client identification: which entry a shared secret, an address or a prefix selects, what cannot
  select one, the bounds on the registry's stores, and what a policy enables.
\<close>

section \<open>Secrets\<close>

lemma with_stores_simps [simp]:
  "cr_config (with_stores config leases seen) = config"
  "cr_index (with_stores config leases seen) = build_client_index config"
  by (simp_all add: with_stores_def)

lemma or_xor_0: "d OR (x XOR y) = 0 \<longleftrightarrow> d = 0 \<and> x = y" for d x y :: nat
  by (auto simp: bit_eq_iff bit_simps)

lemma fold_or_xor: "fold (\<lambda>(x, y) diff. diff OR (x XOR y)) ps (d :: nat) = 0 \<longleftrightarrow> d = 0 \<and> (\<forall>(x, y)\<in>set ps. x = y)"
proof (induction ps arbitrary: d)
  case (Cons p ps)
  then show ?case by (cases p) (simp add: or_xor_0)
qed simp

lemma constant_time_eq_iff: "constant_time_eq a b \<longleftrightarrow> a = b"
proof (cases "length a = length b")
  case True
  then have "(\<forall>(x, y)\<in>set (zip a b). x = y) \<longleftrightarrow> a = b"
    by (auto simp: list_eq_iff_zip_eq)
  with True show ?thesis by (simp add: constant_time_eq_def fold_or_xor)
qed (auto simp: constant_time_eq_def)

lemma digits64:
  "c = c div 64 * 64 + c mod 64" "c = c div 4096 * 4096 + c div 64 mod 64 * 64 + c mod 64"
  "c = c div 262144 * 262144 + c div 4096 mod 64 * 4096 + c div 64 mod 64 * 64 + c mod 64" for c :: nat
proof -
  have d: "c div 4096 = c div 64 div 64" "c div 262144 = c div 4096 div 64" by (simp_all add: div_mult2_eq [symmetric])
  show 1: "c = c div 64 * 64 + c mod 64" by simp
  have "c div 64 = c div 4096 * 64 + c div 64 mod 64" by (simp add: d)
  with 1 show 2: "c = c div 4096 * 4096 + c div 64 mod 64 * 64 + c mod 64" by linarith
  have "c div 4096 = c div 262144 * 64 + c div 4096 mod 64" by (simp add: d(2))
  with 2 show "c = c div 262144 * 262144 + c div 4096 mod 64 * 4096 + c div 64 mod 64 * 64 + c mod 64" by linarith
qed

lemma utf8_head:
  "hd (utf8 c) < 128 \<longleftrightarrow> c < 128" "hd (utf8 c) < 224 \<longleftrightarrow> c < 2048" "hd (utf8 c) < 240 \<longleftrightarrow> c < 65536"
proof -
  have "c < 2048 \<Longrightarrow> c div 64 < 32" "c < 65536 \<Longrightarrow> c div 4096 < 16" by (simp_all add: less_mult_imp_div_less)
  then show "hd (utf8 c) < 128 \<longleftrightarrow> c < 128" "hd (utf8 c) < 224 \<longleftrightarrow> c < 2048" "hd (utf8 c) < 240 \<longleftrightarrow> c < 65536"
    by (auto simp: utf8_def)
qed

lemma utf8_ne: "utf8 c \<noteq> []"
  by (simp add: utf8_def)

lemma utf8_append_inj: 
  assumes "utf8 c @ x = utf8 d @ y"
  shows "c = d \<and> x = y"
proof -
  have h: "hd (utf8 c) = hd (utf8 d)" using assms utf8_ne by (metis hd_append2)
  have "c < 128 \<longleftrightarrow> d < 128" "c < 2048 \<longleftrightarrow> d < 2048" "c < 65536 \<longleftrightarrow> d < 65536"
    using utf8_head [of c] utf8_head [of d] h by simp_all
  then consider "c < 128" "d < 128" | "128 \<le> c" "c < 2048" "128 \<le> d" "d < 2048"
    | "2048 \<le> c" "c < 65536" "2048 \<le> d" "d < 65536" | "65536 \<le> c" "65536 \<le> d"
    by fastforce
  then show ?thesis
  proof cases
    case 1
    then show ?thesis using assms by (simp add: utf8_def)
  next
    case 2
    then have "c div 64 = d div 64" "c mod 64 = d mod 64" "x = y" using assms by (simp_all add: utf8_def)
    then show ?thesis by (metis digits64(1))
  next
    case 3
    then have "c div 4096 = d div 4096" "c div 64 mod 64 = d div 64 mod 64" "c mod 64 = d mod 64" "x = y"
      using assms by (simp_all add: utf8_def)
    then show ?thesis by (metis digits64(2))
  next
    case 4
    then have "c div 262144 = d div 262144" "c div 4096 mod 64 = d div 4096 mod 64" "c div 64 mod 64 = d div 64 mod 64"
      "c mod 64 = d mod 64" "x = y"
      using assms by (simp_all add: utf8_def)
    then show ?thesis by (metis digits64(3))
  qed
qed

lemma as_bytes_inj: "as_bytes s = as_bytes t \<longleftrightarrow> s = t"
proof
  show "as_bytes s = as_bytes t \<Longrightarrow> s = t"
  proof (induction s arbitrary: t)
    case Nil
    then show ?case by (cases t) (auto simp: as_bytes_def utf8_ne)
  next
    case (Cons c s)
    then obtain d t' where t: "t = d # t'" by (cases t) (auto simp: as_bytes_def utf8_ne)
    with Cons.prems have "utf8 c @ as_bytes s = utf8 d @ as_bytes t'" by (simp add: as_bytes_def)
    from utf8_append_inj [OF this] Cons.IH [of t'] t show ?case by simp
  qed
qed simp

lemma secret_fold:
  assumes "distinct (map fst ss)"
  shows "fold (\<lambda>(secret, i) matched.
      if constant_time_eq (as_bytes secret) (as_bytes s)
      then (case matched of Some prev \<Rightarrow> if prev \<le> i then matched else Some i | None \<Rightarrow> Some i) else matched) ss acc =
    (case map_of ss s of None \<Rightarrow> acc
     | Some i \<Rightarrow> Some (case acc of None \<Rightarrow> i | Some prev \<Rightarrow> min prev i))"
  using assms
proof (induction ss arbitrary: acc)
  case (Cons p ss)
  obtain k i where p: "p = (k, i)" by (cases p)
  show ?case
  proof (cases "k = s")
    case True
    then have "map_of ss s = None" using Cons.prems by (simp add: p map_of_eq_None_iff)
    with Cons True show ?thesis
      by (auto simp: p constant_time_eq_iff as_bytes_inj min_def split: option.split)
  next
    case False
    with Cons show ?thesis by (simp add: p constant_time_eq_iff as_bytes_inj)
  qed
qed simp

text \<open>The secrets of the index are exactly the configured ones, each with its first entry.\<close>

lemma index_id_other [simp]: "ix_secrets (index_id i x index) = ix_secrets index"
  by (simp add: index_id_def Let_def split: option.split)

lemma fold_index_id_secrets [simp]: "ix_secrets (fold (index_id i) xs index) = ix_secrets index"
  by (induction xs arbitrary: index) simp_all

lemma index_entry_secrets:
  "ix_secrets (index_entry config (i, e) index) =
     (case cs_client_id_secrets config (cl_name e) of
        Some secret \<Rightarrow> if secret \<noteq> [] then or_insert secret i (ix_secrets index) else ix_secrets index
      | None \<Rightarrow> ix_secrets index)"
  by (simp add: index_entry_def split: option.split)

lemma map_of_or_insert:
  "map_of (or_insert k v m) x = (case map_of m x of Some w \<Rightarrow> Some w | None \<Rightarrow> if x = k then Some v else None)"
  by (auto simp: or_insert_def map_add_def split: option.split)

lemma distinct_or_insert: "distinct (map fst m) \<Longrightarrow> distinct (map fst (or_insert k v m))"
  by (auto simp: or_insert_def map_of_eq_None_iff)

lemma index_entry_map:
  "s \<noteq> [] \<Longrightarrow> map_of (ix_secrets (index_entry config (i, e) index)) s =
     (case map_of (ix_secrets index) s of
        Some w \<Rightarrow> Some w
      | None \<Rightarrow> if cs_client_id_secrets config (cl_name e) = Some s then Some i else None)"
  by (auto simp: index_entry_secrets map_of_or_insert split: option.split)

lemma index_entry_distinct:
  "distinct (map fst (ix_secrets index)) \<Longrightarrow> distinct (map fst (ix_secrets (index_entry config (i, e) index)))"
  by (simp add: index_entry_secrets distinct_or_insert split: option.split)

lemma index_secrets_distinct:
  "distinct (map fst (ix_secrets index)) \<Longrightarrow> distinct (map fst (ix_secrets (fold (index_entry config) ies index)))"
  by (induction ies arbitrary: index) (auto simp: index_entry_distinct)

lemma index_secrets_fold:
  assumes "s \<noteq> []"
  shows "map_of (ix_secrets (fold (index_entry config) ies index)) s =
      (case map_of (ix_secrets index) s of
         Some i \<Rightarrow> Some i
       | None \<Rightarrow> map_option fst (find (\<lambda>(i, e). cs_client_id_secrets config (cl_name e) = Some s) ies))"
proof (induction ies arbitrary: index)
  case (Cons ie ies)
  then show ?case
    by (cases ie) (simp add: index_entry_map [OF assms] split: option.split)
qed (simp split: option.split)

lemma find_enumerate: "map_option snd (find (\<lambda>(i, e). P e) (enumerate n es)) = find P es"
  "find (\<lambda>(i, e). P e) (enumerate n es) = Some (i, e) \<Longrightarrow> n \<le> i \<and> i < n + length es \<and> e = es ! (i - n)"
proof (induction es arbitrary: n)
  case (Cons x es)
  {
    case 1
    show ?case using Cons.IH(1) [of "Suc n"] by simp
  next
    case 2
    show ?case
    proof (cases "P x")
      case True
      then show ?thesis using 2 by simp
    next
      case False
      then have "find (\<lambda>(i, e). P e) (enumerate (Suc n) es) = Some (i, e)" using 2 by simp
      from Cons.IH(2) [OF this] show ?thesis by (auto simp: nth_Cons')
    qed
  }
qed simp_all

lemma entry_for_secret_find:
  assumes "cr_index reg = build_client_index (cr_config reg)" and "s \<noteq> []"
  shows "entry_for_secret reg s = find (\<lambda>e. cs_client_id_secrets (cr_config reg) (cl_name e) = Some s) (cs_entries (cr_config reg))"
proof -
  let ?P = "\<lambda>e. cs_client_id_secrets (cr_config reg) (cl_name e) = Some s"
  let ?es = "cs_entries (cr_config reg)"
  let ?f = "find (\<lambda>(i, e). ?P e) (enumerate 0 ?es)"
  have d: "distinct (map fst (ix_secrets index_empty))" by (simp add: index_empty_def)
  have "map_of (ix_secrets (cr_index reg)) s = map_option fst ?f"
    by (simp add: assms(1) build_client_index_def index_secrets_fold [OF assms(2)] index_empty_def)
  moreover have "distinct (map fst (ix_secrets (cr_index reg)))"
    using index_secrets_distinct [OF d] by (simp add: assms(1) build_client_index_def)
  ultimately have "entry_for_secret reg s = Option.bind (map_option fst ?f) (idx ?es)"
    by (simp add: entry_for_secret_def secret_fold split: option.split)
  also have "\<dots> = map_option snd ?f"
  proof (cases ?f)
    case (Some ie)
    obtain i e where ie: "ie = (i, e)" by (cases ie)
    with find_enumerate(2) [OF Some [unfolded ie]] Some show ?thesis by (simp add: idx_def)
  qed simp
  finally show ?thesis by (simp only: find_enumerate(1))
qed


section \<open>Addresses and prefixes\<close>

text \<open>The subnets of the entries in configuration order, and what an exact address selects.\<close>

definition id_subnet :: "rstr \<Rightarrow> (ip_addr \<times> nat) option" where
  "id_subnet i = (if parse_ip (trim i) = None then parse_client_cidr i else None)"

definition id_subnets :: "'a \<Rightarrow> rstr list \<Rightarrow> (ip_addr \<times> nat \<times> 'a) list" where
  "id_subnets x is = concat (map (\<lambda>i. case id_subnet i of Some (n, p) \<Rightarrow> [(n, p, x)] | None \<Rightarrow> []) is)"

definition has_address :: "ip_addr \<Rightarrow> client_entry \<Rightarrow> bool" where
  "has_address ip e \<longleftrightarrow> list_ex (\<lambda>i. parse_ip (trim i) = Some ip) (cl_ids e)"

lemma index_id_subnets:
  "ix_subnets (index_id n i index) = ix_subnets index @ (case id_subnet i of Some (a, p) \<Rightarrow> [(a, p, n)] | None \<Rightarrow> [])"
  by (simp add: index_id_def id_subnet_def Let_def split: option.split)

lemma fold_index_id_subnets: "ix_subnets (fold (index_id n) is index) = ix_subnets index @ id_subnets n is"
  by (induction "is" arbitrary: index) (simp_all add: index_id_subnets id_subnets_def)

lemma index_entry_subnets: "ix_subnets (index_entry config (n, e) index) = ix_subnets index @ id_subnets n (cl_ids e)"
  by (simp add: index_entry_def Let_def fold_index_id_subnets split: option.split)

lemma index_subnets:
  "ix_subnets (fold (index_entry config) ies index) = ix_subnets index @ concat (map (\<lambda>(n, e). id_subnets n (cl_ids e)) ies)"
  by (induction ies arbitrary: index) (auto simp: index_entry_subnets)

lemma index_id_exact:
  "ix_exact_ips (index_id n i index) ip =
     (case ix_exact_ips index ip of Some w \<Rightarrow> Some w | None \<Rightarrow> if parse_ip (trim i) = Some ip then Some n else None)"
  by (auto simp: index_id_def Let_def split: option.split)

lemma fold_index_id_exact:
  "ix_exact_ips (fold (index_id n) is index) ip =
     (case ix_exact_ips index ip of Some w \<Rightarrow> Some w | None \<Rightarrow> if list_ex (\<lambda>i. parse_ip (trim i) = Some ip) is then Some n else None)"
  by (induction "is" arbitrary: index) (auto simp: index_id_exact split: option.split)

lemma index_exact:
  "ix_exact_ips (fold (index_entry config) ies index) ip =
     (case ix_exact_ips index ip of Some w \<Rightarrow> Some w | None \<Rightarrow> map_option fst (find (\<lambda>(i, e). has_address ip e) ies))"
proof (induction ies arbitrary: index)
  case (Cons ie ies)
  obtain n e where ie: "ie = (n, e)" by (cases ie)
  have "ix_exact_ips (index_entry config (n, e) index) ip =
     (case ix_exact_ips index ip of Some w \<Rightarrow> Some w | None \<Rightarrow> if has_address ip e then Some n else None)"
    by (simp add: index_entry_def Let_def fold_index_id_exact has_address_def split: option.split)
  with Cons show ?case by (simp add: ie split: option.split)
qed (simp split: option.split)

text \<open>Among the candidates, the one with the longest prefix wins; ties go to the first.\<close>

definition longest :: "(nat \<times> 'a) list \<Rightarrow> nat \<times> 'a \<Rightarrow> bool" where
  "longest cs c = list_all (\<lambda>d. fst d \<le> fst c) cs"

definition longest_first :: "(nat \<times> 'a) list \<Rightarrow> (nat \<times> 'a) option" where
  "longest_first cs = find (longest cs) cs"

lemma longest_first_step:
  "longest_first (x # y # r) = longest_first ((if fst y \<le> fst x then x else y) # r)"
proof (cases "fst y \<le> fst x")
  case True
  then have t: "longest (x # y # r) = longest (x # r)" by (auto simp: longest_def fun_eq_iff)
  have "longest (x # r) y \<Longrightarrow> longest (x # r) x" using True by (auto simp: longest_def)
  then show ?thesis using True by (simp add: longest_first_def t)
next
  case False
  then have "longest (x # y # r) = longest (y # r)" "\<not> longest (y # r) x" by (auto simp: longest_def fun_eq_iff)
  then show ?thesis using False by (simp add: longest_first_def)
qed

lemma longest_first_singleton: "longest_first [] = None" "longest_first [x] = Some x"
  by (simp_all add: longest_first_def longest_def)

lemma best_subnet_max:
  "best_subnet ip ss best =
     longest_first ((case best of None \<Rightarrow> [] | Some b \<Rightarrow> [b]) @ map snd (filter (\<lambda>(n, p, i). ip_in_subnet n p ip) ss))"
proof (induction ip ss best rule: best_subnet.induct)
  case (1 ip best)
  then show ?case by (cases best) (simp_all add: longest_first_singleton)
next
  case (2 ip network pre i ss best)
  then show ?case by (cases best) (auto simp: longest_first_step)
qed

lemma longest_first_mem: "longest_first cs = Some c \<Longrightarrow> c \<in> set cs"
  by (auto simp: longest_first_def find_Some_iff)

lemma longest_first_map: "longest_first (map (apsnd f) cs) = map_option (apsnd f) (longest_first cs)"
proof -
  have "longest (map (apsnd f) cs) (apsnd f c) = longest cs c" for c by (simp add: longest_def list_all_iff)
  then have "find (longest (map (apsnd f) cs)) (map (apsnd f) ds) = map_option (apsnd f) (find (longest cs) ds)" for ds
    by (induction ds) auto
  then show ?thesis by (simp add: longest_first_def)
qed

text \<open>The subnets that contain an address, with their prefix lengths and entries\<close>

definition covering :: "ip_addr \<Rightarrow> client_entry list \<Rightarrow> (nat \<times> client_entry) list" where
  "covering ip es =
     map snd (filter (\<lambda>(n, p, e). ip_in_subnet n p ip) (concat (map (\<lambda>e. id_subnets e (cl_ids e)) es)))"

lemma id_subnets_map: "id_subnets (f x) is = map (apsnd (apsnd f)) (id_subnets x is)"
  by (induction "is") (auto simp: id_subnets_def split: option.split)

lemma covering_enumerate:
  assumes "es = cs @ ds"
  shows "map (apsnd (\<lambda>i. es ! i)) (map snd (filter (\<lambda>(n, p, i). ip_in_subnet n p ip)
      (concat (map (\<lambda>(n, e). id_subnets n (cl_ids e)) (enumerate (length cs) ds))))) = covering ip ds"
  using assms
proof (induction ds arbitrary: cs)
  case (Cons d ds)
  have "map (apsnd (\<lambda>i. es ! i)) (map snd (filter (\<lambda>(n, p, i). ip_in_subnet n p ip) (id_subnets (length cs) (cl_ids d)))) =
     map snd (filter (\<lambda>(n, p, e). ip_in_subnet n p ip) (id_subnets d (cl_ids d)))"
    using id_subnets_map [of "\<lambda>i. es ! i" "length cs" "cl_ids d"] Cons.prems
    by (simp add: filter_map o_def case_prod_unfold)
  with Cons.IH [of "cs @ [d]"] Cons.prems show ?case by (simp add: covering_def)
qed (simp add: covering_def)

lemma match_by_ip_spec:
  assumes "cr_index reg = build_client_index (cr_config reg)"
  shows "match_by_ip_or_cidr reg ip =
     (case find (has_address ip) (cs_entries (cr_config reg)) of
        Some e \<Rightarrow> Some e
      | None \<Rightarrow> map_option snd (longest_first (covering ip (cs_entries (cr_config reg)))))"
proof -
  let ?es = "cs_entries (cr_config reg)"
  let ?f = "find (\<lambda>(i, e). has_address ip e) (enumerate 0 ?es)"
  let ?subs = "map snd (filter (\<lambda>(n, p, i). ip_in_subnet n p ip) (concat (map (\<lambda>(n, e). id_subnets n (cl_ids e)) (enumerate 0 ?es))))"
  have e: "ix_exact_ips (cr_index reg) ip = map_option fst ?f"
    by (simp add: assms build_client_index_def index_exact) (simp add: index_empty_def)
  have s: "best_subnet ip (ix_subnets (cr_index reg)) None = longest_first ?subs"
    by (simp add: assms build_client_index_def index_subnets best_subnet_max) (simp add: index_empty_def)
  show ?thesis
  proof (cases ?f)
    case (Some ie)
    obtain i e where ie: "ie = (i, e)" by (cases ie)
    have "find (has_address ip) ?es = Some e" using find_enumerate(1) [of "has_address ip" 0 ?es] Some ie by simp
    moreover have "idx ?es i = Some e" using find_enumerate(2) [OF Some [unfolded ie]] by (simp add: idx_def)
    ultimately show ?thesis using e Some ie by (simp add: match_by_ip_or_cidr_def)
  next
    case None
    then have n: "find (has_address ip) ?es = None" using find_enumerate(1) [of "has_address ip" 0 ?es] by simp
    have cov: "map (apsnd (\<lambda>i. ?es ! i)) ?subs = covering ip ?es"
      using covering_enumerate [of ?es "[]" ?es] by simp
    then have cl: "longest_first (covering ip ?es) = map_option (apsnd (\<lambda>i. ?es ! i)) (longest_first ?subs)"
      using longest_first_map [of "\<lambda>i. ?es ! i" ?subs] by (simp only: cov)
    have "Option.bind (longest_first ?subs) (\<lambda>(_, i). idx ?es i) = map_option snd (longest_first (covering ip ?es))"
    proof (cases "longest_first ?subs")
      case (Some c)
      obtain p i where c: "c = (p, i)" by (cases c)
      have "(p, i) \<in> set ?subs" using longest_first_mem [OF Some] c by simp
      then obtain e where "(i, e) \<in> set (enumerate 0 ?es)"
        by (auto simp: id_subnets_def split: option.splits)
      then have "i < length ?es" by (auto simp: in_set_enumerate_eq)
      then show ?thesis using Some c by (simp add: cl idx_def)
    qed (simp add: cl)
    then show ?thesis using e s n None by (simp add: match_by_ip_or_cidr_def)
  qed
qed


section \<open>What cannot identify a client\<close>

text \<open>Leases without the names the leasing client chose\<close>

definition unnamed :: "routeros_lease \<Rightarrow> routeros_lease" where
  "unnamed l = l\<lparr>ro_hostname := None, ro_comment := None\<rparr>"

lemma lease_names_entry_untrusted:
  "unnamed l = unnamed l' \<Longrightarrow> lease_names_entry False l e = lease_names_entry False l' e"
proof -
  assume "unnamed l = unnamed l'"
  then have "ro_mac l = ro_mac l'" by (cases l; cases l') (simp add: unnamed_def)
  then have "lease_names_id False l = lease_names_id False l'" by (simp add: lease_names_id_def fun_eq_iff split: option.split)
  then show ?thesis by (simp add: lease_names_entry_def)
qed

lemma routeros_loop_untrusted:
  assumes "\<not> cs_trust_routeros_lease_names config" and "map unnamed ls = map unnamed ls'"
    and "cx_ip ctx = cx_ip ctx'" "cx_mac ctx = cx_mac ctx'"
  shows "snd (routeros_loop config now ls (ctx, u)) = snd (routeros_loop config now ls' (ctx', u'))"
  using assms(2-)
proof (induction ls arbitrary: ls' ctx ctx' u u')
  case (Cons l ls)
  then obtain l' rest where ls': "ls' = l' # rest" "unnamed l = unnamed l'" "map unnamed ls = map unnamed rest"
    by (cases ls') auto
  then have f: "ro_ip l = ro_ip l'" "ro_mac l = ro_mac l'" by (cases l; cases l'; simp add: unnamed_def)+
  have n: "lease_names_entry False l = lease_names_entry False l'"
    using lease_names_entry_untrusted [OF ls'(2)] by blast
  show ?case
    using Cons.prems assms(1) ls' f n
    by (auto simp: Let_def split: option.split intro!: Cons.IH)
qed simp

lemma identify_untrusted:
  assumes "ix_secrets (cr_index reg) = []" "\<not> cs_trust_routeros_lease_names (cr_config reg)"
    and "map unnamed (cr_routeros_leases reg) = map unnamed ls'"
    and "cx_ip ctx = cx_ip ctx'" "cx_mac ctx = cx_mac ctx'"
  shows "snd (snd (identify t now ctx reg)) = snd (snd (identify t now ctx' (reg\<lparr>cr_routeros_leases := ls'\<rparr>)))"
proof -
  have r: "snd (snd (match_by_routeros now c r)) = snd (snd (match_by_routeros now c' r'))"
    if "cx_ip c = cx_ip c'" "cx_mac c = cx_mac c'" "cr_config r = cr_config reg" "cr_config r' = cr_config reg"
      "cr_routeros_leases r = cr_routeros_leases reg" "cr_routeros_leases r' = ls'"
    for c c' r r'
    using routeros_loop_untrusted [OF assms(2,3) that(1,2)] that(3-)
    by (simp add: match_by_routeros_def split_beta Let_def)
  show ?thesis
    using assms(1,4,5)
    by (auto simp: identify_def match_by_client_id_or_sni_def match_by_ip_or_cidr_def match_by_mac_def lookup_mac_def
        Let_def split_beta split: option.split intro!: r)
qed

lemma resolve_policy:
  "snd (snd (registry_resolve C t now ctx reg)) = build_effective_policy C (cr_config reg) (snd (snd (identify t now ctx reg))) now"
proof -
  have c: "cr_config (fst (identify t now ctx reg)) = cr_config reg"
    by (auto simp: identify_def lookup_mac_def match_by_routeros_def Let_def split_beta split: option.split)
  have m: "cr_config (fst (resolve_known_mac t ip e r)) = cr_config r" for ip e r
    by (auto simp: resolve_known_mac_def lookup_mac_def Let_def split_beta split: option.split)
  show ?thesis
    by (auto simp: registry_resolve_def Let_def split_beta c m split: option.split)
qed

lemma index_secrets_none:
  "(\<And>e. e \<in> set es \<Longrightarrow> cs_client_id_secrets config (cl_name e) = None) \<Longrightarrow>
   ix_secrets (fold (index_entry config) (enumerate n es) index) = ix_secrets index"
  by (induction es arbitrary: n index) (simp_all add: index_entry_secrets)


section \<open>Bounds\<close>

definition registry_bounded :: "'c client_registry \<Rightarrow> bool" where
  "registry_bounded reg \<longleftrightarrow>
     length (cr_unidentified reg) \<le> max_unidentified_clients \<and> distinct (map fst (cr_unidentified reg)) \<and>
     length (mr_cache (cr_mac_resolver reg)) \<le> max_mac_entries \<and> length (mr_negative (cr_mac_resolver reg)) \<le> max_mac_entries"

lemma fold_delete: "fold (\<lambda>(k, _). AList.delete k) ks m = filter (\<lambda>(k, _). k \<notin> fst ` set ks) m"
proof (induction ks arbitrary: m)
  case (Cons kv ks)
  obtain k v where kv: "kv = (k, v)" by (cases kv)
  have "AList.delete k m = filter (\<lambda>(k', _). k \<noteq> k') m" by (simp add: AList.delete_eq)
  with Cons show ?case by (auto simp: kv intro!: filter_cong)
qed (simp add: case_prod_unfold)

lemma distinct_map_sort: "distinct (map f (sort_key g xs)) = distinct (map f xs)"
  by (simp add: distinct_map)

lemma length_filter_keys:
  assumes "distinct (map fst m)" "distinct ks" "set ks \<subseteq> set (map fst m)"
  shows "length (filter (\<lambda>(k, _). k \<notin> set ks) m) = length m - length ks"
proof -
  have "length (filter (\<lambda>x. fst x \<in> set ks) m) = length (filter (\<lambda>k. k \<in> set ks) (map fst m))"
    by (simp add: filter_map o_def)
  also have "\<dots> = card (set (filter (\<lambda>k. k \<in> set ks) (map fst m)))"
    using assms(1) by (intro distinct_card [symmetric] distinct_filter)
  also have "\<dots> = length ks" using assms(2,3) by (auto simp: distinct_card [symmetric] intro!: arg_cong [where f = card])
  finally show ?thesis using sum_length_filter_compl [of "\<lambda>x. fst x \<in> set ks" m] by (simp add: case_prod_unfold)
qed

lemma record_unidentified_facts:
  assumes "distinct (map fst u)"
  shows "distinct (map fst (record_unidentified ip l now u))" "length (record_unidentified ip l now u) \<le> max_unidentified_clients"
proof -
  define m where "m = AList.update ip \<lparr>un_ip = ip, un_mac = Some (ro_mac l), un_hostname = ro_hostname l,
      un_comment = ro_comment l, un_last_seen = fst now\<rparr> (filter (still_seen (fst now)) u)"
  have d: "distinct (map fst m)"
    unfolding m_def by (intro distinct_update) (use assms in \<open>simp add: distinct_map_filter\<close>)
  define by_age where "by_age = sort_key snd (map (\<lambda>(k, c). (k, un_last_seen c)) m)"
  define gone where "gone = take (length m - max_unidentified_clients) by_age"
  have r: "record_unidentified ip l now u = (if length m > max_unidentified_clients then filter (\<lambda>(k, _). k \<notin> fst ` set gone) m else m)"
    by (simp add: record_unidentified_def m_def [symmetric] by_age_def gone_def fold_delete Let_def)
  show "distinct (map fst (record_unidentified ip l now u))" using d by (simp add: r distinct_map_filter)
  have "distinct (map fst (map (\<lambda>(k, c). (k, un_last_seen c)) m))" using d by (simp add: o_def case_prod_unfold)
  then have "distinct (map fst by_age)" by (simp only: by_age_def distinct_map_sort)
  moreover have "length by_age = length m" "set (map fst by_age) = set (map fst m)"
    by (auto simp: by_age_def image_image case_prod_unfold)
  ultimately have "length gone = length m - max_unidentified_clients" "distinct (map fst gone)" "set (map fst gone) \<subseteq> set (map fst m)"
    by (auto simp: gone_def take_map [symmetric] dest: in_set_takeD)
  then show "length (record_unidentified ip l now u) \<le> max_unidentified_clients"
    using length_filter_keys [OF d, of "map fst gone"] by (simp add: r)
qed

lemma routeros_loop_bounded:
  assumes "distinct (map fst u)" "length u \<le> max_unidentified_clients"
  shows "distinct (map fst (snd (fst (routeros_loop config now ls (ctx, u))))) \<and>
    length (snd (fst (routeros_loop config now ls (ctx, u)))) \<le> max_unidentified_clients"
  using assms
proof (induction ls arbitrary: ctx u)
  case (Cons l ls)
  then show ?case
    by (auto simp: Let_def record_unidentified_facts split: option.split)
qed simp

lemma min_entry_mem: "min_entry xs f = Some x \<Longrightarrow> x \<in> set xs"
  by (induction xs arbitrary: x) (auto split: option.splits if_splits)

lemma min_entry_ne: "xs \<noteq> [] \<Longrightarrow> min_entry xs f \<noteq> None"
  by (cases xs) (auto split: option.split)

lemma make_room_length: "length c \<le> max_mac_entries \<Longrightarrow> length (make_room f now c) < max_mac_entries"
proof -
  assume c: "length c \<le> max_mac_entries"
  let ?live = "filter (\<lambda>(_, e). f e > now) c"
  have "length ?live \<le> max_mac_entries" using c length_filter_le le_trans by blast
  moreover have "length (AList.delete k ?live) < length ?live" if "min_entry ?live f = Some (k, v)" for k v
  proof -
    have "(k, v) \<in> set ?live" using min_entry_mem [OF that] .
    then show ?thesis unfolding AList.delete_eq by (intro length_filter_less) auto
  qed
  moreover obtain k v where "min_entry ?live f = Some (k, v)" if "max_mac_entries \<le> length ?live"
    using min_entry_ne [of ?live f] by (fastforce simp: max_mac_entries_def)
  ultimately show ?thesis
    by (cases "max_mac_entries \<le> length ?live") (fastforce simp: make_room_def Let_def)+
qed

lemma length_update_le: "length (AList.update k v m) \<le> Suc (length m)"
  by (induction m) auto

lemma resolve_mac_bounded:
  assumes "length (mr_cache r) \<le> max_mac_entries" "length (mr_negative r) \<le> max_mac_entries"
  shows "length (mr_cache (fst (resolve_mac now ip r))) \<le> max_mac_entries \<and>
    length (mr_negative (fst (resolve_mac now ip r))) \<le> max_mac_entries"
proof -
  have p: "length (mr_cache (store_positive now ip m r')) \<le> max_mac_entries" if "length (mr_cache r') \<le> max_mac_entries" for m r'
    using length_update_le [of ip "(m, now + mac_cache_ttl)" "make_room snd now (mr_cache r')"] make_room_length [OF that, of snd now]
    by (simp add: store_positive_def)
  have n: "length (mr_negative (store_negative now ip r)) \<le> max_mac_entries"
    using length_update_le [of ip "now + mac_negative_ttl" "make_room (\<lambda>e. e) now (mr_negative r)"]
      make_room_length [OF assms(2), of "\<lambda>e. e" now]
    by (simp add: store_negative_def)
  have "length (AList.delete ip (mr_negative r)) \<le> max_mac_entries"
    using assms(2) length_filter_le le_trans unfolding AList.delete_eq by blast
  moreover have "mr_negative (store_positive now ip m r') = mr_negative r'" "mr_cache (store_negative now ip r) = mr_cache r" for m r'
    by (simp_all add: store_positive_def store_negative_def)
  ultimately show ?thesis
    using assms p n by (auto simp: resolve_mac_def split: option.split)
qed

lemma bounded_lookup_mac: "registry_bounded reg \<Longrightarrow> registry_bounded (fst (lookup_mac t ip reg))"
  using resolve_mac_bounded [of "cr_mac_resolver reg" t ip]
  by (simp add: registry_bounded_def lookup_mac_def split_beta)

lemma bounded_routeros: "registry_bounded reg \<Longrightarrow> registry_bounded (fst (match_by_routeros now ctx reg))"
  using routeros_loop_bounded [of "cr_unidentified reg" "cr_config reg" now "cr_routeros_leases reg" ctx]
  by (simp add: registry_bounded_def match_by_routeros_def split_beta)

lemma bounded_identify: "registry_bounded reg \<Longrightarrow> registry_bounded (fst (identify t now ctx reg))"
  using bounded_lookup_mac [of reg t "cx_ip ctx"]
  by (auto simp: identify_def split_beta Let_def bounded_routeros split: option.split)

lemma bounded_known_mac: "registry_bounded reg \<Longrightarrow> registry_bounded (fst (resolve_known_mac t ip e reg))"
  using bounded_lookup_mac [of reg t ip]
  by (auto simp: resolve_known_mac_def split_beta Let_def split: option.split)


section \<open>An example registry\<close>

text \<open>A laptop with a fixed address and a secret, everybody else of its network in the group of
  unknown clients, which has filtering switched off\<close>

definition sample_client :: client_entry where
  "sample_client = \<lparr>cl_name = lit ''laptop'', cl_ids = [lit ''10.0.0.7'', lit ''10.1.0.0/16''], cl_group = lit ''default'',
     cl_ignore_query_log = False, cl_ignore_stats = False, cl_use_global_upstreams = True, cl_upstreams = None, cl_trusted = False\<rparr>"

definition sample_group :: "unit client_group" where
  "sample_group = \<lparr>cg_filtering = False, cg_lists = [], cg_custom_rules = [], cg_safe_search = True, cg_safe_search_youtube = None,
     cg_parental = True, cg_parental_categories = [lit ''adult''], cg_schedule_enabled = False, cg_schedule = None,
     cg_blocked_services = [(lit ''tiktok'', None)]\<rparr>"

definition sample_clients :: "(rstr \<Rightarrow> rstr option) \<Rightarrow> unit clients_config" where
  "sample_clients secrets = \<lparr>cs_entries = [sample_client], cs_groups = [lit ''default'' \<mapsto> sample_group],
     cs_client_id_secrets = secrets, cs_trust_routeros_lease_names = False\<rparr>"

definition sample_lease :: "rstr option \<Rightarrow> routeros_lease" where
  "sample_lease host = \<lparr>ro_mac = lit ''02:00:00:00:00:01'', ro_ip = Some (V4 0x0A000009), ro_hostname = host, ro_comment = None\<rparr>"


section \<open>Properties\<close>

text \<open>A shared secret selects the first configured entry it is assigned to, and no
  other text selects an entry: the constant-time comparison over the bytes of every indexed secret
  agrees with looking the secret up in configuration order.\<close>

lemma secret_identifies:
  assumes "s \<noteq> []"
  shows "entry_for_secret (with_stores config leases seen) s =
    find (\<lambda>e. cs_client_id_secrets config (cl_name e) = Some s) (cs_entries config)"
  using entry_for_secret_find [of "with_stores config leases seen", OF _ assms] by simp

lemma secret_identifies_witness:
  "entry_for_secret (with_stores (sample_clients [lit ''laptop'' \<mapsto> lit ''k3y'']) [] []) (lit ''k3y'') = Some sample_client"
  using secret_identifies [of "lit ''k3y''" "sample_clients [lit ''laptop'' \<mapsto> lit ''k3y'']" "[]" "[]"]
  by (simp add: sample_clients_def sample_client_def lit_simps)

text \<open>C38: an address selects the first entry that lists it; failing that, the entry
  with the longest configured prefix that contains it, the first one among equals; and nothing
  otherwise.\<close>

theorem longest_prefix_identifies:
  "match_by_ip_or_cidr (with_stores config leases seen) ip =
     (case find (has_address ip) (cs_entries config) of
        Some e \<Rightarrow> Some e
      | None \<Rightarrow> map_option snd (longest_first (covering ip (cs_entries config))))"
  using match_by_ip_spec [of "with_stores config leases seen" ip] by (simp split: option.split)

text \<open>C37: without configured secrets and with lease names untrusted, nothing a client
  can choose changes its policy: not the identifier in the path, not the server name, not a claimed
  client name, and not the host name or comment of any lease.\<close>

theorem identity_not_spoofable:
  assumes "\<And>e. e \<in> set (cs_entries (cr_config reg)) \<Longrightarrow> cs_client_id_secrets (cr_config reg) (cl_name e) = None"
    and "\<not> cs_trust_routeros_lease_names (cr_config reg)"
    and "cr_index reg = build_client_index (cr_config reg)"
    and "map unnamed (cr_routeros_leases reg) = map unnamed leases'"
  shows "snd (snd (registry_resolve C t now ctx reg)) =
    snd (snd (registry_resolve C t now (ctx\<lparr>cx_id := i, cx_sni := sni, cx_client_name := name\<rparr>) (reg\<lparr>cr_routeros_leases := leases'\<rparr>)))"
proof -
  have "ix_secrets (cr_index reg) = []"
    using index_secrets_none [OF assms(1), where index = index_empty and n = 0] by (simp add: assms(3) build_client_index_def) (simp add: index_empty_def)
  from identify_untrusted [OF this assms(2,4), of ctx "ctx\<lparr>cx_id := i, cx_sni := sni, cx_client_name := name\<rparr>" t now]
  show ?thesis by (simp add: resolve_policy)
qed

theorem identity_not_spoofable_witness:
  "snd (snd (registry_resolve (\<lambda>_ _. Some True) 0 (0, 0) (ctx_new (V4 0x0A000009))
      (with_stores (sample_clients Map.empty) [sample_lease (Some (lit ''laptop''))] []))) =
   snd (snd (registry_resolve (\<lambda>_ _. Some True) 0 (0, 0) (ctx_with_sni (V4 0x0A000009) (lit ''laptop''))
      (with_stores (sample_clients Map.empty) [sample_lease None] [])))"
proof -
  let ?reg = "with_stores (sample_clients Map.empty) [sample_lease (Some (lit ''laptop''))] []"
  have "snd (snd (registry_resolve (\<lambda>_ _. Some True) 0 (0, 0) (ctx_new (V4 0x0A000009)) ?reg)) =
    snd (snd (registry_resolve (\<lambda>_ _. Some True) 0 (0, 0)
      ((ctx_new (V4 0x0A000009))\<lparr>cx_id := Some (lit ''laptop''), cx_sni := Some (lit ''laptop''), cx_client_name := None\<rparr>)
      (?reg\<lparr>cr_routeros_leases := [sample_lease None]\<rparr>)))"
    by (rule identity_not_spoofable) (simp_all add: sample_clients_def sample_lease_def unnamed_def with_stores_def)
  then show ?thesis by (simp add: with_stores_def ctx_new_def ctx_with_sni_def)
qed

text \<open>Resolving a query keeps the registry within its bounds: at most 1024
  discovered clients, one per address, and at most 4096 resolved and 4096 unresolved addresses.\<close>

lemma registry_stays_bounded:
  assumes "registry_bounded reg"
  shows "registry_bounded (fst (registry_resolve C t now ctx reg))"
  using bounded_identify [OF assms, of t now ctx]
  by (auto simp: registry_resolve_def split_beta Let_def bounded_known_mac split: option.split)

lemma registry_stays_bounded_witness:
  "registry_bounded (fst (registry_resolve (\<lambda>_ _. Some True) 0 (0, 0) (ctx_new (V4 0x0A000009))
      (with_stores (sample_clients Map.empty) [sample_lease None] [])))"
  by (rule registry_stays_bounded) (simp add: registry_bounded_def with_stores_def mac_resolver_new_def)



text \<open>A static address with twelve digits is also taken for a hardware address: it reaches the
  index of MAC addresses under the grouping of its digits.\<close>

lemma address_taken_for_mac:
  "normalize_mac_id (lit ''100.200.100.200'') = Some (lit ''10:02:00:10:02:00'')"
  "parse_ip (trim (lit ''100.200.100.200'')) = Some (V4 0x64C864C8)"
  by code_simp+

end
