(* ===== verification/Dnssec_Outcome.thy ===== *)
theory Dnssec_Outcome
  imports Dns_Message
begin

text \<open>
  How a DNSSEC decision is applied to a response, \<^verbatim>\<open>crates/sito-dnssec/src/lib.rs\<close>: modes and
  outcomes, the authenticated TTLs of a secure answer, the treatment of a bogus one, and the end of
  \<^verbatim>\<open>validate_with_key_fetcher\<close>, which removes the records that were fetched to build the chain.
  The decision itself is an argument: signature checks and chain building are not modelled, the denial
  proofs it also rests on are in Denial_Proofs.
\<close>

datatype dnssec_mode = Validate | LogOnly | DnssecOff

definition mode_from_str :: "rstr \<Rightarrow> dnssec_mode" where
  "mode_from_str s =
     (let l = to_ascii_lowercase s
      in if l \<in> {lit ''log-only'', lit ''log_only'', lit ''log_fail'', lit ''permissive''} then LogOnly
         else if l \<in> {lit ''disabled'', lit ''off''} then DnssecOff
         else Validate)"

datatype validation_outcome = OSecure | OInsecure | OBogus rstr nat | OIndeterminate | ONtaBypass

definition outcome_str :: "validation_outcome \<Rightarrow> rstr" where
  "outcome_str out =
     (case out of
        OSecure \<Rightarrow> lit ''secure''
      | OInsecure \<Rightarrow> lit ''insecure''
      | ONtaBypass \<Rightarrow> lit ''insecure''
      | OBogus _ _ \<Rightarrow> lit ''bogus''
      | OIndeterminate \<Rightarrow> lit ''indeterminate'')"

definition ede_option :: nat where "ede_option = 15"

definition apply_ede :: "'n dns_lib \<Rightarrow> nat \<Rightarrow> rstr \<Rightarrow> 'n message \<Rightarrow> 'n message" where
  "apply_ede D code extra_text m =
     (let e = (case ms_edns m of
                 Some e \<Rightarrow> e
               | None \<Rightarrow> (dl_edns_new D)\<lparr>ed_max_payload := dl_payload D 1232, ed_version := 0\<rparr>);
          payload = [code div 256, code mod 256] @ as_bytes extra_text
      in m\<lparr>ms_edns := Some (e\<lparr>ed_options := filter (\<lambda>(c, _). c \<noteq> ede_option) (ed_options e) @ [(ede_option, payload)]\<rparr>)\<rparr>)"


section \<open>Authenticated lifetimes\<close>

fun cname_target :: "'n rr list \<Rightarrow> 'n \<Rightarrow> 'n option" where
  "cname_target [] name = None"
| "cname_target (r # rs) name =
     (case rr_data r of
        CnameData t \<Rightarrow> if rr_name r = name \<and> t \<noteq> name then Some t else cname_target rs name
      | _ \<Rightarrow> cname_target rs name)"

fun negative_name_loop :: "nat \<Rightarrow> 'n rr list \<Rightarrow> 'n \<Rightarrow> 'n" where
  "negative_name_loop 0 rs cur = cur"
| "negative_name_loop (Suc k) rs cur =
     (case cname_target rs cur of Some next \<Rightarrow> negative_name_loop k rs next | None \<Rightarrow> cur)"

definition negative_answer_name :: "'n message \<Rightarrow> 'n \<Rightarrow> 'n" where
  "negative_answer_name m qname = negative_name_loop 16 (ms_answers m) qname"

definition is_negative_response :: "'n message \<Rightarrow> 'n \<Rightarrow> nat \<Rightarrow> bool" where
  "is_negative_response m qname qtype =
     (if ms_rcode m = rcode_nxdomain then True
      else if ms_rcode m \<noteq> rcode_noerror then False
      else let target = negative_answer_name m qname
           in \<not> list_ex (\<lambda>r. rr_name r = target \<and> (rr_type r = qtype \<or> qtype = type_any)) (ms_answers m))"

definition is_denial_record :: "'n rr \<Rightarrow> bool" where
  "is_denial_record r =
     (case rr_data r of
        SigData _ covered _ \<Rightarrow> covered = type_nsec \<or> covered = type_nsec3
      | OtherData t _ \<Rightarrow> t = type_nsec \<or> t = type_nsec3
      | _ \<Rightarrow> False)"

definition authenticated_denial_ttl :: "'n message \<Rightarrow> nat option" where
  "authenticated_denial_ttl m = list_min (map rr_ttl (filter is_denial_record (all_records m)))"

definition signatures :: "'n message \<Rightarrow> ('n \<times> nat \<times> nat list) list" where
  "signatures m =
     concat (map (\<lambda>r. case rr_data r of SigData _ covered sig \<Rightarrow> [(rr_name r, covered, sig)] | _ \<Rightarrow> []) (all_records m))"

definition cap_ttl :: "nat \<Rightarrow> 'n rr \<Rightarrow> 'n rr" where
  "cap_ttl t r = r\<lparr>rr_ttl := min (rr_ttl r) t\<rparr>"

definition cap_record :: "'n dns_lib \<Rightarrow> nat \<Rightarrow> ('n \<times> nat \<times> nat list) list \<Rightarrow> 'n rr \<Rightarrow> 'n rr" where
  "cap_record D now sigs r =
     (case rr_data r of
        SigData _ _ own \<Rightarrow> cap_ttl (dl_auth_ttl D own r now) r
      | _ \<Rightarrow>
          (case find (\<lambda>(owner, covered, _). owner = rr_name r \<and> covered = rr_type r) sigs of
             Some (_, _, sig) \<Rightarrow> cap_ttl (dl_auth_ttl D sig r now) r
           | None \<Rightarrow> r))"

definition cap_soa :: "nat \<Rightarrow> 'n rr \<Rightarrow> 'n rr" where
  "cap_soa t r = (case rr_data r of SoaData _ \<Rightarrow> cap_ttl t r | _ \<Rightarrow> r)"

definition map_sections :: "('n rr \<Rightarrow> 'n rr) \<Rightarrow> 'n message \<Rightarrow> 'n message" where
  "map_sections f m =
     m\<lparr>ms_answers := map f (ms_answers m), ms_authorities := map f (ms_authorities m),
       ms_additionals := map f (ms_additionals m)\<rparr>"

definition apply_authenticated_ttls :: "'n dns_lib \<Rightarrow> nat \<Rightarrow> 'n message \<Rightarrow> 'n message" where
  "apply_authenticated_ttls D now m =
     (let sigs = signatures m
      in if sigs = [] then m
         else let m = map_sections (cap_record D now sigs) m
              in case ms_queries m of
                   [] \<Rightarrow> m
                 | q # _ \<Rightarrow>
                     if \<not> is_negative_response m (qu_name q) (qu_type q) then m
                     else case authenticated_denial_ttl m of
                         None \<Rightarrow> m
                       | Some denial_ttl \<Rightarrow>
                           m\<lparr>ms_answers := map (cap_soa denial_ttl) (ms_answers m),
                             ms_authorities := map (cap_soa denial_ttl) (ms_authorities m)\<rparr>)"


section \<open>Settling a decision\<close>

definition secure_outcome :: "'n dns_lib \<Rightarrow> nat \<Rightarrow> 'n message \<Rightarrow> 'n message \<times> validation_outcome" where
  "secure_outcome D now m = ((apply_authenticated_ttls D now m)\<lparr>ms_authentic_data := True\<rparr>, OSecure)"

definition handle_bogus :: "'n dns_lib \<Rightarrow> dnssec_mode \<Rightarrow> rstr \<Rightarrow> nat \<Rightarrow> 'n message \<Rightarrow> 'n message \<times> validation_outcome" where
  "handle_bogus D mode reason ede_code m =
     (case mode of
        Validate \<Rightarrow>
          (apply_ede D ede_code reason (m\<lparr>ms_rcode := rcode_servfail, ms_authentic_data := False, ms_answers := []\<rparr>),
           OBogus reason ede_code)
      | LogOnly \<Rightarrow> (m\<lparr>ms_authentic_data := False\<rparr>, OBogus reason ede_code)
      | DnssecOff \<Rightarrow> (m, OInsecure))"

text \<open>\<open>decision\<close> is what the checks concluded and \<open>fetched\<close> the records appended to the additional
  section to reach it.\<close>

definition settle ::
  "'n dns_lib \<Rightarrow> dnssec_mode \<Rightarrow> nat \<Rightarrow> validation_outcome \<times> 'n rr list \<Rightarrow> 'n message \<Rightarrow> 'n message \<times> validation_outcome" where
  "settle D mode now decided m =
     (if mode = DnssecOff then (m\<lparr>ms_authentic_data := False\<rparr>, OInsecure)
      else let (decision, fetched) = decided;
               original_additionals = length (ms_additionals m);
               m = m\<lparr>ms_additionals := ms_additionals m @ fetched\<rparr>;
               (m, outcome) = (case decision of
                                 OSecure \<Rightarrow> secure_outcome D now m
                               | OBogus reason ede_code \<Rightarrow> handle_bogus D mode reason ede_code m
                               | other \<Rightarrow> (m\<lparr>ms_authentic_data := False\<rparr>, other))
           in (m\<lparr>ms_additionals := take original_additionals (ms_additionals m)\<rparr>, outcome))"

lemma map_sections_simps [simp]:
  "ms_answers (map_sections f m) = map f (ms_answers m)" "ms_authorities (map_sections f m) = map f (ms_authorities m)"
  "ms_additionals (map_sections f m) = map f (ms_additionals m)" "ms_queries (map_sections f m) = ms_queries m"
  "ms_rcode (map_sections f m) = ms_rcode m" "ms_id (map_sections f m) = ms_id m"
  by (simp_all add: map_sections_def)

lemma settle_ad: "ms_authentic_data (fst (settle D mode now decided m)) \<longleftrightarrow> snd (settle D mode now decided m) = OSecure"
  by (simp add: settle_def secure_outcome_def handle_bogus_def apply_ede_def Let_def split: prod.split validation_outcome.split
      dnssec_mode.split option.split)

lemma settle_bogus:
  "snd (settle Dn Validate now decided m) = OBogus reason code \<Longrightarrow>
     ms_rcode (fst (settle Dn Validate now decided m)) = rcode_servfail \<and> ms_answers (fst (settle Dn Validate now decided m)) = []"
  by (auto simp: settle_def secure_outcome_def handle_bogus_def apply_ede_def Let_def split: prod.splits validation_outcome.splits)

text \<open>The identity of a message does not depend on the decision.\<close>

lemma settle_keeps:
  "ms_id (fst (settle D mode now decided m)) = ms_id m" "ms_queries (fst (settle D mode now decided m)) = ms_queries m"
  "ms_response (fst (settle D mode now decided m)) = ms_response m"
  by (simp_all add: settle_def secure_outcome_def handle_bogus_def apply_ede_def apply_authenticated_ttls_def map_sections_def
      Let_def split: prod.split validation_outcome.split dnssec_mode.split option.split list.split)

end
