(* ===== verification/Denial_Proofs.thy ===== *)
theory Denial_Proofs
  imports Dnssec_Outcome
begin

text \<open>
  Proofs that a name or a type does not exist, \<^verbatim>\<open>crates/sito-dnssec/src/{nsec,nsec3}.rs\<close> and
  \<^verbatim>\<open>evaluate_denial\<close> of \<^verbatim>\<open>lib.rs\<close>.

  What the code asks of hickory's names and of the DNSSEC record data is the record \<open>sec_lib\<close>: the
  canonical order and the label operations of names, the decoded data of NSEC, NSEC3, DNSKEY and DS
  records and of signatures, the NSEC3 hash, the base32 decoder, the digest test of a DS record and
  the verification of a signature.  The data of such a record is \<open>OtherData\<close> with the type and the
  encoded data; a signature is \<open>SigData\<close>.  A \<^verbatim>\<open>LowerName\<close> is the lower-cased name, whose equality is
  that of names, so both are \<open>'n\<close>.  The two walks towards the root end only if \<^verbatim>\<open>base_name\<close>
  eventually yields the root; they are partial functions and return \<open>None\<close> where they would not end.
\<close>

definition type_ns :: nat where "type_ns = 2"
definition type_ds :: nat where "type_ds = 43"

record 'n nsec =
  ns_next :: 'n
  ns_types :: "nat list"

record 'n nsec_record =
  nr_owner :: 'n
  nr_rdata :: "'n nsec"

record nsec3 =
  n3_hash_algorithm :: nat
  n3_opt_out :: bool
  n3_iterations :: nat
  n3_salt :: "nat list"
  n3_next :: "nat list"
  n3_types :: "nat list"

record 'n nsec3_record =
  n3_owner :: 'n
  n3_rdata :: nsec3

record 'n sig_input =
  si_algorithm :: nat
  si_key_tag :: nat
  si_signer :: 'n
  si_inception :: nat
  si_expiration :: nat

record dnskey =
  dk_zone_key :: bool
  dk_revoke :: bool
  dk_algorithm :: nat
  dk_public :: "nat list"
  dk_tag :: "nat option"

record ds_data =
  ds_algorithm :: nat
  ds_digest_type :: nat

record 'n sec_lib =
  sl_less :: "'n \<Rightarrow> 'n \<Rightarrow> bool"
  sl_is_wildcard :: "'n \<Rightarrow> bool"
  sl_base_name :: "'n \<Rightarrow> 'n"
  sl_is_root :: "'n \<Rightarrow> bool"
  sl_num_labels :: "'n \<Rightarrow> nat"
  sl_from_ascii :: "rstr \<Rightarrow> 'n option"
  sl_first_label :: "'n \<Rightarrow> nat list option"
  sl_nsec :: "nat list \<Rightarrow> 'n nsec"
  sl_nsec3 :: "nat list \<Rightarrow> nsec3"
  sl_hash :: "nat \<Rightarrow> nat list \<Rightarrow> 'n \<Rightarrow> nat \<Rightarrow> nat list option"
  sl_base32 :: "nat list \<Rightarrow> nat list option"
  sl_sig :: "nat list \<Rightarrow> 'n sig_input"
  sl_key :: "nat list \<Rightarrow> dnskey"
  sl_ds :: "nat list \<Rightarrow> ds_data"
  sl_ds_covers :: "nat list \<Rightarrow> 'n \<Rightarrow> nat list \<Rightarrow> bool"
  sl_verify :: "nat list \<Rightarrow> 'n \<Rightarrow> nat \<times> nat list \<Rightarrow> 'n rr list \<Rightarrow> bool"


section \<open>NSEC\<close>

datatype nsec_denial = NsecSecure | NsecIncomplete

definition nsec_covers :: "'n sec_lib \<Rightarrow> 'n nsec_record \<Rightarrow> 'n \<Rightarrow> bool" where
  "nsec_covers V r qname =
     (let owner = nr_owner r; next = ns_next (nr_rdata r)
      in if owner = qname then False
         else if sl_less V next owner \<or> next = owner then sl_less V owner qname \<or> sl_less V qname next
         else sl_less V owner qname \<and> sl_less V qname next)"

definition nsec_denies_type :: "'n nsec_record \<Rightarrow> nat \<Rightarrow> bool" where
  "nsec_denies_type r qtype =
     (let types = ns_types (nr_rdata r)
      in if qtype \<in> set types \<or> type_cname \<in> set types then False
         else if qtype = type_ds then True
         else type_ns \<notin> set types \<or> type_soa \<in> set types)"

text \<open>The candidate found for one record: its first ancestor that is a proper ancestor of the
  queried name, if there is one below the root.\<close>

partial_function (option) encloser_walk :: "'n dns_lib \<Rightarrow> 'n sec_lib \<Rightarrow> 'n \<Rightarrow> 'n \<Rightarrow> 'n option option" where
  "encloser_walk D V qname cand =
     (if sl_is_root V cand then Some None
      else if cand \<noteq> qname \<and> dl_zone_of D cand qname then Some (Some cand)
      else encloser_walk D V qname (sl_base_name V cand))"

declare encloser_walk.simps [code]

fun closest_encloser :: "'n dns_lib \<Rightarrow> 'n sec_lib \<Rightarrow> 'n \<Rightarrow> 'n \<Rightarrow> 'n nsec_record list \<Rightarrow> 'n option" where
  "closest_encloser D V qname closest [] = Some closest"
| "closest_encloser D V qname closest (r # rs) =
     do { found \<leftarrow> encloser_walk D V qname
                     (if sl_is_wildcard V (nr_owner r) then sl_base_name V (nr_owner r) else nr_owner r);
          closest_encloser D V qname
            (case found of
               Some cand \<Rightarrow> if sl_num_labels V closest < sl_num_labels V cand then cand else closest
             | None \<Rightarrow> closest) rs }"

definition wildcard_of :: "'n dns_lib \<Rightarrow> 'n sec_lib \<Rightarrow> 'n \<Rightarrow> 'n option" where
  "wildcard_of D V name = sl_from_ascii V (lit ''*.'' @ dl_ascii D name)"

definition nsec_nxdomain_proof ::
  "'n dns_lib \<Rightarrow> 'n sec_lib \<Rightarrow> 'n nsec_record list \<Rightarrow> 'n \<Rightarrow> 'n \<Rightarrow> nsec_denial" where
  "nsec_nxdomain_proof D V relevant qname closest =
     (if list_ex (\<lambda>r. nr_owner r = qname) relevant then NsecIncomplete
      else if \<not> list_ex (\<lambda>r. nsec_covers V r qname) relevant then NsecIncomplete
      else case wildcard_of D V closest of
          None \<Rightarrow> NsecIncomplete
        | Some wildcard \<Rightarrow>
            if \<not> list_ex (\<lambda>r. nsec_covers V r wildcard) relevant then NsecIncomplete else NsecSecure)"

definition nsec_nodata_proof ::
  "'n sec_lib \<Rightarrow> 'n nsec_record list \<Rightarrow> 'n \<Rightarrow> nat \<Rightarrow> 'n \<Rightarrow> nsec_denial" where
  "nsec_nodata_proof V relevant qname qtype closest =
     (if list_ex (\<lambda>r. nr_owner r = qname \<and> nsec_denies_type r qtype) relevant then NsecSecure
      else if list_ex (\<lambda>r. nsec_covers V r qname) relevant
           \<and> list_ex (\<lambda>r. sl_is_wildcard V (nr_owner r) \<and> nsec_denies_type r qtype
                           \<and> sl_base_name V (nr_owner r) = closest) relevant
      then NsecSecure
      else NsecIncomplete)"

definition evaluate_nsec_denial ::
  "'n dns_lib \<Rightarrow> 'n sec_lib \<Rightarrow> 'n nsec_record list \<Rightarrow> 'n \<Rightarrow> nat \<Rightarrow> bool \<Rightarrow> 'n \<Rightarrow> nsec_denial option" where
  "evaluate_nsec_denial D V records qname qtype nxdomain signer_zone =
     (if \<not> dl_zone_of D signer_zone qname then Some NsecIncomplete
      else let relevant = filter (\<lambda>r. dl_zone_of D signer_zone (nr_owner r)) records
           in do { closest \<leftarrow> closest_encloser D V qname signer_zone relevant;
                   Some (if nxdomain then nsec_nxdomain_proof D V relevant qname closest
                         else nsec_nodata_proof V relevant qname qtype closest) })"


section \<open>NSEC3\<close>

datatype nsec3_denial = N3Secure | N3OptOut | N3Incomplete

definition max_iterations :: nat where "max_iterations = 150"

text \<open>\<^verbatim>\<open>std::str::from_utf8\<close>\<close>

definition cont_byte :: "nat \<Rightarrow> bool" where "cont_byte b \<longleftrightarrow> 128 \<le> b \<and> b < 192"

fun from_utf8 :: "nat list \<Rightarrow> rstr option" where
  "from_utf8 [] = Some []"
| "from_utf8 (b # bs) =
     (if b < 128 then map_option (Cons b) (from_utf8 bs)
      else case bs of
          [] \<Rightarrow> None
        | c # bs1 \<Rightarrow>
            if 194 \<le> b \<and> b < 224 \<and> cont_byte c then map_option (Cons ((b - 192) * 64 + (c - 128))) (from_utf8 bs1)
            else case bs1 of
                [] \<Rightarrow> None
              | d # bs2 \<Rightarrow>
                  if 224 \<le> b \<and> b < 240 \<and> cont_byte c \<and> cont_byte d \<and> (b = 224 \<longrightarrow> 160 \<le> c) \<and> (b = 237 \<longrightarrow> c < 160)
                  then map_option (Cons ((b - 224) * 4096 + (c - 128) * 64 + (d - 128))) (from_utf8 bs2)
                  else case bs2 of
                      [] \<Rightarrow> None
                    | e # bs3 \<Rightarrow>
                        if 240 \<le> b \<and> b < 245 \<and> cont_byte c \<and> cont_byte d \<and> cont_byte e
                           \<and> (b = 240 \<longrightarrow> 144 \<le> c) \<and> (b = 244 \<longrightarrow> c < 144)
                        then map_option
                               (Cons ((b - 240) * 262144 + (c - 128) * 4096 + (d - 128) * 64 + (e - 128))) (from_utf8 bs3)
                        else None)"

definition decode_owner_hash :: "'n sec_lib \<Rightarrow> 'n \<Rightarrow> nat list option" where
  "decode_owner_hash V owner =
     do { raw \<leftarrow> sl_first_label V owner;
          text \<leftarrow> from_utf8 raw;
          sl_base32 V (as_bytes (to_ascii_uppercase text)) }"

definition hash_name :: "'n sec_lib \<Rightarrow> nsec3 \<Rightarrow> 'n \<Rightarrow> nat list option" where
  "hash_name V r name =
     (if n3_iterations r > max_iterations then None
      else sl_hash V (n3_hash_algorithm r) (n3_salt r) name (n3_iterations r))"

definition nsec3_matches :: "'n sec_lib \<Rightarrow> 'n nsec3_record \<Rightarrow> 'n \<Rightarrow> bool" where
  "nsec3_matches V r name =
     (case (decode_owner_hash V (n3_owner r), hash_name V (n3_rdata r) name) of
        (Some owner, Some hash) \<Rightarrow> owner = hash
      | _ \<Rightarrow> False)"

definition nsec3_covers :: "'n sec_lib \<Rightarrow> 'n nsec3_record \<Rightarrow> 'n \<Rightarrow> bool" where
  "nsec3_covers V r name =
     (case decode_owner_hash V (n3_owner r) of
        None \<Rightarrow> False
      | Some owner \<Rightarrow>
          (case hash_name V (n3_rdata r) name of
             None \<Rightarrow> False
           | Some hash \<Rightarrow>
               let next = n3_next (n3_rdata r)
               in if owner = hash \<or> hash = next then False
                  else if owner < next then owner < hash \<and> hash < next
                  else owner < hash \<or> hash < next))"

definition nsec3_denies_type :: "'n nsec3_record \<Rightarrow> nat \<Rightarrow> bool" where
  "nsec3_denies_type r qtype =
     (let types = n3_types (n3_rdata r)
      in if qtype \<in> set types \<or> type_cname \<in> set types then False
         else if qtype = type_ds then True
         else type_ns \<notin> set types \<or> type_soa \<in> set types)"

text \<open>The walk returns the closest encloser with the next closer name, one label longer.\<close>

partial_function (option) nsec3_walk ::
  "'n sec_lib \<Rightarrow> 'n nsec3_record list \<Rightarrow> 'n \<Rightarrow> 'n option \<Rightarrow> ('n \<times> 'n option) option option" where
  "nsec3_walk V relevant candidate next_closer =
     (if list_ex (\<lambda>r. nsec3_matches V r candidate) relevant then Some (Some (candidate, next_closer))
      else if sl_is_root V candidate then Some None
      else nsec3_walk V relevant (sl_base_name V candidate) (Some candidate))"

declare nsec3_walk.simps [code]

definition nsec3_nodata_proof ::
  "'n dns_lib \<Rightarrow> 'n sec_lib \<Rightarrow> 'n nsec3_record list \<Rightarrow> 'n \<Rightarrow> nat \<Rightarrow> 'n \<Rightarrow> 'n option \<Rightarrow> nsec3_denial" where
  "nsec3_nodata_proof D V relevant qname qtype closest next_closer =
     (if closest = qname then
        (if list_ex (\<lambda>r. nsec3_matches V r qname \<and> nsec3_denies_type r qtype) relevant then N3Secure else N3Incomplete)
      else case next_closer of
          None \<Rightarrow> N3Incomplete
        | Some next_closer \<Rightarrow>
            (case find (\<lambda>r. nsec3_covers V r next_closer) relevant of
               None \<Rightarrow> N3Incomplete
             | Some covering \<Rightarrow>
                 if (case wildcard_of D V closest of
                       Some wildcard \<Rightarrow> list_ex (\<lambda>r. nsec3_matches V r wildcard \<and> nsec3_denies_type r qtype) relevant
                     | None \<Rightarrow> False)
                 then N3Secure
                 else if n3_opt_out (n3_rdata covering) then N3OptOut
                 else N3Incomplete))"

definition nsec3_nxdomain_proof ::
  "'n dns_lib \<Rightarrow> 'n sec_lib \<Rightarrow> 'n nsec3_record list \<Rightarrow> 'n \<Rightarrow> 'n \<Rightarrow> 'n option \<Rightarrow> nsec3_denial" where
  "nsec3_nxdomain_proof D V relevant qname closest next_closer =
     (if closest = qname then N3Incomplete
      else case next_closer of
          None \<Rightarrow> N3Incomplete
        | Some next_closer \<Rightarrow>
            (case wildcard_of D V closest of
               None \<Rightarrow> N3Incomplete
             | Some wildcard \<Rightarrow>
                 (case find (\<lambda>r. nsec3_covers V r next_closer) relevant of
                    Some r \<Rightarrow>
                      if n3_opt_out (n3_rdata r) then N3OptOut
                      else if list_ex (\<lambda>r. nsec3_covers V r wildcard) relevant then N3Secure
                      else N3Incomplete
                  | None \<Rightarrow> N3Incomplete)))"

definition evaluate_nsec3_denial ::
  "'n dns_lib \<Rightarrow> 'n sec_lib \<Rightarrow> 'n nsec3_record list \<Rightarrow> 'n \<Rightarrow> nat \<Rightarrow> bool \<Rightarrow> nsec3_denial option" where
  "evaluate_nsec3_denial D V records qname qtype nxdomain =
     (let relevant = filter (\<lambda>r. dl_zone_of D (sl_base_name V (n3_owner r)) qname
                               \<and> n3_iterations (n3_rdata r) \<le> max_iterations) records
      in if relevant = [] then Some N3Incomplete
         else do { found \<leftarrow> nsec3_walk V relevant qname None;
                   Some (case found of
                           None \<Rightarrow> N3Incomplete
                         | Some (closest, next_closer) \<Rightarrow>
                             if \<not> nxdomain then nsec3_nodata_proof D V relevant qname qtype closest next_closer
                             else nsec3_nxdomain_proof D V relevant qname closest next_closer) })"


section \<open>Authenticated denial\<close>

record 'n trusted_signature =
  ts_owner :: 'n
  ts_covered :: nat
  ts_signer :: 'n

datatype denial_result = DenialSecure | DenialOptOut | DenialIncomplete

definition nsec_of :: "'n sec_lib \<Rightarrow> 'n rr \<Rightarrow> 'n nsec option" where
  "nsec_of V r = (case rr_data r of OtherData t d \<Rightarrow> if t = type_nsec then Some (sl_nsec V d) else None | _ \<Rightarrow> None)"

definition nsec3_of :: "'n sec_lib \<Rightarrow> 'n rr \<Rightarrow> nsec3 option" where
  "nsec3_of V r = (case rr_data r of OtherData t d \<Rightarrow> if t = type_nsec3 then Some (sl_nsec3 V d) else None | _ \<Rightarrow> None)"

text \<open>The groups are maps from a signer to the records it signed, in the order of the message.  The
  source goes through its hash maps in an arbitrary order, which cannot matter: the result asks only
  whether some group is secure and whether some group opts out.\<close>

definition add_record :: "'n \<Rightarrow> 'a \<Rightarrow> ('n \<times> 'a list) list \<Rightarrow> ('n \<times> 'a list) list" where
  "add_record signer x groups =
     (case map_of groups signer of
        Some xs \<Rightarrow> map (\<lambda>(s, ys). if s = signer then (s, ys @ [x]) else (s, ys)) groups
      | None \<Rightarrow> groups @ [(signer, [x])])"

definition signers_of :: "'n dns_lib \<Rightarrow> 'n \<Rightarrow> nat \<Rightarrow> 'n rr \<Rightarrow> 'n trusted_signature list \<Rightarrow> 'n list" where
  "signers_of D name covered r trusted_sigs =
     map ts_signer (filter (\<lambda>t. ts_owner t = rr_name r \<and> dl_zone_of D (ts_signer t) name \<and> ts_covered t = covered) trusted_sigs)"

fun nsec_groups ::
  "'n dns_lib \<Rightarrow> 'n sec_lib \<Rightarrow> 'n \<Rightarrow> 'n trusted_signature list \<Rightarrow> 'n rr list \<Rightarrow> ('n \<times> 'n nsec_record list) list
   \<Rightarrow> ('n \<times> 'n nsec_record list) list" where
  "nsec_groups D V name sigs [] groups = groups"
| "nsec_groups D V name sigs (r # rs) groups =
     (case nsec_of V r of
        None \<Rightarrow> nsec_groups D V name sigs rs groups
      | Some n \<Rightarrow>
          nsec_groups D V name sigs rs
            (fold (\<lambda>s. add_record s \<lparr>nr_owner = rr_name r, nr_rdata = n\<rparr>) (signers_of D name type_nsec r sigs) groups))"

fun nsec3_groups ::
  "'n dns_lib \<Rightarrow> 'n sec_lib \<Rightarrow> 'n \<Rightarrow> 'n trusted_signature list \<Rightarrow> 'n rr list \<Rightarrow> ('n \<times> 'n nsec3_record list) list
   \<Rightarrow> ('n \<times> 'n nsec3_record list) list" where
  "nsec3_groups D V name sigs [] groups = groups"
| "nsec3_groups D V name sigs (r # rs) groups =
     (case nsec3_of V r of
        None \<Rightarrow> nsec3_groups D V name sigs rs groups
      | Some n \<Rightarrow>
          nsec3_groups D V name sigs rs
            (fold (\<lambda>s. add_record s \<lparr>n3_owner = rr_name r, n3_rdata = n\<rparr>) (signers_of D name type_nsec3 r sigs) groups))"

fun nsec_loop :: "'n dns_lib \<Rightarrow> 'n sec_lib \<Rightarrow> 'n \<Rightarrow> nat \<Rightarrow> bool \<Rightarrow> ('n \<times> 'n nsec_record list) list \<Rightarrow> bool option" where
  "nsec_loop D V name qtype nx [] = Some False"
| "nsec_loop D V name qtype nx ((signer, records) # gs) =
     do { d \<leftarrow> evaluate_nsec_denial D V records name qtype nx signer;
          if d = NsecSecure then Some True else nsec_loop D V name qtype nx gs }"

fun nsec3_loop ::
  "'n dns_lib \<Rightarrow> 'n sec_lib \<Rightarrow> 'n \<Rightarrow> nat \<Rightarrow> bool \<Rightarrow> bool \<Rightarrow> ('n \<times> 'n nsec3_record list) list \<Rightarrow> denial_result option" where
  "nsec3_loop D V name qtype nx opt_out [] = Some (if opt_out then DenialOptOut else DenialIncomplete)"
| "nsec3_loop D V name qtype nx opt_out ((_, records) # gs) =
     do { d \<leftarrow> evaluate_nsec3_denial D V records name qtype nx;
          case d of
            N3Secure \<Rightarrow> Some DenialSecure
          | N3OptOut \<Rightarrow> nsec3_loop D V name qtype nx True gs
          | N3Incomplete \<Rightarrow> nsec3_loop D V name qtype nx opt_out gs }"

definition evaluate_denial ::
  "'n dns_lib \<Rightarrow> 'n sec_lib \<Rightarrow> 'n message \<Rightarrow> 'n \<Rightarrow> nat \<Rightarrow> 'n trusted_signature list \<Rightarrow> denial_result option" where
  "evaluate_denial D V m negative_name qtype trusted_sigs =
     (let nxdomain = (ms_rcode m = rcode_nxdomain);
          records = ms_authorities m @ ms_additionals m
      in do { secure \<leftarrow> nsec_loop D V negative_name qtype nxdomain (nsec_groups D V negative_name trusted_sigs records []);
              if secure then Some DenialSecure
              else nsec3_loop D V negative_name qtype nxdomain False
                     (nsec3_groups D V negative_name trusted_sigs records []) })"

end
