(* ===== verification/Denial_Correct.thy ===== *)
theory Denial_Correct
  imports Denial_Proofs
begin

text \<open>
  What an accepted denial proof means for the zone that signed it.

  \<open>names_ok\<close> states the documented behaviour of names over their labels, leftmost first: equality,
  canonical order, zone membership, wildcards, parents.  A zone is the set of the names it has to
  list, with the types present at each; \<open>nsec_chain\<close> and \<open>nsec3_chain\<close> say that a record was
  generated for that zone.  \<open>answers_from\<close> is the name whose records answer a query: the name itself,
  or the wildcard below its closest encloser.
\<close>

type_synonym labels = "nat list list"

definition star :: "nat list" where "star = lit ''*''"

definition names_ok :: "'n dns_lib \<Rightarrow> 'n sec_lib \<Rightarrow> ('n \<Rightarrow> labels) \<Rightarrow> bool" where
  "names_ok D V lab \<longleftrightarrow>
     inj lab
     \<and> (\<forall>a b. sl_less V a b \<longleftrightarrow> rev (lab a) < rev (lab b))
     \<and> (\<forall>z n. dl_zone_of D z n \<longleftrightarrow> suffix (lab z) (lab n))
     \<and> (\<forall>n. sl_is_wildcard V n \<longleftrightarrow> (\<exists>ls. lab n = star # ls))
     \<and> (\<forall>n. lab (sl_base_name V n) = tl (lab n))
     \<and> (\<forall>n. sl_is_root V n \<longleftrightarrow> lab n = [])
     \<and> (\<forall>n. sl_num_labels V n = (case lab n of [] \<Rightarrow> 0 | l # ls \<Rightarrow> if l = star then length ls else Suc (length ls)))
     \<and> (\<forall>n w. wildcard_of D V n = Some w \<longrightarrow> lab w = star # lab n)"

lemma names_okD:
  assumes "names_ok D V lab"
  shows "inj lab" "sl_less V a b \<longleftrightarrow> rev (lab a) < rev (lab b)" "dl_zone_of D z n \<longleftrightarrow> suffix (lab z) (lab n)"
    "sl_is_wildcard V n \<longleftrightarrow> (\<exists>ls. lab n = star # ls)" "lab (sl_base_name V n) = tl (lab n)" "sl_is_root V n \<longleftrightarrow> lab n = []"
    "sl_num_labels V n = (case lab n of [] \<Rightarrow> 0 | l # ls \<Rightarrow> if l = star then length ls else Suc (length ls))"
    "wildcard_of D V n = Some w \<Longrightarrow> lab w = star # lab n"
  using assms by (simp_all add: names_ok_def)

lemma lab_eq: "names_ok D V lab \<Longrightarrow> lab a = lab b \<longleftrightarrow> a = b"
  by (simp add: names_okD(1) inj_eq)


lemma find_Some_set: "find P xs = Some x \<Longrightarrow> x \<in> set xs \<and> P x"
  by (auto simp: find_Some_iff)


section \<open>Canonical order\<close>

lemma prefix_between:
  fixes a b c :: labels
  assumes "prefix p a" "a \<le> b" "b \<le> c" "prefix p c"
  shows "prefix p b"
  using assms
proof (induction p arbitrary: a b c)
  case (Cons x p)
  from Cons.prems(1,4) obtain a' c' where ac: "a = x # a'" "c = x # c'" "prefix p a'" "prefix p c'"
    unfolding prefix_def by auto
  with Cons.prems(2,3) obtain b' where "b = x # b'" "a' \<le> b'" "b' \<le> c'" by (cases b) auto
  with ac Cons.IH [of a' b' c'] show ?case by simp
qed simp

lemma wildcard_first:
  assumes "suffix p s" "p \<noteq> s" "\<forall>l \<in> set s. star < l"
  shows "rev (star # p) < rev s"
proof -
  from assms(1,2) obtain l pre where "s = pre @ l # p"
    by (metis append_butlast_last_id append.assoc append_Cons append_Nil suffix_def)
  with assms(3) show ?thesis by (simp add: list_less_def lexord_append_leftI)
qed

lemma suffix_same_length: "suffix a s \<Longrightarrow> suffix b s \<Longrightarrow> length a = length b \<Longrightarrow> a = b"
  by (metis suffix_length_suffix suffix_order.antisym order_refl)

lemma longer_suffix:
  assumes "suffix a s" "suffix (l # b) s" "length b < length a"
  shows "suffix (l # b) a"
  using assms by (metis Suc_leI length_Cons suffix_length_suffix)


section \<open>Zones\<close>

text \<open>A zone: its apex, the names that own records with their types, and the unsigned delegations
  that opt-out spans may skip.\<close>

record 'n zone =
  zo_apex :: 'n
  zo_names :: "'n set"
  zo_types :: "'n \<Rightarrow> nat set"
  zo_unsigned :: "'n set"

definition zone_ok :: "('n \<Rightarrow> labels) \<Rightarrow> 'n zone \<Rightarrow> bool" where
  "zone_ok lab Z \<longleftrightarrow> zo_apex Z \<in> zo_names Z \<and> (\<forall>z \<in> zo_names Z. suffix (lab (zo_apex Z)) (lab z))"

text \<open>A name exists when it or a name below it owns records.\<close>

definition exists_in :: "('n \<Rightarrow> labels) \<Rightarrow> 'n zone \<Rightarrow> labels \<Rightarrow> bool" where
  "exists_in lab Z s \<longleftrightarrow> suffix (lab (zo_apex Z)) s \<and> (\<exists>z \<in> zo_names Z. suffix s (lab z))"

definition is_encloser :: "('n \<Rightarrow> labels) \<Rightarrow> 'n zone \<Rightarrow> 'n \<Rightarrow> labels \<Rightarrow> bool" where
  "is_encloser lab Z q s \<longleftrightarrow> suffix s (lab q) \<and> s \<noteq> lab q \<and> exists_in lab Z s"

definition answers_from :: "('n \<Rightarrow> labels) \<Rightarrow> 'n zone \<Rightarrow> 'n \<Rightarrow> 'n \<Rightarrow> bool" where
  "answers_from lab Z q s \<longleftrightarrow>
     s \<in> zo_names Z
     \<and> (s = q \<or> \<not> exists_in lab Z (lab q)
               \<and> (\<exists>e. lab s = star # e \<and> is_encloser lab Z q e
                      \<and> (\<forall>e'. is_encloser lab Z q e' \<longrightarrow> length e' \<le> length e)))"

definition nsec_chain :: "'n sec_lib \<Rightarrow> 'n zone \<Rightarrow> 'n nsec_record \<Rightarrow> bool" where
  "nsec_chain V Z r \<longleftrightarrow>
     (let owner = nr_owner r; next = ns_next (nr_rdata r)
      in owner \<in> zo_names Z \<and> next \<in> zo_names Z \<and> set (ns_types (nr_rdata r)) = zo_types Z owner
         \<and> (if sl_less V owner next then \<forall>z \<in> zo_names Z. \<not> (sl_less V owner z \<and> sl_less V z next)
            else \<forall>z \<in> zo_names Z. \<not> sl_less V owner z \<and> \<not> sl_less V z next))"

definition in_span :: "nat list \<Rightarrow> nat list \<Rightarrow> nat list \<Rightarrow> bool" where
  "in_span h next x \<longleftrightarrow> (if h < next then h < x \<and> x < next else h < x \<or> x < next)"

definition nsec3_chain :: "'n sec_lib \<Rightarrow> ('n \<Rightarrow> labels) \<Rightarrow> 'n zone \<Rightarrow> 'n nsec3_record \<Rightarrow> bool" where
  "nsec3_chain V lab Z r \<longleftrightarrow>
     (let d = n3_rdata r; hash = (\<lambda>n. sl_hash V (n3_hash_algorithm d) (n3_salt d) n (n3_iterations d))
      in \<exists>n h. exists_in lab Z (lab n) \<and> hash n = Some h \<and> decode_owner_hash V (n3_owner r) = Some h
               \<and> set (n3_types d) = zo_types Z n
               \<and> (\<forall>m x. exists_in lab Z (lab m) \<and> hash m = Some x \<and> in_span h (n3_next d) x
                        \<longrightarrow> n3_opt_out d \<and> m \<in> zo_unsigned Z))"

definition collision_free :: "'n sec_lib \<Rightarrow> bool" where
  "collision_free V \<longleftrightarrow>
     (\<forall>alg salt it a b h. sl_hash V alg salt a it = Some h \<and> sl_hash V alg salt b it = Some h \<longrightarrow> a = b)"

lemma apex_exists:
  assumes "zone_ok lab Z" "z \<in> zo_names Z"
  shows "exists_in lab Z (lab z)"
  using assms by (auto simp: zone_ok_def exists_in_def)


section \<open>NSEC\<close>

text \<open>A covering record separates the names of the zone before the queried name from those after it.\<close>

lemma covers_gap:
  assumes "names_ok D V lab" "nsec_chain V Z r" "nsec_covers V r q" "w \<in> zo_names Z"
  shows "w \<noteq> q" and "rev (lab w) < rev (lab q) \<Longrightarrow> rev (lab w) \<le> rev (lab (nr_owner r)) \<and> rev (lab (nr_owner r)) < rev (lab q)"
proof -
  note less = names_okD(2) [OF assms(1)]
  from assms(2-4) show "w \<noteq> q"
    by (auto simp: nsec_chain_def nsec_covers_def less Let_def not_less split: if_splits)
  assume "rev (lab w) < rev (lab q)"
  with assms(2-4) show "rev (lab w) \<le> rev (lab (nr_owner r)) \<and> rev (lab (nr_owner r)) < rev (lab q)"
    by (auto simp: nsec_chain_def nsec_covers_def less Let_def not_less split: if_splits dest: order.strict_trans)
qed

lemma encloser_walk_total:
  assumes N: "names_ok D V lab"
  shows "\<exists>found. encloser_walk D V q c = Some found \<and>
     (case found of
        None \<Rightarrow> \<forall>s. suffix s (lab c) \<and> s \<noteq> lab q \<and> suffix s (lab q) \<longrightarrow> s = []
      | Some a \<Rightarrow> suffix (lab a) (lab c) \<and> lab a \<noteq> lab q \<and> suffix (lab a) (lab q)
          \<and> (\<forall>s. suffix s (lab c) \<and> s \<noteq> lab q \<and> suffix s (lab q) \<longrightarrow> length s \<le> length (lab a)))"
proof (induction "lab c" arbitrary: c)
  case Nil
  then show ?case by (subst encloser_walk.simps) (simp add: names_okD(6) [OF N])
next
  case (Cons l ls)
  note unfold = encloser_walk.simps [of D V q c] and [simp] = names_okD(3,6) [OF N]
  show ?case
  proof (cases "c \<noteq> q \<and> suffix (lab c) (lab q)")
    case True
    then have "encloser_walk D V q c = Some (Some c)" by (subst unfold) (use Cons.hyps(2) in auto)
    with True show ?thesis by (auto simp: lab_eq [OF N] dest: suffix_length_le)
  next
    case False
    from Cons.hyps(2) have lc: "lab c = l # ls" by simp
    then have lb: "lab (sl_base_name V c) = ls" by (simp add: names_okD(5) [OF N])
    have eq: "encloser_walk D V q c = encloser_walk D V q (sl_base_name V c)"
      using False by (subst unfold) (use lc in auto)
    have sub: "suffix s (lab c) \<and> s \<noteq> lab q \<and> suffix s (lab q) \<longleftrightarrow>
        suffix s (lab (sl_base_name V c)) \<and> s \<noteq> lab q \<and> suffix s (lab q)" for s
      using False unfolding lb lc suffix_Cons by (metis lc)
    have up: "suffix x (lab (sl_base_name V c)) \<Longrightarrow> suffix x (lab c)" for x
      by (simp add: lb lc suffix_ConsI)
    from Cons.hyps(1) [OF lb [symmetric]] obtain found where f: "encloser_walk D V q (sl_base_name V c) = Some found"
      and p: "case found of
        None \<Rightarrow> \<forall>s. suffix s (lab (sl_base_name V c)) \<and> s \<noteq> lab q \<and> suffix s (lab q) \<longrightarrow> s = []
      | Some a \<Rightarrow> suffix (lab a) (lab (sl_base_name V c)) \<and> lab a \<noteq> lab q \<and> suffix (lab a) (lab q)
          \<and> (\<forall>s. suffix s (lab (sl_base_name V c)) \<and> s \<noteq> lab q \<and> suffix s (lab q) \<longrightarrow> length s \<le> length (lab a))"
      by auto
    from p show ?thesis unfolding eq f sub by (auto split: option.splits intro: up)
  qed
qed

lemma encloser_returns: "names_ok D V lab \<Longrightarrow> \<exists>c. closest_encloser D V q zone rs = Some c"
proof (induction rs arbitrary: zone)
  case (Cons r rs)
  let ?start = "if sl_is_wildcard V (nr_owner r) then sl_base_name V (nr_owner r) else nr_owner r"
  obtain found where "encloser_walk D V q ?start = Some found" using encloser_walk_total [OF Cons.prems] by blast
  with Cons.IH [OF Cons.prems] show ?case by simp
qed simp

lemma evaluate_nsec_returns:
  assumes "names_ok D V lab"
  shows "\<exists>d. evaluate_nsec_denial D V records q t nx zone = Some d"
proof -
  obtain c where "closest_encloser D V q zone (filter (\<lambda>r. dl_zone_of D zone (nr_owner r)) records) = Some c"
    using encloser_returns [OF assms] by blast
  then show ?thesis by (simp add: evaluate_nsec_denial_def Let_def)
qed

text \<open>A name is plain when each label sorts after the wildcard label.\<close>

definition plain_name :: "('n \<Rightarrow> labels) \<Rightarrow> 'n \<Rightarrow> bool" where
  "plain_name lab q \<longleftrightarrow> (\<forall>l \<in> set (lab q). star < l)"

lemma plain_suffix: "plain_name lab q \<Longrightarrow> suffix s (lab q) \<Longrightarrow> star \<notin> set s"
  by (auto simp: plain_name_def dest: set_mono_suffix)

lemma num_labels_plain:
  assumes "names_ok D V lab" "plain_name lab q" "suffix (lab a) (lab q)"
  shows "sl_num_labels V a = length (lab a)"
  using plain_suffix [OF assms(2,3)] by (cases "lab a") (auto simp: names_okD(7) [OF assms(1)])

lemma record_walk:
  assumes N: "names_ok D V lab" and p: "plain_name lab q"
  obtains found where
    "encloser_walk D V q (if sl_is_wildcard V o' then sl_base_name V o' else o') = Some found"
    "case found of
        None \<Rightarrow> \<forall>s. suffix s (lab o') \<and> s \<noteq> lab q \<and> suffix s (lab q) \<longrightarrow> s = []
      | Some a \<Rightarrow> suffix (lab a) (lab o') \<and> lab a \<noteq> lab q \<and> suffix (lab a) (lab q)
          \<and> (\<forall>s. suffix s (lab o') \<and> s \<noteq> lab q \<and> suffix s (lab q) \<longrightarrow> length s \<le> length (lab a))"
proof -
  let ?start = "if sl_is_wildcard V o' then sl_base_name V o' else o'"
  have down: "suffix s (lab ?start)" if "suffix s (lab o')" "suffix s (lab q)" for s
  proof (cases "sl_is_wildcard V o'")
    case True
    then obtain ls where l: "lab o' = star # ls" by (auto simp: names_okD(4) [OF N])
    with that plain_suffix [OF p that(2)] have "suffix s ls" by (auto simp: suffix_Cons)
    with True l show ?thesis by (simp add: names_okD(5) [OF N])
  qed (use that in simp)
  have up: "suffix s (lab ?start) \<Longrightarrow> suffix s (lab o')" for s
    by (auto simp: names_okD(5) [OF N] split: if_splits dest: suffix_order.trans [OF _ suffix_tl])
  from encloser_walk_total [OF N, of q ?start] obtain found where f: "encloser_walk D V q ?start = Some found"
    and c: "case found of
        None \<Rightarrow> \<forall>s. suffix s (lab ?start) \<and> s \<noteq> lab q \<and> suffix s (lab q) \<longrightarrow> s = []
      | Some a \<Rightarrow> suffix (lab a) (lab ?start) \<and> lab a \<noteq> lab q \<and> suffix (lab a) (lab q)
          \<and> (\<forall>s. suffix s (lab ?start) \<and> s \<noteq> lab q \<and> suffix s (lab q) \<longrightarrow> length s \<le> length (lab a))" by blast
  show thesis by (rule that [OF f]) (use c down up in \<open>auto split: option.splits\<close>)
qed

lemma closest_spec:
  assumes N: "names_ok D V lab" and p: "plain_name lab q"
    and "closest_encloser D V q zone rs = Some c" "suffix (lab zone) (lab q)"
  shows "suffix (lab c) (lab q) \<and> length (lab zone) \<le> length (lab c)
    \<and> (\<forall>r \<in> set rs. \<forall>s. suffix s (lab (nr_owner r)) \<and> s \<noteq> lab q \<and> suffix s (lab q) \<longrightarrow> length s \<le> length (lab c))
    \<and> (c = zone \<or> (\<exists>r \<in> set rs. suffix (lab c) (lab (nr_owner r)) \<and> lab c \<noteq> lab q))"
  using assms(3,4)
proof (induction rs arbitrary: zone)
  case (Cons r rs)
  obtain found where
    f: "encloser_walk D V q (if sl_is_wildcard V (nr_owner r) then sl_base_name V (nr_owner r) else nr_owner r) = Some found"
    and c: "case found of
        None \<Rightarrow> \<forall>s. suffix s (lab (nr_owner r)) \<and> s \<noteq> lab q \<and> suffix s (lab q) \<longrightarrow> s = []
      | Some a \<Rightarrow> suffix (lab a) (lab (nr_owner r)) \<and> lab a \<noteq> lab q \<and> suffix (lab a) (lab q)
          \<and> (\<forall>s. suffix s (lab (nr_owner r)) \<and> s \<noteq> lab q \<and> suffix s (lab q) \<longrightarrow> length s \<le> length (lab a))"
    by (rule record_walk [OF N p, of "nr_owner r"])
  define zone' where "zone' = (case found of
      Some cand \<Rightarrow> if sl_num_labels V zone < sl_num_labels V cand then cand else zone | None \<Rightarrow> zone)"
  have step: "closest_encloser D V q zone' rs = Some c" using Cons.prems(1) f by (simp add: zone'_def)
  note num = num_labels_plain [OF N p]
  have z: "suffix (lab zone') (lab q) \<and> length (lab zone) \<le> length (lab zone')
    \<and> (\<forall>s. suffix s (lab (nr_owner r)) \<and> s \<noteq> lab q \<and> suffix s (lab q) \<longrightarrow> length s \<le> length (lab zone'))
    \<and> (zone' = zone \<or> suffix (lab zone') (lab (nr_owner r)) \<and> lab zone' \<noteq> lab q)"
  proof (cases found)
    case None
    with c Cons.prems(2) show ?thesis by (auto simp: zone'_def)
  next
    case (Some a)
    with c have a: "suffix (lab a) (lab q)" by simp
    show ?thesis
    proof (cases "length (lab zone) < length (lab a)")
      case True
      with Some a num [OF a] num [OF Cons.prems(2)] have "zone' = a" by (simp add: zone'_def)
      with True Some c show ?thesis by simp
    next
      case False
      with Some a num [OF a] num [OF Cons.prems(2)] have "zone' = zone" by (simp add: zone'_def)
      with False Some c Cons.prems(2) show ?thesis by (auto intro: order.trans)
    qed
  qed
  from Cons.IH [OF step] z have ih: "suffix (lab c) (lab q)" "length (lab zone') \<le> length (lab c)"
    "\<forall>r \<in> set rs. \<forall>s. suffix s (lab (nr_owner r)) \<and> s \<noteq> lab q \<and> suffix s (lab q) \<longrightarrow> length s \<le> length (lab c)"
    "c = zone' \<or> (\<exists>r \<in> set rs. suffix (lab c) (lab (nr_owner r)) \<and> lab c \<noteq> lab q)" by simp_all
  have "length s \<le> length (lab c)" if "suffix s (lab (nr_owner r))" "s \<noteq> lab q" "suffix s (lab q)" for s
    using z that ih(2) by (meson order.trans)
  then have "\<forall>r' \<in> set (r # rs). \<forall>s. suffix s (lab (nr_owner r')) \<and> s \<noteq> lab q \<and> suffix s (lab q) \<longrightarrow> length s \<le> length (lab c)"
    using ih(3) unfolding list.set ball_simps by blast
  moreover have "c = zone \<or> (\<exists>r' \<in> set (r # rs). suffix (lab c) (lab (nr_owner r')) \<and> lab c \<noteq> lab q)"
    using ih(4) z unfolding list.set bex_simps by blast
  ultimately show ?case using ih(1,2) z by (meson order.trans)
qed simp

text \<open>If a wildcard exists at the closest encloser of a covered name, the records show that encloser.\<close>

lemma closest_is_encloser:
  assumes N: "names_ok D V lab" and p: "plain_name lab q" and Z: "zone_ok lab Z"
    and chain: "\<forall>r \<in> set rs. nsec_chain V Z r" and c: "closest_encloser D V q (zo_apex Z) rs = Some c"
    and z: "suffix (lab (zo_apex Z)) (lab q)" and q: "q \<notin> zo_names Z" and r: "r \<in> set rs" "nsec_covers V r q"
    and w: "w \<in> zo_names Z" "lab w = star # e" and e: "is_encloser lab Z q e"
    and m: "\<forall>e'. is_encloser lab Z q e' \<longrightarrow> length e' \<le> length e"
  shows "lab c = e"
proof -
  from closest_spec [OF N p c z] have spec: "suffix (lab c) (lab q)" "length (lab (zo_apex Z)) \<le> length (lab c)"
    and all: "\<forall>r \<in> set rs. \<forall>s. suffix s (lab (nr_owner r)) \<and> s \<noteq> lab q \<and> suffix s (lab q) \<longrightarrow> length s \<le> length (lab c)"
    and which: "c = zo_apex Z \<or> (\<exists>r \<in> set rs. suffix (lab c) (lab (nr_owner r)) \<and> lab c \<noteq> lab q)" by simp_all
  from e have eq: "suffix e (lab q)" "e \<noteq> lab q" by (simp_all add: is_encloser_def)
  have lt: "rev (lab w) < rev (lab q)" unfolding w(2) by (rule wildcard_first [OF eq]) (use p in \<open>simp add: plain_name_def\<close>)
  from chain r(1) have "nsec_chain V Z r" by blast
  from covers_gap(2) [OF N this r(2) w(1) lt] have b: "rev (lab w) \<le> rev (lab (nr_owner r))" "rev (lab (nr_owner r)) \<le> rev (lab q)"
    by (simp_all add: less_imp_le)
  have "prefix (rev e) (rev (lab w))" by (simp add: w(2))
  from prefix_between [OF this b] eq(1) have "suffix e (lab (nr_owner r))" by (simp add: suffix_to_prefix)
  with all r(1) eq have le: "length e \<le> length (lab c)" by blast
  have "\<exists>z \<in> zo_names Z. suffix (lab c) (lab z)" "lab c \<noteq> lab q"
    using which chain q Z unfolding nsec_chain_def Let_def zone_ok_def lab_eq [OF N] by blast+
  moreover have "suffix (lab (zo_apex Z)) (lab c)" using suffix_length_suffix [OF z spec(1) spec(2)] .
  ultimately have "is_encloser lab Z q (lab c)" using spec(1) by (simp add: is_encloser_def exists_in_def)
  with m le have "length (lab c) = length e" by (simp add: order.antisym)
  with suffix_same_length [OF spec(1) eq(1)] show ?thesis by simp
qed

lemma answers_from_wildcard:
  assumes "answers_from lab Z q s" "q \<notin> zo_names Z"
  obtains e where "s \<in> zo_names Z" "lab s = star # e" "is_encloser lab Z q e" "\<forall>e'. is_encloser lab Z q e' \<longrightarrow> length e' \<le> length e"
  using assms by (auto simp: answers_from_def)

lemma nsec_denies: "nsec_denies_type r t \<Longrightarrow> t \<notin> set (ns_types (nr_rdata r)) \<and> type_cname \<notin> set (ns_types (nr_rdata r))"
  by (auto simp: nsec_denies_type_def Let_def split: if_splits)

lemma nsec_sound:
  assumes N: "names_ok D V lab" and p: "plain_name lab q" and Z: "zone_ok lab Z"
    and chain: "\<forall>r \<in> set records. nsec_chain V Z r"
    and secure: "evaluate_nsec_denial D V records q t nx (zo_apex Z) = Some NsecSecure"
    and s: "answers_from lab Z q s"
  shows "\<not> nx \<and> t \<notin> zo_types Z s \<and> type_cname \<notin> zo_types Z s"
proof -
  define rs where "rs = filter (\<lambda>r. dl_zone_of D (zo_apex Z) (nr_owner r)) records"
  from chain have chain: "\<forall>r \<in> set rs. nsec_chain V Z r" by (simp add: rs_def)
  from secure obtain c where z: "suffix (lab (zo_apex Z)) (lab q)" and c: "closest_encloser D V q (zo_apex Z) rs = Some c"
    and proof': "(if nx then nsec_nxdomain_proof D V rs q c else nsec_nodata_proof V rs q t c) = NsecSecure"
    by (auto simp: evaluate_nsec_denial_def Let_def names_okD(3) [OF N] rs_def split: if_splits bind_splits)
  have types: "set (ns_types (nr_rdata r)) = zo_types Z (nr_owner r)" "nr_owner r \<in> zo_names Z" if "r \<in> set rs" for r
    using chain that by (auto simp: nsec_chain_def Let_def)
  show ?thesis
  proof (cases "\<not> nx \<and> (\<exists>r \<in> set rs. nr_owner r = q \<and> nsec_denies_type r t)")
    case True
    then obtain r where r: "r \<in> set rs" "nr_owner r = q" "nsec_denies_type r t" by blast
    then have "q \<in> zo_names Z" using types(2) by blast
    with s have "s = q" using apex_exists [OF Z] by (auto simp: answers_from_def)
    with True r types(1) [OF r(1)] nsec_denies [OF r(3)] show ?thesis by simp
  next
    case False
    with proof' obtain r where r: "r \<in> set rs" "nsec_covers V r q"
      by (auto simp: nsec_nxdomain_proof_def nsec_nodata_proof_def list_ex_iff split: if_splits)
    with chain have q: "q \<notin> zo_names Z" using covers_gap(1) [OF N] by blast
    from answers_from_wildcard [OF s q] obtain e where e: "s \<in> zo_names Z" "lab s = star # e" "is_encloser lab Z q e"
      "\<forall>e'. is_encloser lab Z q e' \<longrightarrow> length e' \<le> length e" .
    from closest_is_encloser [OF N p Z chain c z q r e] have lc: "lab c = e" .
    show ?thesis
    proof (cases nx)
      case True
      with proof' obtain w r' where w: "wildcard_of D V c = Some w" "r' \<in> set rs" "nsec_covers V r' w"
        by (auto simp: nsec_nxdomain_proof_def list_ex_iff split: if_splits option.splits)
      from names_okD(8) [OF N w(1)] lc e(2) have "lab w = lab s" by simp
      then have "w = s" by (simp add: lab_eq [OF N])
      with w chain e(1) covers_gap(1) [OF N] show ?thesis by blast
    next
      case nodata: False
      with proof' False obtain r' where w: "r' \<in> set rs" "sl_is_wildcard V (nr_owner r')" "nsec_denies_type r' t"
          "sl_base_name V (nr_owner r') = c"
        by (auto simp: nsec_nodata_proof_def list_ex_iff split: if_splits)
      from w(2) obtain ls where "lab (nr_owner r') = star # ls" by (auto simp: names_okD(4) [OF N])
      with w(4) names_okD(5) [OF N, of "nr_owner r'"] lc e(2) have "lab (nr_owner r') = lab s" by simp
      then have "nr_owner r' = s" by (simp add: lab_eq [OF N])
      with nodata nsec_denies [OF w(3)] types(1) [OF w(1)] show ?thesis by simp
    qed
  qed
qed


section \<open>NSEC3\<close>

lemma nsec3_walk_total:
  assumes N: "names_ok D V lab"
  shows "\<exists>found. nsec3_walk V rs c nc = Some found \<and>
     (case found of
        None \<Rightarrow> True
      | Some (a, nc') \<Rightarrow> suffix (lab a) (lab c) \<and> list_ex (\<lambda>r. nsec3_matches V r a) rs
          \<and> (if a = c then nc' = nc else \<exists>n l. nc' = Some n \<and> lab n = l # lab a \<and> suffix (lab n) (lab c)))"
proof (induction "lab c" arbitrary: c nc)
  case Nil
  have "nsec3_walk V rs c nc = Some (if list_ex (\<lambda>r. nsec3_matches V r c) rs then Some (c, nc) else None)"
    by (subst nsec3_walk.simps) (simp add: names_okD(6) [OF N] Nil [symmetric])
  then show ?case by simp
next
  case (Cons l ls)
  from Cons.hyps(2) have lc: "lab c = l # ls" by simp
  then have lb: "lab (sl_base_name V c) = ls" by (simp add: names_okD(5) [OF N])
  show ?case
  proof (cases "list_ex (\<lambda>r. nsec3_matches V r c) rs")
    case True
    then have "nsec3_walk V rs c nc = Some (Some (c, nc))" by (subst nsec3_walk.simps) simp
    with True show ?thesis by simp
  next
    case False
    have eq: "nsec3_walk V rs c nc = nsec3_walk V rs (sl_base_name V c) (Some c)"
      by (subst nsec3_walk.simps) (simp add: False names_okD(6) [OF N] lc)
    from Cons.hyps(1) [OF lb [symmetric], of "Some c"] obtain found where
      f: "nsec3_walk V rs (sl_base_name V c) (Some c) = Some found"
      and p: "case found of
        None \<Rightarrow> True
      | Some (a, nc') \<Rightarrow> suffix (lab a) (lab (sl_base_name V c)) \<and> list_ex (\<lambda>r. nsec3_matches V r a) rs
          \<and> (if a = sl_base_name V c then nc' = Some c
             else \<exists>n l. nc' = Some n \<and> lab n = l # lab a \<and> suffix (lab n) (lab (sl_base_name V c)))" by blast
    have nb: "sl_base_name V c \<noteq> c" by (metis lb lc not_Cons_self2)
    have ne: "a \<noteq> c" if "suffix (lab a) ls" for a using suffix_length_le [OF that] lc by auto
    from p nb show ?thesis unfolding eq f lb
      by (auto simp: lc lb split: option.splits if_splits intro: suffix_ConsI dest: ne)
  qed
qed

lemma evaluate_nsec3_returns:
  assumes "names_ok D V lab"
  shows "\<exists>d. evaluate_nsec3_denial D V records q t nx = Some d"
proof -
  obtain found where "nsec3_walk V (filter (\<lambda>r. dl_zone_of D (sl_base_name V (n3_owner r)) q
       \<and> n3_iterations (n3_rdata r) \<le> max_iterations) records) q None = Some found"
    using nsec3_walk_total [OF assms] by blast
  then show ?thesis by (simp add: evaluate_nsec3_denial_def Let_def)
qed

lemma nsec3_matches_listed:
  assumes N: "names_ok D V lab" and "collision_free V" "nsec3_chain V lab Z r" "nsec3_matches V r n"
  shows "exists_in lab Z (lab n)" "set (n3_types (n3_rdata r)) = zo_types Z n"
proof -
  let ?d = "n3_rdata r"
  from assms(3) obtain m h where m: "exists_in lab Z (lab m)" "set (n3_types ?d) = zo_types Z m"
      "decode_owner_hash V (n3_owner r) = Some h"
      "sl_hash V (n3_hash_algorithm ?d) (n3_salt ?d) m (n3_iterations ?d) = Some h"
    by (auto simp: nsec3_chain_def Let_def)
  moreover from assms(4) m(3) have "sl_hash V (n3_hash_algorithm ?d) (n3_salt ?d) n (n3_iterations ?d) = Some h"
    by (auto simp: nsec3_matches_def hash_name_def split: option.splits if_splits)
  ultimately have "m = n" using assms(2) unfolding collision_free_def by blast
  with m show "exists_in lab Z (lab n)" "set (n3_types ?d) = zo_types Z n" by simp_all
qed

lemma nsec3_covers_unlisted:
  assumes "nsec3_chain V lab Z r" "nsec3_covers V r n" "exists_in lab Z (lab n)"
  shows "n3_opt_out (n3_rdata r) \<and> n \<in> zo_unsigned Z"
proof -
  let ?d = "n3_rdata r"
  from assms(1) obtain h where h: "decode_owner_hash V (n3_owner r) = Some h"
    and gap: "\<forall>m x. exists_in lab Z (lab m) \<and> sl_hash V (n3_hash_algorithm ?d) (n3_salt ?d) m (n3_iterations ?d) = Some x
                    \<and> in_span h (n3_next ?d) x \<longrightarrow> n3_opt_out ?d \<and> m \<in> zo_unsigned Z"
    by (auto simp: nsec3_chain_def Let_def)
  from assms(2) h obtain x where "sl_hash V (n3_hash_algorithm ?d) (n3_salt ?d) n (n3_iterations ?d) = Some x"
      "in_span h (n3_next ?d) x"
    by (auto simp: nsec3_covers_def hash_name_def in_span_def Let_def split: option.splits if_splits)
  with gap assms(3) show ?thesis by blast
qed

lemma nsec3_denies: "nsec3_denies_type r t \<Longrightarrow> t \<notin> set (n3_types (n3_rdata r)) \<and> type_cname \<notin> set (n3_types (n3_rdata r))"
  by (auto simp: nsec3_denies_type_def Let_def split: if_splits)

text \<open>When the next closer name does not exist, the walk has found the closest encloser.\<close>

lemma next_closer_absent:
  assumes "zone_ok lab Z" "exists_in lab Z (lab c)" "lab n = l # lab c" "suffix (lab n) (lab q)" "\<not> exists_in lab Z (lab n)"
  shows "\<not> exists_in lab Z (lab q)" and "is_encloser lab Z q e \<Longrightarrow> length e \<le> length (lab c)"
proof -
  have below: "\<not> exists_in lab Z s" if "suffix (lab n) s" for s
    using assms(2,3,5) that unfolding exists_in_def by (metis suffix_ConsI suffix_order.trans)
  from below [OF assms(4)] show "\<not> exists_in lab Z (lab q)" .
  assume e: "is_encloser lab Z q e"
  show "length e \<le> length (lab c)"
  proof (rule ccontr)
    assume "\<not> length e \<le> length (lab c)"
    with e assms(3,4) longer_suffix [of e "lab q" l "lab c"] have "suffix (lab n) e" by (simp add: is_encloser_def)
    with below e show False by (simp add: is_encloser_def)
  qed
qed

definition denied :: "('n \<Rightarrow> labels) \<Rightarrow> 'n zone \<Rightarrow> 'n \<Rightarrow> nat \<Rightarrow> bool \<Rightarrow> bool" where
  "denied lab Z q t nx \<longleftrightarrow>
     (\<forall>s. answers_from lab Z q s \<longrightarrow>
        (if nx then s \<in> zo_unsigned Z
         else (\<exists>u \<in> zo_unsigned Z. suffix (lab u) (lab q)) \<or> t \<notin> zo_types Z s \<and> type_cname \<notin> zo_types Z s))"

lemma nsec3_sound:
  assumes N: "names_ok D V lab" and cf: "collision_free V" and Z: "zone_ok lab Z"
    and chain: "\<forall>r \<in> set records. nsec3_chain V lab Z r"
    and secure: "evaluate_nsec3_denial D V records q t nx = Some N3Secure"
  shows "denied lab Z q t nx"
  unfolding denied_def
proof (intro allI impI)
  fix s assume s: "answers_from lab Z q s"
  define rs where "rs = filter (\<lambda>r. dl_zone_of D (sl_base_name V (n3_owner r)) q \<and> n3_iterations (n3_rdata r) \<le> max_iterations) records"
  from chain have chain: "nsec3_chain V lab Z r" if "r \<in> set rs" for r using that by (simp add: rs_def)
  from secure obtain c nc where walk: "nsec3_walk V rs q None = Some (Some (c, nc))"
    and proof': "(if \<not> nx then nsec3_nodata_proof D V rs q t c nc else nsec3_nxdomain_proof D V rs q c nc) = N3Secure"
    by (auto simp: evaluate_nsec3_denial_def Let_def rs_def split: if_splits bind_splits option.splits)
  from nsec3_walk_total [OF N, of rs q None] walk have c: "suffix (lab c) (lab q)" "list_ex (\<lambda>r. nsec3_matches V r c) rs"
    and nc: "c \<noteq> q \<Longrightarrow> \<exists>n l. nc = Some n \<and> lab n = l # lab c \<and> suffix (lab n) (lab q)" by auto
  have listed: "exists_in lab Z (lab n)" "set (n3_types (n3_rdata r)) = zo_types Z n" if "r \<in> set rs" "nsec3_matches V r n" for r n
    using nsec3_matches_listed [OF N cf chain [OF that(1)] that(2)] .
  from c(2) listed(1) have ex: "exists_in lab Z (lab c)" by (auto simp: list_ex_iff)
  let ?goal = "if nx then s \<in> zo_unsigned Z
     else (\<exists>u \<in> zo_unsigned Z. suffix (lab u) (lab q)) \<or> t \<notin> zo_types Z s \<and> type_cname \<notin> zo_types Z s"
  show ?goal
  proof (cases "c = q")
    case True
    with proof' obtain r where r: "\<not> nx" "r \<in> set rs" "nsec3_matches V r q" "nsec3_denies_type r t"
      by (auto simp: nsec3_nodata_proof_def nsec3_nxdomain_proof_def list_ex_iff split: if_splits)
    from s True ex have "s = q" by (auto simp: answers_from_def)
    with r nsec3_denies [OF r(4)] listed(2) [OF r(2,3)] show ?goal by simp
  next
    case False
    from nc [OF False] obtain n l where n: "nc = Some n" "lab n = l # lab c" "suffix (lab n) (lab q)" by blast
    from proof' False n(1) obtain r where r: "r \<in> set rs" "nsec3_covers V r n" "nx \<Longrightarrow> \<not> n3_opt_out (n3_rdata r)"
      by (auto simp: nsec3_nodata_proof_def nsec3_nxdomain_proof_def split: if_splits option.splits dest!: find_Some_set)
    show ?goal
    proof (cases "exists_in lab Z (lab n)")
      case True
      from nsec3_covers_unlisted [OF chain [OF r(1)] r(2) True] r(3) n(3) show ?goal by auto
    next
      case absent: False
      note closer = next_closer_absent [OF Z ex n(2,3) absent]
      from s closer(1) apex_exists [OF Z] obtain e where e: "s \<in> zo_names Z" "lab s = star # e" "is_encloser lab Z q e"
        "\<forall>e'. is_encloser lab Z q e' \<longrightarrow> length e' \<le> length e"
        unfolding answers_from_def by blast
      have "is_encloser lab Z q (lab c)" using c(1) ex False by (simp add: is_encloser_def lab_eq [OF N])
      with e(4) closer(2) [OF e(3)] have "length (lab c) = length e" by (simp add: order.antisym)
      with suffix_same_length [OF c(1), of e] e(3) have "lab c = e" by (simp add: is_encloser_def)
      with e(2) have "lab s = star # lab c" by simp
      then have ws: "w = s" if "wildcard_of D V c = Some w" for w
        using names_okD(8) [OF N that] by (simp flip: lab_eq [OF N])
      show ?goal
      proof (cases nx)
        case True
        with proof' False n(1) obtain w r' where "wildcard_of D V c = Some w" "r' \<in> set rs" "nsec3_covers V r' w"
          by (auto simp: nsec3_nxdomain_proof_def list_ex_iff split: if_splits option.splits)
        with ws nsec3_covers_unlisted [OF chain, of r' s] apex_exists [OF Z e(1)] True show ?goal by simp
      next
        case nodata: False
        with proof' False n(1) obtain w r' where w: "wildcard_of D V c = Some w" "r' \<in> set rs" "nsec3_matches V r' w"
            "nsec3_denies_type r' t"
          by (auto simp: nsec3_nodata_proof_def list_ex_iff split: if_splits option.splits)
        with ws nsec3_denies [OF w(4)] listed(2) [OF w(2,3)] nodata show ?goal by simp
      qed
    qed
  qed
qed


section \<open>Authenticated denial\<close>

text \<open>The records a trusted signature covers were generated by the zone of the signer.\<close>

definition signed_by_zones ::
  "'n sec_lib \<Rightarrow> ('n \<Rightarrow> labels) \<Rightarrow> ('n \<Rightarrow> 'n zone) \<Rightarrow> 'n trusted_signature list \<Rightarrow> 'n rr list \<Rightarrow> bool" where
  "signed_by_zones V lab zones sigs records \<longleftrightarrow>
     (\<forall>t \<in> set sigs. \<forall>r \<in> set records. ts_owner t = rr_name r \<longrightarrow>
        (\<forall>n. ts_covered t = type_nsec \<and> nsec_of V r = Some n \<longrightarrow>
             nsec_chain V (zones (ts_signer t)) \<lparr>nr_owner = rr_name r, nr_rdata = n\<rparr>)
        \<and> (\<forall>n. ts_covered t = type_nsec3 \<and> nsec3_of V r = Some n \<longrightarrow>
             nsec3_chain V lab (zones (ts_signer t)) \<lparr>n3_owner = rr_name r, n3_rdata = n\<rparr>))"

definition all_groups :: "('n \<Rightarrow> 'a \<Rightarrow> bool) \<Rightarrow> ('n \<times> 'a list) list \<Rightarrow> bool" where
  "all_groups P gs \<longleftrightarrow> (\<forall>(s, xs) \<in> set gs. xs \<noteq> [] \<and> (\<forall>x \<in> set xs. P s x))"

lemma all_groups_add: "all_groups P gs \<Longrightarrow> P s x \<Longrightarrow> all_groups P (add_record s x gs)"
  by (fastforce simp: all_groups_def add_record_def split: option.split if_splits)

lemma all_groups_fold: "all_groups P gs \<Longrightarrow> \<forall>s \<in> set ss. P s x \<Longrightarrow> all_groups P (fold (\<lambda>s. add_record s x) ss gs)"
  by (induction ss arbitrary: gs) (simp_all add: all_groups_add)

lemma nsec_groups_all:
  assumes "all_groups P gs"
    and "\<forall>r \<in> set rs. \<forall>n. nsec_of V r = Some n \<longrightarrow>
           (\<forall>s \<in> set (signers_of D q type_nsec r sigs). P s \<lparr>nr_owner = rr_name r, nr_rdata = n\<rparr>)"
  shows "all_groups P (nsec_groups D V q sigs rs gs)"
  using assms by (induction rs arbitrary: gs) (auto split: option.split intro: all_groups_fold)

lemma nsec3_groups_all:
  assumes "all_groups P gs"
    and "\<forall>r \<in> set rs. \<forall>n. nsec3_of V r = Some n \<longrightarrow>
           (\<forall>s \<in> set (signers_of D q type_nsec3 r sigs). P s \<lparr>n3_owner = rr_name r, n3_rdata = n\<rparr>)"
  shows "all_groups P (nsec3_groups D V q sigs rs gs)"
  using assms by (induction rs arbitrary: gs) (auto split: option.split intro: all_groups_fold)

lemma nsec_loop_secure:
  "nsec_loop D V q t nx gs = Some True \<Longrightarrow>
     \<exists>(s, rs) \<in> set gs. evaluate_nsec_denial D V rs q t nx s = Some NsecSecure"
  by (induction gs) (auto split: bind_splits if_splits)

lemma nsec3_loop_secure:
  "nsec3_loop D V q t nx opt gs = Some DenialSecure \<Longrightarrow>
     \<exists>(s, rs) \<in> set gs. evaluate_nsec3_denial D V rs q t nx = Some N3Secure"
  by (induction gs arbitrary: opt) (auto split: bind_splits if_splits nsec3_denial.splits)

lemma nsec_loop_returns: "names_ok D V lab \<Longrightarrow> \<exists>b. nsec_loop D V q t nx gs = Some b"
proof (induction gs)
  case (Cons g gs)
  obtain d where "evaluate_nsec_denial D V (snd g) q t nx (fst g) = Some d" using evaluate_nsec_returns [OF Cons.prems] by blast
  with Cons show ?case by (cases g) auto
qed auto

lemma nsec3_loop_returns: "names_ok D V lab \<Longrightarrow> \<exists>b. nsec3_loop D V q t nx opt gs = Some b"
proof (induction gs arbitrary: opt)
  case (Cons g gs)
  obtain d where "evaluate_nsec3_denial D V (snd g) q t nx = Some d" using evaluate_nsec3_returns [OF Cons.prems] by blast
  with Cons.IH [OF Cons.prems] show ?case by (cases g; cases d) simp_all
qed simp

lemma evaluate_denial_returns:
  assumes "names_ok D V lab"
  shows "\<exists>d. evaluate_denial D V m q t sigs = Some d"
proof -
  let ?rs = "ms_authorities m @ ms_additionals m" and ?nx = "ms_rcode m = rcode_nxdomain"
  obtain b where "nsec_loop D V q t ?nx (nsec_groups D V q sigs ?rs []) = Some b"
    using nsec_loop_returns [OF assms] by blast
  moreover obtain d where "nsec3_loop D V q t ?nx False (nsec3_groups D V q sigs ?rs []) = Some d"
    using nsec3_loop_returns [OF assms] by blast
  ultimately show ?thesis by (simp add: evaluate_denial_def Let_def)
qed

text \<open>C16: an accepted denial is true.  If every denial record under a trusted signature was generated by the
  zone that signed it, and \<^verbatim>\<open>evaluate_denial\<close> finds a complete proof, then in one of the signing zones
  that contain the name nothing answers the query: for NXDOMAIN neither the name nor a wildcard owns
  records, for NODATA whatever would answer has neither the type nor an alias.  The exception is what NSEC3
  opt-out spans may hide, the unsigned delegations of the zone.  The evaluation always returns.  The
  labels of the name must sort after the wildcard label, as those of host names do.
\<close>

theorem authenticated_denial_sound:
  assumes N: "names_ok D V lab" and cf: "collision_free V" and p: "plain_name lab q"
    and zones: "\<forall>t \<in> set sigs. zone_ok lab (zones (ts_signer t)) \<and> zo_apex (zones (ts_signer t)) = ts_signer t"
    and signed: "signed_by_zones V lab zones sigs (ms_authorities m @ ms_additionals m)"
  shows "(\<exists>d. evaluate_denial D V m q qtype sigs = Some d) \<and>
    (evaluate_denial D V m q qtype sigs = Some DenialSecure \<longrightarrow>
      (\<exists>t \<in> set sigs. dl_zone_of D (ts_signer t) q
        \<and> denied lab (zones (ts_signer t)) q qtype (ms_rcode m = rcode_nxdomain)))"
proof (intro conjI impI)
  show "\<exists>d. evaluate_denial D V m q qtype sigs = Some d" using evaluate_denial_returns [OF N] .
  let ?rs = "ms_authorities m @ ms_additionals m" and ?nx = "ms_rcode m = rcode_nxdomain"
  let ?by = "\<lambda>s. s \<in> ts_signer ` set sigs \<and> dl_zone_of D s q"
  have g: "all_groups (\<lambda>s x. ?by s \<and> nsec_chain V (zones s) x) (nsec_groups D V q sigs ?rs [])"
    by (rule nsec_groups_all) (use signed in \<open>auto simp: all_groups_def signers_of_def signed_by_zones_def\<close>)
  have g3: "all_groups (\<lambda>s x. ?by s \<and> nsec3_chain V lab (zones s) x) (nsec3_groups D V q sigs ?rs [])"
    by (rule nsec3_groups_all) (use signed in \<open>auto simp: all_groups_def signers_of_def signed_by_zones_def\<close>)
  assume "evaluate_denial D V m q qtype sigs = Some DenialSecure"
  then consider "nsec_loop D V q qtype ?nx (nsec_groups D V q sigs ?rs []) = Some True"
    | "nsec3_loop D V q qtype ?nx False (nsec3_groups D V q sigs ?rs []) = Some DenialSecure"
    by (auto simp: evaluate_denial_def Let_def split: bind_splits if_splits)
  then obtain s where s: "?by s" "denied lab (zones s) q qtype ?nx"
  proof cases
    case 1
    then obtain s rs where i: "(s, rs) \<in> set (nsec_groups D V q sigs ?rs [])"
      and e: "evaluate_nsec_denial D V rs q qtype ?nx s = Some NsecSecure" by (auto dest!: nsec_loop_secure)
    with g have s: "?by s" "\<forall>x \<in> set rs. nsec_chain V (zones s) x" by (auto simp: all_groups_def neq_Nil_conv)
    with zones have z: "zone_ok lab (zones s)" "zo_apex (zones s) = s" by auto
    have "\<not> ?nx \<and> qtype \<notin> zo_types (zones s) a \<and> type_cname \<notin> zo_types (zones s) a" if "answers_from lab (zones s) q a" for a
      by (rule nsec_sound [OF N p z(1) s(2) _ that]) (use e z(2) in simp)
    then have "denied lab (zones s) q qtype ?nx" by (auto simp: denied_def)
    with s(1) show thesis by (rule that)
  next
    case 2
    then obtain s rs where i: "(s, rs) \<in> set (nsec3_groups D V q sigs ?rs [])"
      and e: "evaluate_nsec3_denial D V rs q qtype ?nx = Some N3Secure" by (auto dest!: nsec3_loop_secure)
    with g3 have s: "?by s" "\<forall>x \<in> set rs. nsec3_chain V lab (zones s) x" by (auto simp: all_groups_def neq_Nil_conv)
    with zones have "zone_ok lab (zones s)" by auto
    from nsec3_sound [OF N cf this s(2) e] s(1) show thesis by (rule that [rotated])
  qed
  then show "\<exists>t \<in> set sigs. dl_zone_of D (ts_signer t) q \<and> denied lab (zones (ts_signer t)) q qtype ?nx" by auto
qed


section \<open>A sample zone and the limits of the proofs\<close>

text \<open>Names as lists of labels.  The text form is a length-prefixed encoding, the NSEC3 hash is that
  encoding; the data of an NSEC record is its next name's text followed by nothing else.\<close>

definition text_of :: "labels \<Rightarrow> rstr" where
  "text_of n = concat (map (\<lambda>l. length l # l) n)"

fun labels_of :: "rstr \<Rightarrow> labels" where
  "labels_of [] = []"
| "labels_of (k # xs) = take k xs # labels_of (drop k xs)"

lemma labels_of_text: "labels_of (text_of n) = n"
  by (induction n) (simp_all add: text_of_def)

definition sample_dns :: "labels dns_lib" where
  "sample_dns =
     \<lparr>dl_ascii = text_of, dl_zone_of = suffix, dl_is_dnssec = (\<lambda>t. t \<in> {43, 46, 47, 48, 50}),
      dl_encoded_len = (\<lambda>_. Some 100), dl_puny = (\<lambda>_. None),
      dl_edns_new = \<lparr>ed_version = 0, ed_max_payload = 1232, ed_dnssec_ok = False, ed_subnet = None, ed_options = []\<rparr>,
      dl_payload = (\<lambda>n. max 512 n), dl_auth_ttl = (\<lambda>_ r _. rr_ttl r)\<rparr>"

definition sample_sec :: "(nat list \<Rightarrow> labels nsec) \<Rightarrow> labels sec_lib" where
  "sample_sec nsec =
     \<lparr>sl_less = (\<lambda>a b. rev a < rev b), sl_is_wildcard = (\<lambda>n. n \<noteq> [] \<and> hd n = star), sl_base_name = tl,
      sl_is_root = (\<lambda>n. n = []),
      sl_num_labels = (\<lambda>n. case n of [] \<Rightarrow> 0 | l # ls \<Rightarrow> if l = star then length ls else Suc (length ls)),
      sl_from_ascii = (\<lambda>s. Some (star # labels_of (drop 2 s))), sl_first_label = (\<lambda>n. case n of [] \<Rightarrow> None | l # _ \<Rightarrow> Some l),
      sl_nsec = nsec,
      sl_nsec3 = (\<lambda>_. \<lparr>n3_hash_algorithm = 1, n3_opt_out = False, n3_iterations = 0, n3_salt = [], n3_next = [], n3_types = []\<rparr>),
      sl_hash = (\<lambda>_ _ n _. Some (text_of n)), sl_base32 = Some,
      sl_sig = (\<lambda>_. \<lparr>si_algorithm = 13, si_key_tag = 1, si_signer = [], si_inception = 0, si_expiration = 0\<rparr>),
      sl_key = (\<lambda>k. \<lparr>dk_zone_key = True, dk_revoke = False, dk_algorithm = 13, dk_public = k, dk_tag = Some 1\<rparr>),
      sl_ds = (\<lambda>_. \<lparr>ds_algorithm = 13, ds_digest_type = 2\<rparr>), sl_ds_covers = (\<lambda>_ _ _. False),
      sl_verify = (\<lambda>_ _ _ _. False)\<rparr>"

lemma sample_names: "names_ok sample_dns (sample_sec nsec) id"
  by (auto simp: names_ok_def sample_dns_def sample_sec_def wildcard_of_def labels_of_text lit_simps neq_Nil_conv)

lemma sample_collision_free: "collision_free (sample_sec nsec)"
  unfolding collision_free_def by (simp add: sample_sec_def) (metis labels_of_text)

definition dotted :: "string \<Rightarrow> labels" where
  "dotted s = filter (\<lambda>l. l \<noteq> []) (split_on 46 (lit s))"

definition nsec_at :: "labels \<Rightarrow> labels \<Rightarrow> nat list \<Rightarrow> labels nsec_record" where
  "nsec_at owner next types = \<lparr>nr_owner = owner, nr_rdata = \<lparr>ns_next = next, ns_types = types\<rparr>\<rparr>"

definition sample_nsec :: "nat list \<Rightarrow> labels nsec" where
  "sample_nsec d =
     (if d = [1] then \<lparr>ns_next = dotted ''c.example.'', ns_types = [1, 46, 47]\<rparr>
      else \<lparr>ns_next = dotted ''a.example.'', ns_types = [1, 46, 47]\<rparr>)"

definition sample_zone :: "labels zone" where
  "sample_zone =
     \<lparr>zo_apex = dotted ''example.'', zo_names = {dotted ''example.'', dotted ''a.example.'', dotted ''c.example.''},
      zo_types = (\<lambda>_. {1, 46, 47}), zo_unsigned = {}\<rparr>"

definition sample_denial :: "labels message" where
  "sample_denial = (message_response 7 0)
     \<lparr>ms_rcode := rcode_nxdomain,
      ms_authorities := [\<lparr>rr_name = dotted ''a.example.'', rr_ttl = 60, rr_data = OtherData 47 [1]\<rparr>,
                         \<lparr>rr_name = dotted ''example.'', rr_ttl = 60, rr_data = OtherData 47 [2]\<rparr>]\<rparr>"

definition sample_sigs :: "labels trusted_signature list" where
  "sample_sigs =
     [\<lparr>ts_owner = dotted ''a.example.'', ts_covered = 47, ts_signer = dotted ''example.''\<rparr>,
      \<lparr>ts_owner = dotted ''example.'', ts_covered = 47, ts_signer = dotted ''example.''\<rparr>]"

lemma sample_dotted:
  "dotted ''example.'' = [lit ''example'']" "dotted ''a.example.'' = [lit ''a'', lit ''example'']"
  "dotted ''b.example.'' = [lit ''b'', lit ''example'']" "dotted ''c.example.'' = [lit ''c'', lit ''example'']"
  by code_simp+

lemma sample_signed: "signed_by_zones (sample_sec sample_nsec) id (\<lambda>_. sample_zone) sample_sigs (ms_authorities sample_denial @ ms_additionals sample_denial)"
proof -
  have "nsec_chain (sample_sec sample_nsec) sample_zone (nsec_at (dotted ''a.example.'') (dotted ''c.example.'') [1, 46, 47])"
    and "nsec_chain (sample_sec sample_nsec) sample_zone (nsec_at (dotted ''example.'') (dotted ''a.example.'') [1, 46, 47])"
    by code_simp+
  then show ?thesis
    by (auto simp: signed_by_zones_def sample_sigs_def sample_denial_def message_response_def nsec_of_def nsec3_of_def type_nsec_def
        type_nsec3_def nsec_at_def sample_sec_def sample_nsec_def)
qed

theorem authenticated_denial_sound_witness:
  "evaluate_denial sample_dns (sample_sec sample_nsec) sample_denial (dotted ''b.example.'') 1 sample_sigs = Some DenialSecure
   \<and> denied id sample_zone (dotted ''b.example.'') 1 True"
proof -
  have e: "evaluate_denial sample_dns (sample_sec sample_nsec) sample_denial (dotted ''b.example.'') 1 sample_sigs = Some DenialSecure"
    by code_simp
  have p: "plain_name id (dotted ''b.example.'')" unfolding plain_name_def by code_simp
  have z: "\<forall>t \<in> set sample_sigs. zone_ok id sample_zone \<and> zo_apex sample_zone = ts_signer t" unfolding zone_ok_def by code_simp
  have "ms_rcode sample_denial = rcode_nxdomain" by code_simp
  with authenticated_denial_sound [OF sample_names sample_collision_free p, where zones = "\<lambda>_. sample_zone", OF z sample_signed, of 1] e
  show ?thesis by auto
qed

text \<open>What the proofs do not rule out.  The NSEC record of a delegation, as the parent zone has it, is
  accepted as proof that names inside the delegated zone do not exist.\<close>

lemma nsec_delegation_gap:
  "evaluate_nsec_denial sample_dns (sample_sec sample_nsec)
     [nsec_at (dotted ''sub.example.'') (dotted ''z.example.'') [2, 46, 47]]
     (dotted ''www.sub.example.'') 1 True (dotted ''example.'') = Some NsecSecure"
  by code_simp

text \<open>A name without records of its own but with names below it exists; its absence is accepted all
  the same.\<close>

lemma nsec_empty_name_gap:
  "evaluate_nsec_denial sample_dns (sample_sec sample_nsec)
     [nsec_at (dotted ''example.'') (dotted ''a.example.'') [1, 46, 47],
      nsec_at (dotted ''a.example.'') (dotted ''x.b.example.'') [1, 46, 47]]
     (dotted ''b.example.'') 1 True (dotted ''example.'') = Some NsecSecure"
  by code_simp

text \<open>Where a label sorts before the wildcard label, the wildcard that would answer can be the next name
  of the covering record, which the search for the closest encloser does not look at.\<close>

lemma nsec_early_label_gap:
  "evaluate_nsec_denial sample_dns (sample_sec sample_nsec)
     [nsec_at (dotted ''example.'') (dotted ''a.example.'') [1, 46, 47],
      nsec_at (dotted ''a.example.'') (dotted ''*.b.example.'') [1, 46, 47]]
     (dotted ''!.b.example.'') 1 True (dotted ''example.'') = Some NsecSecure"
  by code_simp

text \<open>A wildcard NODATA proof is secure although the record that covers the next closer name opts out.\<close>

lemma nsec3_optout_wildcard:
  "evaluate_nsec3_denial sample_dns ((sample_sec sample_nsec)\<lparr>sl_base32 := \<lambda>b. Some (to_ascii_lowercase b)\<rparr>)
     [\<lparr>n3_owner = [text_of (dotted ''example.''), lit ''example''],
       n3_rdata = \<lparr>n3_hash_algorithm = 1, n3_opt_out = True, n3_iterations = 0, n3_salt = [], n3_next = [2], n3_types = [6]\<rparr>\<rparr>,
      \<lparr>n3_owner = [text_of (dotted ''*.example.''), lit ''example''],
       n3_rdata = \<lparr>n3_hash_algorithm = 1, n3_opt_out = False, n3_iterations = 0, n3_salt = [], n3_next = [7], n3_types = [16]\<rparr>\<rparr>]
     (dotted ''b.example.'') 1 False = Some N3Secure"
  by code_simp

end
