(* ===== verification/Query_Pipeline.thy ===== *)
theory Query_Pipeline
  imports Dnssec_Outcome Message_Wire Client_Registry Rewrite_Table Filter_Lifecycle Dns_Cache
begin

text \<open>
  The query pipeline, \<^verbatim>\<open>crates/sito/src/pipeline.rs\<close>: the whole \<^verbatim>\<open>handle\<close> of a query, composed from
  the client registry, the filter engine, the local rewrites, the runtime lists, the response cache
  and the DNSSEC outcomes of the other theories.

  A handler runs next to others.  What it shares with them is the record \<open>shared\<close>; the record
  \<open>pipe_env\<close> holds what is outside of the program (the name library, the upstream answers, the
  DNSSEC decisions, the clocks) and, in \<open>pv_others\<close>, what the other tasks did to the shared state
  while the handler waited at its n-th await point.  The result \<open>None\<close> of a function stands for a
  panic of the filter evaluation.  Logging and metrics are left out, apart from the query log entry.
\<close>

section \<open>Shaping queries and responses\<close>

definition query_has_do :: "'n message \<Rightarrow> bool" where
  "query_has_do q = (case ms_edns q of Some e \<Rightarrow> ed_dnssec_ok e | None \<Rightarrow> False)"

definition copy_query_response_flags :: "'n dns_lib \<Rightarrow> 'n message \<Rightarrow> 'n message \<Rightarrow> 'n message" where
  "copy_query_response_flags D query response =
     (let r = response\<lparr>ms_recursion_desired := ms_recursion_desired query, ms_recursion_available := True,
                       ms_checking_disabled := ms_checking_disabled query, ms_queries := ms_queries query\<rparr>
      in case ms_edns query of
           Some e \<Rightarrow>
             r\<lparr>ms_edns := Some ((dl_edns_new D)\<lparr>ed_max_payload := dl_payload D (ed_max_payload e), ed_dnssec_ok := ed_dnssec_ok e\<rparr>)\<rparr>
         | None \<Rightarrow> r)"

definition error_response :: "'n dns_lib \<Rightarrow> 'n message \<Rightarrow> nat \<Rightarrow> 'n message" where
  "error_response D query rcode =
     copy_query_response_flags D query ((message_response (ms_id query) (ms_op_code query))\<lparr>ms_rcode := rcode\<rparr>)"

definition is_dnssec_type :: "'n rr \<Rightarrow> bool" where
  "is_dnssec_type r \<longleftrightarrow> rr_type r \<in> {type_rrsig, type_nsec, type_nsec3, type_dnskey}"

text \<open>The option codes of DAU, DHU and N3U\<close>

definition dnssec_options :: "nat list" where "dnssec_options = [5, 6, 7]"

definition strip_dnssec_records :: "'n message \<Rightarrow> 'n message" where
  "strip_dnssec_records m =
     m\<lparr>ms_answers := filter (\<lambda>r. \<not> is_dnssec_type r) (ms_answers m),
       ms_authorities := filter (\<lambda>r. \<not> is_dnssec_type r) (ms_authorities m),
       ms_additionals := filter (\<lambda>r. \<not> is_dnssec_type r) (ms_additionals m),
       ms_edns := map_option (\<lambda>e. e\<lparr>ed_options := filter (\<lambda>(c, _). c \<notin> set dnssec_options) (ed_options e)\<rparr>) (ms_edns m)\<rparr>"

text \<open>The only caller passes a positive prefix, so that the shift stays below the width.\<close>

definition truncate_ip :: "ip_addr \<Rightarrow> nat \<Rightarrow> ip_addr" where
  "truncate_ip addr pre =
     (case addr of
        V4 v4 \<Rightarrow> if pre < 32 then V4 (v4 AND push_bit (32 - pre) (- 1)) else addr
      | V6 v6 \<Rightarrow> if pre < 128 then V6 (v6 AND push_bit (128 - pre) (- 1)) else addr)"

definition clamp_subnet :: "client_subnet \<Rightarrow> client_subnet option" where
  "clamp_subnet subnet =
     (let (addr, source_prefix, _) = subnet
      in if source_prefix = 0 then None
         else let (max_prefix, bits) = (case addr of V4 _ \<Rightarrow> (24, 32) | V6 _ \<Rightarrow> (56, 128));
                  pre = min (min source_prefix max_prefix) bits
              in if pre = 0 then None else Some (truncate_ip addr pre, pre, 0))"

definition apply_ecs_policy :: "upstream_ecs \<Rightarrow> 'n message \<Rightarrow> 'n message" where
  "apply_ecs_policy policy q =
     (case ms_edns q of
        None \<Rightarrow> q
      | Some e \<Rightarrow>
          q\<lparr>ms_edns := Some (e\<lparr>ed_subnet := if policy = EcsOff then None else Option.bind (ed_subnet e) clamp_subnet\<rparr>)\<rparr>)"

definition build_cache_query :: "'v config \<Rightarrow> 'n message \<Rightarrow> 'n message" where
  "build_cache_query config query = apply_ecs_policy (uc_ecs (cf_upstream config)) query"

definition build_upstream_query :: "'n dns_lib \<Rightarrow> 'v config \<Rightarrow> bool \<Rightarrow> 'n message \<Rightarrow> 'n message" where
  "build_upstream_query D config force_dnssec query =
     (let q = (if force_dnssec
               then let e = (case ms_edns query of Some e \<Rightarrow> e | None \<Rightarrow> dl_edns_new D)
                    in query\<lparr>ms_edns := Some (e\<lparr>ed_dnssec_ok := True,
                          ed_max_payload := dl_payload D (max (dn_edns_udp_size (cf_dns config)) 1232)\<rparr>)\<rparr>
               else query)
      in apply_ecs_policy (uc_ecs (cf_upstream config)) q)"

definition validation_status :: "validation_outcome option \<Rightarrow> validation_status" where
  "validation_status outcome =
     (case outcome of
        Some OSecure \<Rightarrow> Secure
      | Some OInsecure \<Rightarrow> Insecure
      | Some ONtaBypass \<Rightarrow> Insecure
      | Some OIndeterminate \<Rightarrow> Indeterminate
      | Some (OBogus _ _) \<Rightarrow> Indeterminate
      | None \<Rightarrow> Unchecked)"

definition cache_entry_servable :: "validation_status \<Rightarrow> bool \<Rightarrow> bool" where
  "cache_entry_servable status validation_active \<longleftrightarrow> \<not> validation_active \<or> status \<noteq> Unchecked"

definition stale_cache_entry_servable :: "validation_status \<Rightarrow> bool \<Rightarrow> bool" where
  "stale_cache_entry_servable status validation_active \<longleftrightarrow> \<not> validation_active \<or> status \<in> {Secure, Insecure}"


section \<open>Outcomes\<close>

record 'n query_outcome =
  qo_response :: "'n message"
  qo_verdict :: rstr
  qo_rule :: "rstr option"
  qo_source :: "rstr option"
  qo_upstream :: "rstr option"
  qo_from_cache :: bool
  qo_domain_str :: rstr
  qo_qtype :: nat
  qo_dnssec :: "rstr option"

definition block_reason_labels :: "block_reason \<Rightarrow> rstr option \<times> rstr option" where
  "block_reason_labels reason =
     (case reason of
        BRule r \<Rightarrow> (Some (rf_rule_text r), rf_list_name r)
      | BParental \<Rightarrow> (Some (lit ''parental''), None)
      | BService svc \<Rightarrow> (Some (lit ''service''), Some svc)
      | BAntiDohBypass \<Rightarrow> (Some (lit ''anti_doh_bypass''), Some (lit ''anti_doh_bypass''))
      | BFilterUnavailable \<Rightarrow> (Some (lit ''filter_unavailable''), None))"

definition outcome_of :: "'n message \<Rightarrow> rstr \<Rightarrow> rstr \<Rightarrow> nat \<Rightarrow> 'n query_outcome" where
  "outcome_of response verdict domain_str qtype =
     \<lparr>qo_response = response, qo_verdict = verdict, qo_rule = None, qo_source = None, qo_upstream = None,
      qo_from_cache = False, qo_domain_str = domain_str, qo_qtype = qtype, qo_dnssec = None\<rparr>"

definition outcome_blocked :: "'n message \<Rightarrow> rstr option \<times> rstr option \<Rightarrow> rstr \<Rightarrow> nat \<Rightarrow> 'n query_outcome" where
  "outcome_blocked response labels domain_str qtype =
     (outcome_of response (lit ''blocked'') domain_str qtype)\<lparr>qo_rule := fst labels, qo_source := snd labels\<rparr>"

definition outcome_rewritten :: "'n message \<Rightarrow> rstr \<Rightarrow> nat \<Rightarrow> 'n query_outcome" where
  "outcome_rewritten response domain_str qtype = outcome_of response (lit ''rewritten'') domain_str qtype"

definition outcome_error :: "'n dns_lib \<Rightarrow> 'n message \<Rightarrow> nat \<Rightarrow> rstr \<Rightarrow> rstr \<Rightarrow> nat \<Rightarrow> 'n query_outcome" where
  "outcome_error D query rcode verdict domain_str qtype = outcome_of (error_response D query rcode) verdict domain_str qtype"

definition outcome_formerr :: "'n dns_lib \<Rightarrow> 'n message \<Rightarrow> 'n query_outcome" where
  "outcome_formerr D query = outcome_error D query rcode_formerr (lit ''formerr'') [] type_a"

definition outcome_notimp :: "'n dns_lib \<Rightarrow> 'n message \<Rightarrow> rstr \<Rightarrow> nat \<Rightarrow> 'n query_outcome" where
  "outcome_notimp D query domain_str qtype = outcome_error D query rcode_notimp (lit ''notimp'') domain_str qtype"

definition outcome_badvers :: "'n dns_lib \<Rightarrow> 'n message \<Rightarrow> rstr \<Rightarrow> nat \<Rightarrow> 'n query_outcome" where
  "outcome_badvers D query domain_str qtype = outcome_error D query rcode_badvers (lit ''badvers'') domain_str qtype"

definition outcome_servfail :: "'n dns_lib \<Rightarrow> 'n message \<Rightarrow> rstr \<Rightarrow> nat \<Rightarrow> 'n query_outcome" where
  "outcome_servfail D query domain_str qtype = outcome_error D query rcode_servfail (lit ''servfail'') domain_str qtype"

definition make_blocked_response :: "'n dns_lib \<Rightarrow> 'n message \<Rightarrow> blocking_mode \<Rightarrow> nat \<Rightarrow> nat \<Rightarrow> 'n message" where
  "make_blocked_response D query mode ttl query_id = (synthesize_blocked_response D query mode ttl)\<lparr>ms_id := query_id\<rparr>"

text \<open>The longest prefix of whole characters within a number of bytes\<close>

fun take_bytes :: "nat \<Rightarrow> rstr \<Rightarrow> rstr" where
  "take_bytes n [] = []"
| "take_bytes n (c # s) = (if len_utf8 c \<le> n then c # take_bytes (n - len_utf8 c) s else [])"

lemma take_bytes_prefix: "take_bytes n s = take (length (take_bytes n s)) s"
  by (induction n s rule: take_bytes.induct) auto

lemma take_bytes_nonempty: "s \<noteq> [] \<Longrightarrow> take_bytes 255 s \<noteq> []"
  by (cases s) (auto simp: len_utf8_def)

function txt_loop :: "rstr \<Rightarrow> rstr list" where
  "txt_loop s = (if s = [] then [] else take_bytes 255 s # txt_loop (drop (length (take_bytes 255 s)) s))"
  by pat_completeness auto
termination
proof (relation "measure length")
  fix s :: rstr
  assume "s \<noteq> []"
  then show "(drop (length (take_bytes 255 s)) s, s) \<in> measure length"
    using take_bytes_nonempty [of s] by (cases "take_bytes 255 s") simp_all
qed simp

declare txt_loop.simps [simp del]

definition txt_chunks :: "rstr \<Rightarrow> rstr list" where
  "txt_chunks v = (let chunks = txt_loop v in if chunks = [] then [[]] else chunks)"

definition rewrite_applies_to_qtype :: "rstr \<Rightarrow> nat \<Rightarrow> bool" where
  "rewrite_applies_to_qtype rtype qtype =
     (if rtype = lit ''CNAME'' then True
      else if rtype = lit ''A'' then qtype = type_a
      else if rtype = lit ''AAAA'' then qtype = type_aaaa
      else if rtype = lit ''PTR'' then qtype = type_ptr
      else if rtype = lit ''TXT'' then qtype = type_txt
      else True)"

definition rewrite_rcode :: "dns_rewrite_rule list \<Rightarrow> nat" where
  "rewrite_rcode rules =
     (case find (\<lambda>c. c \<noteq> [] \<and> \<not> eq_ignore_ascii_case c (lit ''NOERROR'')) (map (\<lambda>r. trim (rw_rcode r)) rules) of
        None \<Rightarrow> rcode_noerror
      | Some c \<Rightarrow>
          (let u = to_ascii_uppercase c
           in if u = lit ''NXDOMAIN'' then rcode_nxdomain
              else if u = lit ''REFUSED'' then rcode_refused
              else if u = lit ''SERVFAIL'' then rcode_servfail
              else if u = lit ''FORMERR'' then rcode_formerr
              else if u = lit ''NOTIMP'' then rcode_notimp
              else rcode_noerror))"

definition rewrite_rdata :: "'n name_lib \<Rightarrow> rstr \<Rightarrow> rstr \<Rightarrow> 'n rdata option" where
  "rewrite_rdata L rtype v =
     (if rtype = lit ''A'' then map_option AData (parse_ipv4 v)
      else if rtype = lit ''AAAA'' then map_option AaaaData (parse_ipv6 v)
      else if rtype = lit ''CNAME'' then map_option CnameData (parse_name L (trim_end_matches (cc CHR ''.'') v))
      else if rtype = lit ''PTR'' then map_option PtrData (parse_name L (trim_end_matches (cc CHR ''.'') v))
      else if rtype = lit ''TXT'' then Some (TxtData (txt_chunks v))
      else None)"

definition rewrite_answer :: "'n name_lib \<Rightarrow> 'n query \<Rightarrow> dns_rewrite_rule \<Rightarrow> 'n rr list" where
  "rewrite_answer L question rule =
     (case (rw_rtype rule, rw_value rule) of
        (Some rtype, Some v) \<Rightarrow>
          (let rtype = to_ascii_uppercase rtype
           in if \<not> rewrite_applies_to_qtype rtype (qu_type question) then []
              else case rewrite_rdata L rtype v of
                  Some d \<Rightarrow> [from_rdata (qu_name question) 60 d]
                | None \<Rightarrow> [])
      | _ \<Rightarrow> [])"

definition make_rewrite_response ::
  "'n dns_lib \<Rightarrow> 'n name_lib \<Rightarrow> 'n message \<Rightarrow> dns_rewrite_rule list \<Rightarrow> nat \<Rightarrow> 'n message" where
  "make_rewrite_response D L query rules query_id =
     (let resp = copy_query_response_flags D query (message_response query_id (ms_op_code query));
          resp = resp\<lparr>ms_rcode := rewrite_rcode rules\<rparr>
      in if ms_rcode resp = rcode_noerror
         then (case ms_queries query of
                 question # _ \<Rightarrow> resp\<lparr>ms_answers := concat (map (rewrite_answer L question) rules)\<rparr>
               | [] \<Rightarrow> resp)
         else resp)"

definition answers_contain_bypass_ip :: "anti_bypass_registry \<Rightarrow> 'n rr list \<Rightarrow> bool" where
  "answers_contain_bypass_ip reg answers =
     list_ex (\<lambda>r. case rr_data r of AData a \<Rightarrow> ab_matches_ip reg (V4 a) | AaaaData a \<Rightarrow> ab_matches_ip reg (V6 a) | _ \<Rightarrow> False)
       answers"


section \<open>Verdicts of several rule sets\<close>

definition allow_rule_matched :: "verdict \<Rightarrow> bool" where
  "allow_rule_matched v = (case v of VAllow (Some _) \<Rightarrow> True | _ \<Rightarrow> False)"

definition combine_standard_verdicts :: "verdict \<Rightarrow> verdict option \<Rightarrow> verdict" where
  "combine_standard_verdicts global grp =
     (let global_allowed = allow_rule_matched global;
          group_allowed = (case grp of Some v \<Rightarrow> allow_rule_matched v | None \<Rightarrow> False)
      in if global_allowed \<or> group_allowed then VAllow None
         else case grp of
             Some (VRewrite action) \<Rightarrow> VRewrite action
           | _ \<Rightarrow>
               (case global of
                  VRewrite action \<Rightarrow> VRewrite action
                | VBlock b \<Rightarrow> VBlock b
                | _ \<Rightarrow> (case grp of Some (VBlock b) \<Rightarrow> VBlock b | _ \<Rightarrow> VAllow None)))"

text \<open>A snapshot with its candidates for a name: allow rules and block rules.\<close>

type_synonym ('ac, 'dfa) scanned = "('ac, 'dfa) filter_snapshot \<times> nat list \<times> nat list"

fun rewrite_sets ::
  "('ac, 'dfa) scanned list \<Rightarrow> rstr \<Rightarrow> nat \<Rightarrow> client_context \<Rightarrow> bool \<Rightarrow>
   (dns_rewrite_rule list \<times> dns_rewrite_rule list) option" where
  "rewrite_sets [] domain qtype client important = Some ([], [])"
| "rewrite_sets ((s, allow, block) # sets) domain qtype client important =
     do { rules \<leftarrow> collect_rewrite_rules s domain qtype client block important;
          standard \<leftarrow> (if important then Some [] else collect_rewrite_cancellations s domain qtype client allow False);
          outranking \<leftarrow> collect_rewrite_cancellations s domain qtype client allow True;
          (more_rules, more_cancellations) \<leftarrow> rewrite_sets sets domain qtype client important;
          Some (rules @ more_rules, standard @ outranking @ more_cancellations) }"

definition effective_rewrites ::
  "puny_decoder \<Rightarrow> ('ac, 'dfa) scanned list \<Rightarrow> rstr \<Rightarrow> nat \<Rightarrow> client_context \<Rightarrow> bool \<Rightarrow> dns_rewrite_rule list option" where
  "effective_rewrites puny sets domain qtype client important =
     map_option (\<lambda>(rules, cancellations). apply_rewrite_cancellations puny rules cancellations)
       (rewrite_sets sets domain qtype client important)"

definition pipeline_query_domain :: "'n dns_lib \<Rightarrow> 'n \<Rightarrow> rstr" where
  "pipeline_query_domain D qname =
     (let ascii = dl_ascii D qname
      in case normalize_domain (dl_puny D) ascii of
           Inr d \<Rightarrow> d
         | Inl _ \<Rightarrow>
             (let fallback = to_ascii_lowercase (trim_end_matches (cc CHR ''.'') ascii)
              in if fallback = [] then lit ''.'' else fallback))"

definition scan ::
  "('ac, 'dfa) matchers \<Rightarrow> ('ac, 'dfa) filter_snapshot \<Rightarrow> rstr \<Rightarrow> ('ac, 'dfa) scanned option" where
  "scan M s domain = map_option (Pair s) (snapshot_candidates M s domain)"

text \<open>The rules of the client's group, when its policy names any\<close>

definition scan_group ::
  "('ac, 'dfa) matchers \<Rightarrow> ('ac, 'dfa) filter_engine \<Rightarrow> effective_policy \<Rightarrow> rstr \<Rightarrow> ('ac, 'dfa) scanned option option" where
  "scan_group M engine policy domain =
     (if ep_lists policy \<noteq> [] \<or> ep_custom_rules policy \<noteq> []
      then (case group_snapshot engine (ep_group_name policy) of
              Some s \<Rightarrow> map_option Some (scan M s domain)
            | None \<Rightarrow> Some None)
      else Some None)"

definition important_verdict ::
  "('ac, 'dfa) scanned option \<Rightarrow> ('ac, 'dfa) scanned option \<Rightarrow> rstr \<Rightarrow> nat \<Rightarrow> client_context \<Rightarrow> verdict option option" where
  "important_verdict global grp domain qtype client =
     do { v \<leftarrow> (case global of Some (s, allow, block) \<Rightarrow> evaluate_important_candidates s domain qtype client allow block
                            | None \<Rightarrow> Some None);
          (case (v, grp) of
             (None, Some (s, allow, block)) \<Rightarrow> evaluate_important_candidates s domain qtype client allow block
           | _ \<Rightarrow> Some v) }"

definition standard_verdict ::
  "('ac, 'dfa) scanned \<Rightarrow> ('ac, 'dfa) scanned option \<Rightarrow> rstr \<Rightarrow> nat \<Rightarrow> client_context \<Rightarrow> verdict option" where
  "standard_verdict global grp domain qtype client =
     do { group_verdict \<leftarrow> (case grp of
                             Some (s, allow, block) \<Rightarrow> map_option Some (evaluate_standard_candidates s domain qtype client allow block)
                           | None \<Rightarrow> Some None);
          global_verdict \<leftarrow> (case global of (s, allow, block) \<Rightarrow> evaluate_standard_candidates s domain qtype client allow block);
          Some (combine_standard_verdicts global_verdict group_verdict) }"


section \<open>The shared state and the environment\<close>

text \<open>\<open>sh_config\<close>, \<open>sh_clients\<close> and \<open>sh_rewrites\<close> are the runtime snapshot, \<open>sh_dnssec\<close> is the mode
  of the current validator, \<open>sh_scoped\<close> the upstream managers of clients by their joined server list.\<close>

record ('n, 'ac, 'dfa, 'c, 'v, 'up) shared =
  sh_config :: "'v config"
  sh_clients :: "'c client_registry"
  sh_rewrites :: "'n rewrite_table"
  sh_filter :: "('ac, 'dfa) filter_engine"
  sh_lists :: runtime_lists
  sh_cache :: "'n dns_cache"
  sh_flights :: flights
  sh_dnssec :: dnssec_mode
  sh_scoped :: "rstr \<Rightarrow> 'up option"
  sh_in_flight :: nat
  sh_permits :: nat

text \<open>\<open>pv_resolve\<close> is what an upstream manager returns for a query (the answer and the server that
  gave it, or an error), \<open>pv_decide\<close> what the validator concludes of an answer, with the records it
  fetched; \<open>pv_clock\<close> is the monotonic clock at the n-th await point.\<close>

record ('n, 'ac, 'dfa, 'c, 'v, 'up) pipe_env =
  pv_dns :: "'n dns_lib"
  pv_names :: "'n name_lib"
  pv_matchers :: "('ac, 'dfa) matchers"
  pv_cron :: "'c cron_engine"
  pv_anti_bypass :: anti_bypass_registry
  pv_upstream :: 'up
  pv_resolve :: "'up \<Rightarrow> 'n message \<Rightarrow> ('n message \<times> rstr) option"
  pv_decide :: "'up \<Rightarrow> rstr option \<Rightarrow> nat \<Rightarrow> 'n message \<Rightarrow> validation_outcome \<times> 'n rr list"
  pv_others :: "nat \<Rightarrow> ('n, 'ac, 'dfa, 'c, 'v, 'up) shared \<Rightarrow> ('n, 'ac, 'dfa, 'c, 'v, 'up) shared"
  pv_clock :: "nat \<Rightarrow> nat"
  pv_unix :: nat
  pv_date :: date_time

definition pipeline_new ::
  "'v config \<Rightarrow> 'c client_registry \<Rightarrow> 'n rewrite_table \<Rightarrow> ('ac, 'dfa) filter_engine \<Rightarrow> 'n dns_cache \<Rightarrow> dnssec_mode \<Rightarrow>
   parental_registry \<Rightarrow> service_registry \<Rightarrow> ('n, 'ac, 'dfa, 'c, 'v, 'up) shared" where
  "pipeline_new config clients rewrites engine cache mode parental services =
     \<lparr>sh_config = config, sh_clients = clients, sh_rewrites = rewrites, sh_filter = engine,
      sh_lists = lists_from_arcs parental services, sh_cache = cache, sh_flights = flights_new, sh_dnssec = mode,
      sh_scoped = (\<lambda>_. None), sh_in_flight = 0, sh_permits = 64\<rparr>"

definition with_runtime ::
  "'v config \<Rightarrow> 'c client_registry \<Rightarrow> 'n rewrite_table \<Rightarrow> ('n, 'ac, 'dfa, 'c, 'v, 'up) shared \<Rightarrow> ('n, 'ac, 'dfa, 'c, 'v, 'up) shared" where
  "with_runtime config clients rewrites s = s\<lparr>sh_config := config, sh_clients := clients, sh_rewrites := rewrites\<rparr>"

definition with_runtime_lists :: "runtime_lists \<Rightarrow> ('n, 'ac, 'dfa, 'c, 'v, 'up) shared \<Rightarrow> ('n, 'ac, 'dfa, 'c, 'v, 'up) shared" where
  "with_runtime_lists rl s = s\<lparr>sh_lists := rl\<rparr>"

definition with_scoped_upstreams :: "(rstr \<Rightarrow> 'up option) \<Rightarrow> ('n, 'ac, 'dfa, 'c, 'v, 'up) shared \<Rightarrow> ('n, 'ac, 'dfa, 'c, 'v, 'up) shared" where
  "with_scoped_upstreams scoped s = s\<lparr>sh_scoped := scoped\<rparr>"

definition with_shared_dnssec :: "dnssec_mode \<Rightarrow> ('n, 'ac, 'dfa, 'c, 'v, 'up) shared \<Rightarrow> ('n, 'ac, 'dfa, 'c, 'v, 'up) shared" where
  "with_shared_dnssec mode s = s\<lparr>sh_dnssec := mode\<rparr>"

text \<open>What the first lines of the handler fix for the rest of it\<close>

record ('n, 'v, 'up) request =
  rq_query :: "'n message"
  rq_first :: "'n query"
  rq_client :: client_context
  rq_policy :: effective_policy
  rq_config :: "'v config"
  rq_upstream :: 'up
  rq_cache_enabled :: bool
  rq_mode :: dnssec_mode

definition rq_domain :: "'n dns_lib \<Rightarrow> ('n, 'v, 'up) request \<Rightarrow> rstr" where
  "rq_domain D R = to_ascii_lowercase (dl_ascii D (qu_name (rq_first R)))"

definition rq_validation_active :: "('n, 'v, 'up) request \<Rightarrow> bool" where
  "rq_validation_active R \<longleftrightarrow> \<not> ms_checking_disabled (rq_query R) \<and> rq_mode R \<noteq> DnssecOff"

definition rq_filtering_active :: "('n, 'v, 'up) request \<Rightarrow> bool" where
  "rq_filtering_active R \<longleftrightarrow> fc_enabled (cf_filtering (rq_config R)) \<and> ep_is_filtering_enabled (rq_policy R)"

definition rq_bypass_check :: "('n, 'v, 'up) request \<Rightarrow> bool" where
  "rq_bypass_check R \<longleftrightarrow>
     fc_enabled (cf_filtering (rq_config R)) \<and>
     (let setting = fc_anti_doh_bypass (cf_filtering (rq_config R))
      in if setting = lit ''block_all'' then True
         else if setting = lit ''block_except_trusted'' then \<not> ep_trusted (rq_policy R)
         else False)"

definition rq_cache_query :: "('n, 'v, 'up) request \<Rightarrow> 'n message" where
  "rq_cache_query R = build_cache_query (rq_config R) (rq_query R)"

definition scoped_upstream :: "effective_policy \<Rightarrow> (rstr \<Rightarrow> 'up option) \<Rightarrow> 'up option" where
  "scoped_upstream policy scoped =
     (if ep_use_global_upstreams policy then None
      else Option.bind (ep_upstreams policy) (\<lambda>servers. scoped (join (lit '','') servers)))"


section \<open>Stages before the cache\<close>

definition blocked_outcome ::
  "'n dns_lib \<Rightarrow> ('n, 'v, 'up) request \<Rightarrow> rstr option \<times> rstr option \<Rightarrow> 'n query_outcome" where
  "blocked_outcome D R labels =
     outcome_blocked
       (make_blocked_response D (rq_query R) (fc_blocking_mode (cf_filtering (rq_config R)))
          (fc_blocking_ttl (cf_filtering (rq_config R))) (ms_id (rq_query R)))
       labels (rq_domain D R) (qu_type (rq_first R))"

definition bypass_labels :: "rstr option \<times> rstr option" where
  "bypass_labels = (Some (lit ''anti_doh_bypass''), Some (lit ''anti_doh_bypass''))"

definition anti_doh_blocked_by_domain ::
  "'n dns_lib \<Rightarrow> anti_bypass_registry \<Rightarrow> ('n, 'v, 'up) request \<Rightarrow> 'n query_outcome option" where
  "anti_doh_blocked_by_domain D reg R =
     (if \<not> ab_matches_domain reg (rq_domain D R) then None else Some (blocked_outcome D R bypass_labels))"

definition anti_doh_blocked_by_answers ::
  "'n dns_lib \<Rightarrow> anti_bypass_registry \<Rightarrow> ('n, 'v, 'up) request \<Rightarrow> 'n rr list \<Rightarrow> 'n query_outcome option" where
  "anti_doh_blocked_by_answers D reg R answers =
     (if \<not> answers_contain_bypass_ip reg answers then None else Some (blocked_outcome D R bypass_labels))"

definition evaluate_filter_stages ::
  "'n dns_lib \<Rightarrow> 'n name_lib \<Rightarrow> runtime_lists \<Rightarrow> ('n, 'v, 'up) request \<Rightarrow>
   ('ac, 'dfa) scanned \<Rightarrow> ('ac, 'dfa) scanned option \<Rightarrow> 'n query_outcome option option" where
  "evaluate_filter_stages D L rlists R global grp =
     (let policy = rq_policy R; domain_str = rq_domain D R; qtype = qu_type (rq_first R);
          domain = pipeline_query_domain D (qu_name (rq_first R))
      in if ep_parental policy \<and> matches_any_category (rl_parental rlists) (ep_parental_categories policy) domain_str
         then Some (Some (blocked_outcome D R (Some (lit ''parental''), None)))
         else case (if ep_active_blocked_services policy \<noteq> []
                    then matches_any_service (rl_services rlists) (ep_active_blocked_services policy) domain_str else None) of
             Some service \<Rightarrow> Some (Some (blocked_outcome D R (Some (lit ''service''), Some service)))
           | None \<Rightarrow>
               do { verdict \<leftarrow> standard_verdict global grp domain qtype (rq_client R);
                    (case verdict of
                       VBlock reason \<Rightarrow> Some (Some (blocked_outcome D R (block_reason_labels reason)))
                     | VRewrite _ \<Rightarrow>
                         do { rewrites \<leftarrow> effective_rewrites (dl_puny D) (global # (case grp of Some g \<Rightarrow> [g] | None \<Rightarrow> []))
                                             domain qtype (rq_client R) False;
                              Some (if rewrites = [] then None
                                    else Some (outcome_rewritten (make_rewrite_response D L (rq_query R) rewrites (ms_id (rq_query R)))
                                                 domain_str qtype)) }
                     | VAllow _ \<Rightarrow> Some None) })"

text \<open>A stage either answers the query or lets it continue; the flag says whether an important
  allow rule exempted the query from the stages that follow.\<close>

datatype 'n stage = Answered "'n query_outcome" | Continue bool

definition important_stage ::
  "'n dns_lib \<Rightarrow> 'n name_lib \<Rightarrow> ('n, 'v, 'up) request \<Rightarrow> ('ac, 'dfa) scanned option \<Rightarrow> ('ac, 'dfa) scanned option \<Rightarrow>
   'n stage option" where
  "important_stage D L R global grp =
     (let qtype = qu_type (rq_first R); domain = pipeline_query_domain D (qu_name (rq_first R))
      in do { verdict \<leftarrow> important_verdict global grp domain qtype (rq_client R);
              (case verdict of
                 None \<Rightarrow> Some (Continue False)
               | Some (VBlock reason) \<Rightarrow> Some (Answered (blocked_outcome D R (block_reason_labels reason)))
               | Some (VRewrite _) \<Rightarrow>
                   do { rewrites \<leftarrow> effective_rewrites (dl_puny D)
                                       ((case global of Some g \<Rightarrow> [g] | None \<Rightarrow> []) @ (case grp of Some g \<Rightarrow> [g] | None \<Rightarrow> []))
                                       domain qtype (rq_client R) True;
                        Some (if rewrites = [] then Continue False
                              else Answered (outcome_rewritten (make_rewrite_response D L (rq_query R) rewrites (ms_id (rq_query R)))
                                               (rq_domain D R) qtype)) }
               | Some (VAllow _) \<Rightarrow> Some (Continue True)) })"

definition safe_search_outcome ::
  "'n dns_lib \<Rightarrow> 'n name_lib \<Rightarrow> ('n, 'v, 'up) request \<Rightarrow> 'n query_outcome option" where
  "safe_search_outcome D L R =
     (if rq_filtering_active R \<and> ep_safe_search (rq_policy R)
      then do { target \<leftarrow> match_safe_search (rq_domain D R) (ep_safe_search_youtube (rq_policy R));
                cname_target \<leftarrow> parse_name L (trim_end_matches (cc CHR ''.'') target @ lit ''.'');
                Some (outcome_rewritten ((synthesize_cname_response D (rq_query R) cname_target 300)\<lparr>ms_id := ms_id (rq_query R)\<rparr>)
                        (rq_domain D R) (qu_type (rq_first R))) }
      else None)"

definition local_stages ::
  "'n dns_lib \<Rightarrow> 'n name_lib \<Rightarrow> ('n, 'ac, 'dfa, 'c, 'v, 'up) shared \<Rightarrow> ('n, 'v, 'up) request \<Rightarrow>
   ('ac, 'dfa) scanned option \<Rightarrow> ('ac, 'dfa) scanned option \<Rightarrow> 'n stage option" where
  "local_stages D L s R global grp =
     (case rewrite_lookup L (sh_rewrites s) (qu_name (rq_first R)) (qu_type (rq_first R)) (rq_client R) of
        Some records \<Rightarrow>
          Some (Answered (outcome_rewritten ((synthesize_records_response D (rq_query R) records)\<lparr>ms_id := ms_id (rq_query R)\<rparr>)
                            (rq_domain D R) (qu_type (rq_first R))))
      | None \<Rightarrow>
          do { outcome \<leftarrow> (case global of
                            Some g \<Rightarrow> evaluate_filter_stages D L (sh_lists s) R g grp
                          | None \<Rightarrow> Some None);
               Some (case outcome of
                       Some answer \<Rightarrow> Answered answer
                     | None \<Rightarrow> (case safe_search_outcome D L R of Some answer \<Rightarrow> Answered answer | None \<Rightarrow> Continue False)) })"

definition decide_stages ::
  "('n, 'ac, 'dfa, 'c, 'v, 'up) pipe_env \<Rightarrow> ('n, 'ac, 'dfa, 'c, 'v, 'up) shared \<Rightarrow> ('n, 'v, 'up) request \<Rightarrow> 'n stage option" where
  "decide_stages E s R =
     (let D = pv_dns E; L = pv_names E; M = pv_matchers E;
          domain = pipeline_query_domain D (qu_name (rq_first R));
          snapshot = he_snapshot (sh_filter s)
      in if rq_filtering_active R \<and> fc_fail_closed (cf_filtering (rq_config R)) \<and> fs_unavailable snapshot
         then Some (Answered (outcome_servfail D (rq_query R) (rq_domain D R) (qu_type (rq_first R))))
         else do {
           global \<leftarrow> (if rq_filtering_active R then map_option Some (scan M snapshot domain) else Some None);
           grp \<leftarrow> (if rq_filtering_active R then scan_group M (sh_filter s) (rq_policy R) domain else Some None);
           (case (if rq_bypass_check R then anti_doh_blocked_by_domain D (pv_anti_bypass E) R else None) of
              Some answer \<Rightarrow> Some (Answered answer)
            | None \<Rightarrow>
                do { stage \<leftarrow> important_stage D L R global grp;
                     (case stage of
                        Answered answer \<Rightarrow> Some (Answered answer)
                      | Continue True \<Rightarrow> Some (Continue True)
                      | Continue False \<Rightarrow> local_stages D L s R global grp) }) })"


section \<open>CNAME uncloaking\<close>

fun cname_loop ::
  "('n, 'ac, 'dfa, 'c, 'v, 'up) pipe_env \<Rightarrow> ('n, 'ac, 'dfa, 'c, 'v, 'up) shared \<Rightarrow> nat \<Rightarrow> client_context \<Rightarrow> effective_policy \<Rightarrow>
   'n rr list \<Rightarrow> bool option" where
  "cname_loop E s qtype client policy [] = Some False"
| "cname_loop E s qtype client policy (r # rs) =
     (case rr_data r of
        CnameData target \<Rightarrow>
          (let domain_str = to_ascii_lowercase (dl_ascii (pv_dns E) target);
               normalized = pipeline_query_domain (pv_dns E) target;
               rlists = sh_lists s
           in do { global \<leftarrow> scan (pv_matchers E) (he_snapshot (sh_filter s)) normalized;
                   grp \<leftarrow> scan_group (pv_matchers E) (sh_filter s) policy normalized;
                   imp \<leftarrow> important_verdict (Some global) grp normalized qtype client;
                   (if (case imp of Some v \<Rightarrow> is_blocked v | None \<Rightarrow> False) then Some True
                    else if (case imp of Some v \<Rightarrow> is_allowed v | None \<Rightarrow> False) then cname_loop E s qtype client policy rs
                    else if ep_parental policy \<and> matches_any_category (rl_parental rlists) (ep_parental_categories policy) domain_str
                    then Some True
                    else if ep_active_blocked_services policy \<noteq> [] \<and>
                            matches_any_service (rl_services rlists) (ep_active_blocked_services policy) domain_str \<noteq> None
                    then Some True
                    else do { verdict \<leftarrow> standard_verdict global grp normalized qtype client;
                              (if is_blocked verdict then Some True else cname_loop E s qtype client policy rs) }) })
      | _ \<Rightarrow> cname_loop E s qtype client policy rs)"

definition cname_target_blocked ::
  "('n, 'ac, 'dfa, 'c, 'v, 'up) pipe_env \<Rightarrow> ('n, 'ac, 'dfa, 'c, 'v, 'up) shared \<Rightarrow> nat \<Rightarrow> client_context \<Rightarrow> effective_policy \<Rightarrow>
   'n message \<Rightarrow> bool option" where
  "cname_target_blocked E s qtype client policy m =
     (if \<not> list_ex (\<lambda>r. case rr_data r of CnameData _ \<Rightarrow> True | _ \<Rightarrow> False) (ms_answers m) then Some False
      else cname_loop E s qtype client policy (ms_answers m))"

text \<open>The check as the handler makes it: only when uncloaking is switched on for the query\<close>

definition uncloak ::
  "('n, 'ac, 'dfa, 'c, 'v, 'up) pipe_env \<Rightarrow> ('n, 'ac, 'dfa, 'c, 'v, 'up) shared \<Rightarrow> ('n, 'v, 'up) request \<Rightarrow> bool \<Rightarrow> 'n message \<Rightarrow>
   bool option" where
  "uncloak E s R important_allowed m =
     (if rq_filtering_active R \<and> fc_cname_cloaking (cf_filtering (rq_config R)) \<and> \<not> important_allowed
      then cname_target_blocked E s (qu_type (rq_first R)) (rq_client R) (rq_policy R) m
      else Some False)"

definition uncloak_labels :: "rstr option \<times> rstr option" where
  "uncloak_labels = (Some (lit ''cname_uncloaking''), None)"


section \<open>Answers from the cache\<close>

definition cached_response ::
  "('n, 'ac, 'dfa, 'c, 'v, 'up) pipe_env \<Rightarrow> nat \<Rightarrow> ('n, 'v, 'up) request \<Rightarrow> ('n, 'ac, 'dfa, 'c, 'v, 'up) shared \<Rightarrow> ('n, 'ac, 'dfa, 'c, 'v, 'up) shared \<times> 'n message option" where
  "cached_response E now R s =
     (let (cache, hit) = get_for_query_with_status (pv_dns E) now (rq_cache_query R) (sh_cache s);
          s = s\<lparr>sh_cache := cache\<rparr>
      in case hit of
           None \<Rightarrow> (s, None)
         | Some (response, status) \<Rightarrow>
             if \<not> cache_entry_servable status (rq_validation_active R) then (s, None)
             else let response = (if \<not> is_secure status then response\<lparr>ms_authentic_data := False\<rparr> else response);
                      response = (if \<not> query_has_do (rq_query R) then strip_dnssec_records response else response)
                  in (s, Some response))"

text \<open>A background refresh: the query it stores under, the query it sends, the upstream and, when
  validation is on, the validator's mode.\<close>

record ('n, 'up) prefetch =
  pf_query :: "'n message"
  pf_resolve_query :: "'n message"
  pf_upstream :: 'up
  pf_validator :: "dnssec_mode option"

definition spawn_prefetch :: "'n dns_lib \<Rightarrow> ('n, 'v, 'up) request \<Rightarrow> dnssec_mode \<Rightarrow> ('n, 'up) prefetch" where
  "spawn_prefetch D R mode =
     (let bg_query = (rq_cache_query R)\<lparr>ms_checking_disabled := False\<rparr>
      in \<lparr>pf_query = bg_query, pf_resolve_query = build_upstream_query D (rq_config R) (mode \<noteq> DnssecOff) bg_query,
          pf_upstream = rq_upstream R, pf_validator = (if mode = DnssecOff then None else Some mode)\<rparr>)"

definition storable :: "'n message \<Rightarrow> bool" where
  "storable m \<longleftrightarrow> ms_rcode m = rcode_noerror \<or> ms_rcode m = rcode_nxdomain"

definition run_prefetch :: "('n, 'ac, 'dfa, 'c, 'v, 'up) pipe_env \<Rightarrow> nat \<Rightarrow> ('n, 'up) prefetch \<Rightarrow> ('n, 'ac, 'dfa, 'c, 'v, 'up) shared \<Rightarrow> ('n, 'ac, 'dfa, 'c, 'v, 'up) shared" where
  "run_prefetch E now P s =
     (let s' = (case pv_resolve E (pf_upstream P) (pf_resolve_query P) of
                  None \<Rightarrow> s
                | Some (resp, _) \<Rightarrow>
                    (let (resp, status) =
                           (case pf_validator P of
                              Some mode \<Rightarrow>
                                apsnd (\<lambda>outcome. validation_status (Some outcome))
                                  (settle (pv_dns E) mode (pv_unix E) (pv_decide E (pf_upstream P) None (pv_unix E) resp) resp)
                            | None \<Rightarrow> (resp\<lparr>ms_authentic_data := False\<rparr>, Unchecked));
                         resp = (if \<not> query_has_do (pf_query P) then strip_dnssec_records resp else resp)
                     in if storable resp
                        then s\<lparr>sh_cache := insert_with_status (pv_dns E) now (pf_query P) resp status (sh_cache s)\<rparr>
                        else s))
      in s'\<lparr>sh_permits := sh_permits s' + 1\<rparr>)"

definition cache_hit_outcome ::
  "('n, 'ac, 'dfa, 'c, 'v, 'up) pipe_env \<Rightarrow> nat \<Rightarrow> ('n, 'v, 'up) request \<Rightarrow> 'n message \<Rightarrow> ('n, 'ac, 'dfa, 'c, 'v, 'up) shared \<Rightarrow> ('n, 'ac, 'dfa, 'c, 'v, 'up) shared \<times> 'n query_outcome \<times> ('n, 'up) prefetch list" where
  "cache_hit_outcome E n R cached s =
     (let D = pv_dns E
      in case (if rq_bypass_check R then anti_doh_blocked_by_answers D (pv_anti_bypass E) R (ms_answers cached) else None) of
           Some outcome \<Rightarrow> (s, outcome, [])
         | None \<Rightarrow>
             (let s = pv_others E n s;
                  refresh = should_prefetch_for_query D (pv_clock E n) (rq_cache_query R) (sh_cache s) \<and> sh_permits s > 0;
                  tasks = (if refresh then [spawn_prefetch D R (sh_dnssec s)] else []);
                  s = (if refresh then s\<lparr>sh_permits := sh_permits s - 1\<rparr> else s);
                  cached = cached\<lparr>ms_id := ms_id (rq_query R)\<rparr>
              in (s,
                  (outcome_of cached (lit ''allowed'') (rq_domain D R) (qu_type (rq_first R)))
                    \<lparr>qo_rule := Some (lit ''cache''), qo_from_cache := True,
                     qo_dnssec := if sh_dnssec s = DnssecOff \<or> \<not> ms_authentic_data cached then None else Some (lit ''secure'')\<rparr>,
                  tasks)))"

text \<open>A hit is checked again against the current rules before it is served.\<close>

definition serve_hit ::
  "('n, 'ac, 'dfa, 'c, 'v, 'up) pipe_env \<Rightarrow> nat \<Rightarrow> ('n, 'v, 'up) request \<Rightarrow> bool \<Rightarrow> 'n message \<Rightarrow> ('n, 'ac, 'dfa, 'c, 'v, 'up) shared \<Rightarrow> (('n, 'ac, 'dfa, 'c, 'v, 'up) shared \<times> 'n query_outcome \<times> ('n, 'up) prefetch list) option" where
  "serve_hit E n R important_allowed cached s =
     do { cloaked \<leftarrow> uncloak E s R important_allowed cached;
          Some (if cloaked then (s, blocked_outcome (pv_dns E) R uncloak_labels, [])
                else cache_hit_outcome E n R cached s) }"


section \<open>Upstream resolution\<close>

definition validate_answer ::
  "('n, 'ac, 'dfa, 'c, 'v, 'up) pipe_env \<Rightarrow> ('n, 'v, 'up) request \<Rightarrow> dnssec_mode \<Rightarrow> rstr \<Rightarrow> 'n message \<Rightarrow> 'n message \<times> validation_outcome option" where
  "validate_answer E R mode upstream_name resp =
     (if rq_validation_active R
      then apsnd Some (settle (pv_dns E) mode (pv_unix E) (pv_decide E (rq_upstream R) (Some upstream_name) (pv_unix E) resp) resp)
      else (resp\<lparr>ms_authentic_data := False\<rparr>, None))"

definition accept_answer ::
  "('n, 'ac, 'dfa, 'c, 'v, 'up) pipe_env \<Rightarrow> ('n, 'v, 'up) request \<Rightarrow> bool \<Rightarrow> rstr \<Rightarrow> 'n message \<Rightarrow> ('n, 'ac, 'dfa, 'c, 'v, 'up) shared \<Rightarrow> (('n, 'ac, 'dfa, 'c, 'v, 'up) shared \<times> 'n query_outcome) option" where
  "accept_answer E R important_allowed upstream_name resp s =
     (let D = pv_dns E; resp = resp\<lparr>ms_id := ms_id (rq_query R)\<rparr>
      in case (if rq_bypass_check R then anti_doh_blocked_by_answers D (pv_anti_bypass E) R (ms_answers resp) else None) of
           Some outcome \<Rightarrow> Some (s, outcome)
         | None \<Rightarrow>
             do { cloaked \<leftarrow> uncloak E s R important_allowed resp;
                  Some (if cloaked then (s, blocked_outcome D R uncloak_labels)
                        else let (resp, validated) = validate_answer E R (sh_dnssec s) upstream_name resp;
                                 s = pv_others E 5 s;
                                 resp = (if \<not> query_has_do (rq_query R) then strip_dnssec_records resp else resp);
                                 s = (if rq_cache_enabled R \<and> storable resp
                                      then s\<lparr>sh_cache := insert_with_status D (pv_clock E 5) (rq_cache_query R) resp
                                                            (validation_status validated) (sh_cache s)\<rparr>
                                      else s)
                             in (s, (outcome_of resp (lit ''allowed'') (rq_domain D R) (qu_type (rq_first R)))
                                      \<lparr>qo_upstream := Some upstream_name, qo_dnssec := map_option outcome_str validated\<rparr>)) })"

definition serve_stale ::
  "('n, 'ac, 'dfa, 'c, 'v, 'up) pipe_env \<Rightarrow> ('n, 'v, 'up) request \<Rightarrow> bool \<Rightarrow> ('n, 'ac, 'dfa, 'c, 'v, 'up) shared \<Rightarrow> (('n, 'ac, 'dfa, 'c, 'v, 'up) shared \<times> 'n query_outcome) option" where
  "serve_stale E R important_allowed s =
     (let D = pv_dns E;
          failure = outcome_servfail D (rq_query R) (rq_domain D R) (qu_type (rq_first R))
      in if \<not> (rq_cache_enabled R \<and> ch_serve_stale_hours (dn_cache (cf_dns (rq_config R))) > 0) then Some (s, failure)
         else let s = pv_others E 6 s;
                  (cache, hit) = get_stale_for_query_with_status D (pv_clock E 6) (rq_cache_query R) (sh_cache s);
                  s = s\<lparr>sh_cache := cache\<rparr>
              in case hit of
                   None \<Rightarrow> Some (s, failure)
                 | Some (resp, status) \<Rightarrow>
                     if \<not> stale_cache_entry_servable status (rq_validation_active R) then Some (s, failure)
                     else case (if rq_bypass_check R then anti_doh_blocked_by_answers D (pv_anti_bypass E) R (ms_answers resp) else None) of
                         Some outcome \<Rightarrow> Some (s, outcome)
                       | None \<Rightarrow>
                           do { cloaked \<leftarrow> uncloak E s R important_allowed resp;
                                Some (s, if cloaked then blocked_outcome D R uncloak_labels
                                         else (outcome_of (resp\<lparr>ms_id := ms_id (rq_query R)\<rparr>) (lit ''allowed'') (rq_domain D R)
                                                 (qu_type (rq_first R)))
                                                \<lparr>qo_rule := Some (lit ''stale_cache''), qo_from_cache := True\<rparr>) })"

definition resolve_upstream ::
  "('n, 'ac, 'dfa, 'c, 'v, 'up) pipe_env \<Rightarrow> ('n, 'v, 'up) request \<Rightarrow> bool \<Rightarrow> ('n, 'ac, 'dfa, 'c, 'v, 'up) shared \<Rightarrow> (('n, 'ac, 'dfa, 'c, 'v, 'up) shared \<times> 'n query_outcome) option" where
  "resolve_upstream E R important_allowed s =
     (let upstream_query = build_upstream_query (pv_dns E) (rq_config R) (rq_mode R \<noteq> DnssecOff) (rq_query R)
      in case pv_resolve E (rq_upstream R) upstream_query of
           Some (resp, upstream_name) \<Rightarrow> accept_answer E R important_allowed upstream_name resp (pv_others E 4 s)
         | None \<Rightarrow> serve_stale E R important_allowed (pv_others E 4 s))"


section \<open>The handler\<close>

text \<open>Cache, single flight and upstream, after the stages let the query pass.  The lock is released
  when the block ends.\<close>

definition release_flight :: "nat option \<Rightarrow> ('n, 'ac, 'dfa, 'c, 'v, 'up) shared \<Rightarrow> ('n, 'ac, 'dfa, 'c, 'v, 'up) shared" where
  "release_flight lock s = (case lock of Some l \<Rightarrow> s\<lparr>sh_flights := drop_guard_ref l (sh_flights s)\<rparr> | None \<Rightarrow> s)"

definition answer_query ::
  "('n, 'ac, 'dfa, 'c, 'v, 'up) pipe_env \<Rightarrow> ('n, 'v, 'up) request \<Rightarrow> bool \<Rightarrow> ('n, 'ac, 'dfa, 'c, 'v, 'up) shared \<Rightarrow> (('n, 'ac, 'dfa, 'c, 'v, 'up) shared \<times> 'n query_outcome \<times> ('n, 'up) prefetch list) option" where
  "answer_query E R important_allowed s =
     (if \<not> rq_cache_enabled R
      then map_option (\<lambda>(s, outcome). (s, outcome, [])) (resolve_upstream E R important_allowed s)
      else case cached_response E (pv_clock E 0) R (pv_others E 0 s) of
          (s, Some cached) \<Rightarrow> serve_hit E 1 R important_allowed cached s
        | (s, None) \<Rightarrow>
            (let (flights, lock) = single_flight_for_query (pv_dns E) (rq_cache_query R) (sh_flights s);
                 s = pv_others E 2 (s\<lparr>sh_flights := flights\<rparr>)
             in case cached_response E (pv_clock E 2) R s of
                  (s, Some cached) \<Rightarrow>
                    map_option (apfst (release_flight lock)) (serve_hit E 3 R important_allowed cached s)
                | (s, None) \<Rightarrow>
                    map_option (\<lambda>(s, outcome). (release_flight lock s, outcome, [])) (resolve_upstream E R important_allowed s)))"

definition execute ::
  "('n, 'ac, 'dfa, 'c, 'v, 'up) pipe_env \<Rightarrow> ('n, 'v, 'up) request \<Rightarrow> ('n, 'ac, 'dfa, 'c, 'v, 'up) shared \<Rightarrow> (('n, 'ac, 'dfa, 'c, 'v, 'up) shared \<times> 'n query_outcome \<times> ('n, 'up) prefetch list) option" where
  "execute E R s =
     do { stage \<leftarrow> decide_stages E s R;
          (case stage of
             Answered outcome \<Rightarrow> Some (s, outcome, [])
           | Continue important_allowed \<Rightarrow> answer_query E R important_allowed s) }"

text \<open>Malformed and unsupported queries\<close>

definition refuse_query :: "'n dns_lib \<Rightarrow> 'n message \<Rightarrow> 'n query_outcome option" where
  "refuse_query D query =
     (case ms_queries query of
        [] \<Rightarrow> Some (outcome_formerr D query)
      | first # _ \<Rightarrow>
          (let domain_str = to_ascii_lowercase (dl_ascii D (qu_name first))
           in if (case ms_edns query of Some e \<Rightarrow> ed_version e > 0 | None \<Rightarrow> False)
              then Some (outcome_badvers D query domain_str (qu_type first))
              else if ms_op_code query \<noteq> opcode_query then Some (outcome_notimp D query domain_str (qu_type first))
              else None))"

record log_entry =
  le_client_ip :: ip_addr
  le_client_name :: "rstr option"
  le_qname :: rstr
  le_qtype :: nat
  le_rcode :: nat
  le_verdict :: rstr
  le_rule :: "rstr option"
  le_list_source :: "rstr option"
  le_upstream :: "rstr option"
  le_dnssec :: "rstr option"
  le_proto :: rstr

definition log_query :: "effective_policy \<Rightarrow> client_context \<Rightarrow> 'n query_outcome \<Rightarrow> log_entry option" where
  "log_query policy client outcome =
     (if \<not> ep_ignore_query_log policy \<and> qo_domain_str outcome \<noteq> []
      then Some \<lparr>le_client_ip = cx_ip client, le_client_name = cx_client_name client,
                 le_qname = (if suffix (lit ''.'') (qo_domain_str outcome) then butlast (qo_domain_str outcome)
                             else qo_domain_str outcome),
                 le_qtype = qo_qtype outcome, le_rcode = ms_rcode (qo_response outcome) mod 256, le_verdict = qo_verdict outcome,
                 le_rule = qo_rule outcome, le_list_source = qo_source outcome, le_upstream = qo_upstream outcome,
                 le_dnssec = qo_dnssec outcome, le_proto = cx_proto client\<rparr>
      else None)"

definition make_request ::
  "('n, 'ac, 'dfa, 'c, 'v, 'up) pipe_env \<Rightarrow> 'n message \<Rightarrow> 'n query \<Rightarrow> client_context \<Rightarrow> effective_policy \<Rightarrow> ('n, 'ac, 'dfa, 'c, 'v, 'up) shared \<Rightarrow> ('n, 'v, 'up) request" where
  "make_request E query first client policy s =
     (let scoped = scoped_upstream policy (sh_scoped s)
      in \<lparr>rq_query = query, rq_first = first, rq_client = client, rq_policy = policy, rq_config = sh_config s,
          rq_upstream = (case scoped of Some up \<Rightarrow> up | None \<Rightarrow> pv_upstream E),
          rq_cache_enabled = (ch_enabled (dn_cache (cf_dns (sh_config s))) \<and> scoped = None),
          rq_mode = sh_dnssec s\<rparr>)"

definition finish_response :: "'n message \<Rightarrow> 'n message \<Rightarrow> 'n message" where
  "finish_response query response =
     (if \<not> (query_has_do query \<or> ms_authentic_data query) then response\<lparr>ms_authentic_data := False\<rparr> else response)"

definition handle ::
  "('n, 'ac, 'dfa, 'c, 'v, 'up) pipe_env \<Rightarrow> 'n message \<Rightarrow> client_context \<Rightarrow> ('n, 'ac, 'dfa, 'c, 'v, 'up) shared \<Rightarrow>
   (('n, 'ac, 'dfa, 'c, 'v, 'up) shared \<times> 'n message \<times> log_entry option \<times> ('n, 'up) prefetch list) option" where
  "handle E query client s =
     (let s = s\<lparr>sh_in_flight := sh_in_flight s + 1\<rparr>;
          (clients, client, policy) = registry_resolve (pv_cron E) (pv_clock E 0) (pv_date E) client (sh_clients s);
          s = s\<lparr>sh_clients := clients\<rparr>
      in do { (s, outcome, tasks) \<leftarrow>
                (case refuse_query (pv_dns E) query of
                   Some outcome \<Rightarrow> Some (s, outcome, [])
                 | None \<Rightarrow> execute E (make_request E query (hd (ms_queries query)) client policy s) s);
              Some (s\<lparr>sh_in_flight := sh_in_flight s - 1\<rparr>, finish_response query (qo_response outcome),
                    log_query policy client outcome, tasks) })"

end
