(* ===== verification/Pipeline_Correct.thy ===== *)
theory Pipeline_Correct
  imports Query_Pipeline Filter_Correct Cache_Correct
begin

text \<open>
  What the query pipeline guarantees, whatever the other tasks do between its await points.

  The locale \<open>shared_invariant\<close> is the contract of an invariant on the shared state: each of the
  updates a handler makes keeps it.  Inside, once for all invariants, every outcome of a handler is
  traced back to where its response came from.  Two instances follow: every cached answer is one the
  pipeline stored, and settings that no other task changes stay what they are.
\<close>

section \<open>Responses made by the pipeline\<close>

lemma copied_flags [simp]: "copy_query_response_flags D q (message_response (ms_id q) (ms_op_code q)) = response_base D q"
  by (simp add: copy_query_response_flags_def response_base_def message_response_def echo_edns_def Let_def split: option.split)

lemma error_response_base: "error_response D q rcode = (response_base D q)\<lparr>ms_rcode := rcode\<rparr>"
  by (simp add: error_response_def copy_query_response_flags_def response_base_def message_response_def echo_edns_def Let_def
      split: option.split)

lemma error_response_echoes [simp]: "echoes D q (error_response D q rcode)"
  by (simp add: error_response_base)

lemma rewrite_response_echoes [simp]: "echoes D q (make_rewrite_response D L q rules (ms_id q))"
  by (simp add: make_rewrite_response_def Let_def split: list.split)

lemma echoes_id [simp]: "echoes D q r \<Longrightarrow> echoes D q (r\<lparr>ms_id := ms_id q\<rparr>)"
  by (simp add: echoes_def)

lemma blocked_response_echoes [simp]: "echoes D q (make_blocked_response D q mode ttl (ms_id q))"
  by (simp add: make_blocked_response_def)

text \<open>None of the records the pipeline makes up is a DNSSEC record.\<close>

abbreviation plain :: "'n rr list \<Rightarrow> bool" where
  "plain rs \<equiv> list_all (\<lambda>r. \<not> is_dnssec_type r) rs"

lemmas dnssec_types = is_dnssec_type_def rr_type_def type_rrsig_def type_nsec_def type_nsec3_def type_dnskey_def type_sig_def type_codes

lemma build_record_plain [simp]: "\<not> is_dnssec_type (build_record T q d)"
  by (simp add: build_record_def dnssec_types split: local_data.split)

lemma built_plain [simp]: "plain (map (\<lambda>r. build_record T q (f r)) rs)"
  by (induction rs) simp_all

lemma wildcard_step_plain: "wildcard_step T client n q t = Records rs \<Longrightarrow> plain rs"
  by (auto simp: wildcard_step_def Let_def split: option.splits if_splits local_data.splits)

lemma lookup_step_plain: "lookup_step T client n q t = Records rs \<Longrightarrow> plain rs"
  by (auto simp: lookup_step_def Let_def wildcard_step_plain split: option.splits if_splits)

lemma lookup_inner_plain: "lookup_inner L T t client q visited d = Some rs \<Longrightarrow> plain rs"
proof (induction L T t client q visited d arbitrary: rs rule: lookup_inner.induct)
  case (1 L T t client q visited d)
  then show ?case
    by (subst (asm) lookup_inner.simps)
      (auto simp: Let_def lookup_step_plain split: if_splits step_result.splits option.splits)
qed

lemma from_rdata_plain [simp]:
  "\<not> is_dnssec_type (from_rdata n t (AData a))" "\<not> is_dnssec_type (from_rdata n t (AaaaData b))"
  "\<not> is_dnssec_type (from_rdata n t (CnameData c))" "\<not> is_dnssec_type (from_rdata n t (PtrData d))"
  "\<not> is_dnssec_type (from_rdata n t (TxtData e))"
  by (simp_all add: from_rdata_def dnssec_types)

lemma plain_concat: "(\<And>x. plain (f x)) \<Longrightarrow> plain (concat (map f xs))"
  by (auto simp: list_all_iff)

lemma sink_plain [simp]: "plain (ms_answers (make_blocked_response D q mode ttl i))"
  by (simp add: make_blocked_response_def synthesize_blocked_response_def Let_def zero_ip_answer_def custom_ip_answer_def
      plain_concat split: blocking_mode.split ip_addr.split)

lemma rewrite_answer_plain: "plain (rewrite_answer L question rule)"
  by (auto simp: rewrite_answer_def rewrite_rdata_def Let_def split: option.splits)

lemma rewrite_response_plain [simp]: "plain (ms_answers (make_rewrite_response D L q rules (ms_id q)))"
  by (simp add: make_rewrite_response_def Let_def plain_concat rewrite_answer_plain split: list.split)

lemmas outcome_defs = outcome_of_def outcome_blocked_def outcome_rewritten_def outcome_error_def outcome_formerr_def
  outcome_notimp_def outcome_badvers_def outcome_servfail_def blocked_outcome_def

text \<open>An outcome the pipeline made up itself\<close>

definition made :: "'n dns_lib \<Rightarrow> 'n message \<Rightarrow> 'n query_outcome \<Rightarrow> bool" where
  "made D query outcome \<longleftrightarrow>
     echoes D query (qo_response outcome) \<and> plain (ms_answers (qo_response outcome)) \<and>
     qo_verdict outcome \<noteq> lit ''allowed'' \<and> \<not> qo_from_cache outcome"

lemma made_blocked [simp]: "made D (rq_query R) (blocked_outcome D R labels)"
  by (simp add: made_def outcome_defs lit_simps)

lemma made_servfail [simp]: "made D q (outcome_servfail D q d t)"
  by (simp add: made_def outcome_defs lit_simps error_response_base)

lemma made_rewritten [simp]: "echoes D q r \<Longrightarrow> plain (ms_answers r) \<Longrightarrow> made D q (outcome_rewritten r d t)"
  by (simp add: made_def outcome_defs lit_simps)

lemma made_refusal: "refuse_query D q = Some outcome \<Longrightarrow> made D q outcome"
  by (auto simp: refuse_query_def made_def outcome_defs Let_def lit_simps error_response_base split: list.splits if_splits)

lemma made_filter_stages:
  "evaluate_filter_stages D L rl R g grp = Some (Some outcome) \<Longrightarrow> made D (rq_query R) outcome"
  by (auto simp: evaluate_filter_stages_def Let_def split: if_splits option.splits verdict.splits bind_splits)

lemma made_important: "important_stage D L R g grp = Some (Answered outcome) \<Longrightarrow> made D (rq_query R) outcome"
  by (auto simp: important_stage_def Let_def split: if_splits option.splits verdict.splits bind_splits)

lemma made_safe_search: "safe_search_outcome D L R = Some outcome \<Longrightarrow> made D (rq_query R) outcome"
  by (auto simp: safe_search_outcome_def synthesize_cname_response_def Let_def
      split: if_splits bind_splits list.split)

lemma made_local: "local_stages D L s R g grp = Some (Answered outcome) \<Longrightarrow> made D (rq_query R) outcome"
  by (auto simp: local_stages_def made_filter_stages made_safe_search rewrite_lookup_def lookup_inner_plain
      synthesize_records_response_def split: option.splits bind_splits)

lemma made_decision: "decide_stages E s R = Some (Answered outcome) \<Longrightarrow> made (pv_dns E) (rq_query R) outcome"
  by (auto simp: decide_stages_def Let_def anti_doh_blocked_by_domain_def made_local made_important
      split: if_splits option.splits bind_splits stage.splits bool.splits)


section \<open>Where a response comes from\<close>

text \<open>An answer of the cache as the pipeline hands it out\<close>

definition shape_hit :: "'n message \<Rightarrow> validation_status \<Rightarrow> 'n message \<Rightarrow> 'n message" where
  "shape_hit query status m =
     (let m = (if \<not> is_secure status then m\<lparr>ms_authentic_data := False\<rparr> else m)
      in if \<not> query_has_do query then strip_dnssec_records m else m)"

definition shape_do :: "'n message \<Rightarrow> 'n message \<Rightarrow> 'n message" where
  "shape_do query m = (if \<not> query_has_do query then strip_dnssec_records m else m)"

text \<open>The two checks every answer passes that the pipeline did not make up\<close>

definition checked :: "('n, 'ac, 'dfa, 'c, 'v, 'up) pipe_env \<Rightarrow> ('n, 'ac, 'dfa, 'c, 'v, 'up) shared \<Rightarrow> ('n, 'v, 'up) request \<Rightarrow> bool \<Rightarrow> 'n message \<Rightarrow> bool" where
  "checked E s R imp m \<longleftrightarrow>
     uncloak E s R imp m = Some False \<and>
     \<not> (rq_bypass_check R \<and> answers_contain_bypass_ip (pv_anti_bypass E) (ms_answers m))"

inductive origin ::
  "('n, 'ac, 'dfa, 'c, 'v, 'up) pipe_env \<Rightarrow> (('n, 'ac, 'dfa, 'c, 'v, 'up) shared \<Rightarrow> bool) \<Rightarrow> ('n, 'v, 'up) request \<Rightarrow> bool \<Rightarrow> 'n query_outcome \<Rightarrow> bool"
  for E I R imp where
  Made: "made (pv_dns E) (rq_query R) outcome \<Longrightarrow> origin E I R imp outcome"
| Hit: "origin E I R imp outcome"
    if "I s" "rq_cache_enabled R"
       "snd (get_for_query_with_status (pv_dns E) now (rq_cache_query R) (sh_cache s)) = Some (m, status)"
       "cache_entry_servable status (rq_validation_active R)"
       "checked E s R imp (shape_hit (rq_query R) status m)"
       "qo_response outcome = (shape_hit (rq_query R) status m)\<lparr>ms_id := ms_id (rq_query R)\<rparr>"
       "qo_verdict outcome = lit ''allowed''" "qo_from_cache outcome"
| Stale: "origin E I R imp outcome"
    if "I s" "rq_cache_enabled R"
       "snd (get_stale_for_query_with_status (pv_dns E) now (rq_cache_query R) (sh_cache s)) = Some (m, status)"
       "stale_cache_entry_servable status (rq_validation_active R)"
       "checked E s R imp m"
       "qo_response outcome = m\<lparr>ms_id := ms_id (rq_query R)\<rparr>"
       "qo_verdict outcome = lit ''allowed''" "qo_from_cache outcome"
| Upstream: "origin E I R imp outcome"
    if "I s"
       "pv_resolve E (rq_upstream R) (build_upstream_query (pv_dns E) (rq_config R) (rq_mode R \<noteq> DnssecOff) (rq_query R)) = Some (m, name)"
       "checked E s R imp (m\<lparr>ms_id := ms_id (rq_query R)\<rparr>)"
       "validate_answer E R (sh_dnssec s) name (m\<lparr>ms_id := ms_id (rq_query R)\<rparr>) = (m', validated)"
       "qo_response outcome = shape_do (rq_query R) m'"
       "qo_verdict outcome = lit ''allowed''" "\<not> qo_from_cache outcome"

text \<open>What the pipeline puts into the cache while the validator is in one of the given modes: a settled
  answer or one that was not validated, shaped for the query it is stored under.\<close>

definition settled :: "('n, 'ac, 'dfa, 'c, 'v, 'up) pipe_env \<Rightarrow> dnssec_mode set \<Rightarrow> 'n message \<Rightarrow> validation_status \<Rightarrow> bool" where
  "settled E modes m status \<longleftrightarrow>
     (status = Unchecked \<and> \<not> ms_authentic_data m) \<or>
     (\<exists>mode\<in>modes. \<exists>up name resp outcome.
        settle (pv_dns E) mode (pv_unix E) (pv_decide E up name (pv_unix E) resp) resp = (m, outcome) \<and>
        status = validation_status (Some outcome))"

definition stored :: "('n, 'ac, 'dfa, 'c, 'v, 'up) pipe_env \<Rightarrow> dnssec_mode set \<Rightarrow> 'n message \<Rightarrow> 'n message \<Rightarrow> validation_status \<Rightarrow> bool" where
  "stored E modes query m status \<longleftrightarrow>
     (\<exists>m0. settled E modes m0 status \<and> m = shape_do query m0) \<and> storable m \<and>
     (ms_checking_disabled query \<longrightarrow> status = Unchecked)"

lemma query_flags_kept [simp]:
  "ms_checking_disabled (rq_cache_query R) = ms_checking_disabled (rq_query R)"
  "query_has_do (rq_cache_query R) = query_has_do (rq_query R)" "ms_queries (rq_cache_query R) = ms_queries (rq_query R)"
  by (simp_all add: rq_cache_query_def build_cache_query_def apply_ecs_policy_def query_has_do_def split: option.split)

lemma shape_do_cache_query [simp]: "shape_do (rq_cache_query R) m = shape_do (rq_query R) m"
  by (simp add: shape_do_def)

lemma shape_do_cd [simp]: "shape_do (q\<lparr>ms_checking_disabled := b\<rparr>) m = shape_do q m"
  by (simp add: shape_do_def query_has_do_def)

lemma uncloak_cong: "sh_filter s = sh_filter s' \<Longrightarrow> sh_lists s = sh_lists s' \<Longrightarrow> uncloak E s R imp m = uncloak E s' R imp m"
proof -
  assume eq: "sh_filter s = sh_filter s'" "sh_lists s = sh_lists s'"
  have "cname_loop E s t c p rs = cname_loop E s' t c p rs" for t c p rs
    by (induction rs) (simp_all add: eq Let_def cong: rdata.case_cong if_cong)
  then show ?thesis by (simp add: uncloak_def cname_target_blocked_def)
qed

lemma checked_cache [simp]: "checked E (s\<lparr>sh_cache := c\<rparr>) R imp m = checked E s R imp m"
  using uncloak_cong [of "s\<lparr>sh_cache := c\<rparr>" s] by (simp add: checked_def)

lemma validated_stored:
  assumes "validate_answer E R mode name resp = (m, validated)" "storable (shape_do (rq_query R) m)" "mode \<in> modes"
  shows "stored E modes (rq_cache_query R) (shape_do (rq_query R) m) (validation_status validated)"
proof -
  have "settled E modes m (validation_status validated)"
    using assms(1,3) unfolding settled_def validate_answer_def
    by (cases "rq_validation_active R") (force simp: validation_status_def apsnd_def map_prod_def split: prod.splits)+
  moreover have "ms_checking_disabled (rq_query R) \<Longrightarrow> validation_status validated = Unchecked"
    using assms(1) by (auto simp: validate_answer_def rq_validation_active_def validation_status_def)
  ultimately show ?thesis using assms(2) unfolding stored_def by auto
qed


text \<open>A spawned refresh ignores the client's CD flag and keeps the validator it was spawned with.\<close>

definition refresh_ok :: "dnssec_mode set \<Rightarrow> ('n, 'up) prefetch \<Rightarrow> bool" where
  "refresh_ok modes P \<longleftrightarrow> \<not> ms_checking_disabled (pf_query P) \<and> (\<forall>mode. pf_validator P = Some mode \<longrightarrow> mode \<in> modes)"


section \<open>Invariants of the shared state\<close>

locale shared_invariant =
  fixes E :: "('n, 'ac, 'dfa, 'c, 'v, 'up) pipe_env"
    and modes :: "dnssec_mode set"
    and I :: "('n, 'ac, 'dfa, 'c, 'v, 'up) shared \<Rightarrow> bool"
  assumes mode: "I s \<Longrightarrow> sh_dnssec s \<in> modes"
    and keep_clients: "I s \<Longrightarrow> I (s\<lparr>sh_clients := clients\<rparr>)"
    and keep_flights: "I s \<Longrightarrow> I (s\<lparr>sh_flights := flights\<rparr>)"
    and keep_in_flight: "I s \<Longrightarrow> I (s\<lparr>sh_in_flight := n\<rparr>)"
    and keep_permits: "I s \<Longrightarrow> I (s\<lparr>sh_permits := n\<rparr>)"
    and keep_lookup: "I s \<Longrightarrow> I (s\<lparr>sh_cache := fst (get_for_query_with_status (pv_dns E) now q (sh_cache s))\<rparr>)"
    and keep_stale: "I s \<Longrightarrow> I (s\<lparr>sh_cache := fst (get_stale_for_query_with_status (pv_dns E) now q (sh_cache s))\<rparr>)"
    and keep_store: "I s \<Longrightarrow> stored E modes q m status \<Longrightarrow>
                      I (s\<lparr>sh_cache := insert_with_status (pv_dns E) now q m status (sh_cache s)\<rparr>)"
begin

lemmas keep = keep_clients keep_flights keep_in_flight keep_permits

lemma release_flight_keeps: "I s \<Longrightarrow> I (release_flight lock s)"
  by (simp add: release_flight_def keep split: option.split)

lemma cached_response_cases:
  assumes "I s" "cached_response E now R s = (s', hit)"
  shows "I s'"
    and "hit = Some cached \<Longrightarrow> \<exists>m status.
           snd (get_for_query_with_status (pv_dns E) now (rq_cache_query R) (sh_cache s)) = Some (m, status) \<and>
           cache_entry_servable status (rq_validation_active R) \<and> cached = shape_hit (rq_query R) status m \<and>
           (\<forall>imp m. checked E s' R imp m = checked E s R imp m)"
proof -
  obtain c h where ch: "get_for_query_with_status (pv_dns E) now (rq_cache_query R) (sh_cache s) = (c, h)" by fastforce
  have s': "s' = s\<lparr>sh_cache := c\<rparr>"
    using assms(2) ch by (auto simp: cached_response_def Let_def split: option.splits if_splits)
  show "I s'" using keep_lookup [OF assms(1), of now "rq_cache_query R"] ch s' by simp
  show "\<exists>m status. snd (get_for_query_with_status (pv_dns E) now (rq_cache_query R) (sh_cache s)) = Some (m, status) \<and>
           cache_entry_servable status (rq_validation_active R) \<and> cached = shape_hit (rq_query R) status m \<and>
           (\<forall>imp m. checked E s' R imp m = checked E s R imp m)" if "hit = Some cached"
  proof -
    from assms(2) ch that obtain m status where h: "h = Some (m, status)"
      by (cases h) (auto simp: cached_response_def)
    with assms(2) ch that have "cache_entry_servable status (rq_validation_active R) \<and> cached = shape_hit (rq_query R) status m"
      by (auto simp: cached_response_def shape_hit_def Let_def split: if_splits)
    with ch h s' show ?thesis by (intro exI [of _ m] exI [of _ status]) simp
  qed
qed


text \<open>In what follows the other tasks keep the invariant as well.\<close>

lemma serve_hit_origin:
  assumes others: "\<And>n s. I s \<Longrightarrow> I (pv_others E n s)" and "I s" "rq_cache_enabled R"
    and hit: "cached_response E now R s = (s', Some cached)"
    and res: "serve_hit E n R imp cached s' = Some (t, outcome, tasks)"
  shows "I t \<and> origin E I R imp outcome \<and> list_all (refresh_ok modes) tasks"
proof -
  note c = cached_response_cases [OF assms(2) hit]
  obtain m status where m: "snd (get_for_query_with_status (pv_dns E) now (rq_cache_query R) (sh_cache s)) = Some (m, status)"
    "cache_entry_servable status (rq_validation_active R)" "cached = shape_hit (rq_query R) status m"
    "\<forall>imp m. checked E s' R imp m = checked E s R imp m"
    using c(2) [OF refl] by blast
  from res obtain cloaked where cl: "uncloak E s' R imp cached = Some cloaked"
    by (auto simp: serve_hit_def split: bind_splits)
  show ?thesis
  proof (cases "cloaked \<or> (rq_bypass_check R \<and> answers_contain_bypass_ip (pv_anti_bypass E) (ms_answers cached))")
    case True
    with res cl c(1) show ?thesis
      by (auto simp: serve_hit_def cache_hit_outcome_def anti_doh_blocked_by_answers_def intro: origin.Made split: if_splits)
  next
    case False
    with cl have ok: "checked E s' R imp cached" by (simp add: checked_def)
    from False res cl have eq: "(t, outcome, tasks) = cache_hit_outcome E n R cached s'" by (simp add: serve_hit_def)
    have "I t" using eq False others [OF c(1)] keep_permits
      by (auto simp: cache_hit_outcome_def anti_doh_blocked_by_answers_def Let_def split: if_splits)
    moreover have "list_all (refresh_ok modes) tasks"
      using eq False mode [OF others [OF c(1), of n]]
      by (auto simp: cache_hit_outcome_def anti_doh_blocked_by_answers_def Let_def refresh_ok_def spawn_prefetch_def split: if_splits)
    moreover have "origin E I R imp outcome"
    proof (rule origin.Hit [where s = s and m = m and status = status and now = now, OF _ _ m(1,2)])
      show "checked E s R imp (shape_hit (rq_query R) status m)" using ok m(3,4) by simp
    qed (use eq False m(3) assms(2,3) in
        \<open>auto simp: cache_hit_outcome_def anti_doh_blocked_by_answers_def outcome_of_def Let_def split: if_splits\<close>)
    ultimately show ?thesis by blast
  qed
qed

lemma accept_answer_origin:
  assumes others: "\<And>n s. I s \<Longrightarrow> I (pv_others E n s)" and "I s"
    and up: "pv_resolve E (rq_upstream R) (build_upstream_query (pv_dns E) (rq_config R) (rq_mode R \<noteq> DnssecOff) (rq_query R)) = Some (m, name)"
    and res: "accept_answer E R imp name m s = Some (t, outcome)"
  shows "I t \<and> origin E I R imp outcome"
proof -
  let ?m = "m\<lparr>ms_id := ms_id (rq_query R)\<rparr>"
  show ?thesis
  proof (cases "checked E s R imp ?m")
    case False
    with res assms(2) show ?thesis
      by (auto simp: accept_answer_def checked_def anti_doh_blocked_by_answers_def Let_def intro: origin.Made
          split: if_splits bind_splits)
  next
    case True
    obtain m' v where v: "validate_answer E R (sh_dnssec s) name ?m = (m', v)" by fastforce
    let ?s = "pv_others E 5 s" and ?r = "shape_do (rq_query R) m'"
    from True res v have t: "t = (if rq_cache_enabled R \<and> storable ?r
        then ?s\<lparr>sh_cache := insert_with_status (pv_dns E) (pv_clock E 5) (rq_cache_query R) ?r (validation_status v) (sh_cache ?s)\<rparr> else ?s)"
      and o: "qo_response outcome = ?r" "qo_verdict outcome = lit ''allowed''" "\<not> qo_from_cache outcome"
      by (auto simp: accept_answer_def checked_def anti_doh_blocked_by_answers_def shape_do_def outcome_of_def Let_def split: if_splits)
    have "I t"
      using t keep_store [OF others [OF assms(2), of 5] validated_stored [OF v _ mode [OF assms(2)]], where now = "pv_clock E 5"] others [OF assms(2), of 5] by simp
    with origin.Upstream [where I = I, OF assms(2) up True v o] show ?thesis by blast
  qed
qed

lemma serve_stale_origin:
  assumes others: "\<And>n s. I s \<Longrightarrow> I (pv_others E n s)" and "I s" and res: "serve_stale E R imp s = Some (t, outcome)"
  shows "I t \<and> origin E I R imp outcome"
proof (cases "rq_cache_enabled R \<and> ch_serve_stale_hours (dn_cache (cf_dns (rq_config R))) > 0")
  case False
  with res assms(2) show ?thesis by (auto simp: serve_stale_def Let_def intro: origin.Made)
next
  case on: True
  let ?s = "pv_others E 6 s"
  obtain c h where ch: "get_stale_for_query_with_status (pv_dns E) (pv_clock E 6) (rq_cache_query R) (sh_cache ?s) = (c, h)" by fastforce
  have It: "I (?s\<lparr>sh_cache := c\<rparr>)" using keep_stale [OF others [OF assms(2), of 6], where now = "pv_clock E 6" and q = "rq_cache_query R"] ch by simp
  have t: "t = ?s\<lparr>sh_cache := c\<rparr>"
    using res on ch by (auto simp: serve_stale_def Let_def split: option.splits if_splits bind_splits)
  show ?thesis
  proof (cases "\<exists>m status. h = Some (m, status) \<and> stale_cache_entry_servable status (rq_validation_active R) \<and> checked E ?s R imp m")
    case False
    with res on ch have "made (pv_dns E) (rq_query R) outcome"
      by (auto simp: serve_stale_def Let_def checked_def anti_doh_blocked_by_answers_def uncloak_cong [of "?s\<lparr>sh_cache := c\<rparr>" ?s]
          split: option.splits if_splits bind_splits)
    with It t show ?thesis by (blast intro: origin.Made)
  next
    case True
    then obtain m status where m: "h = Some (m, status)" "stale_cache_entry_servable status (rq_validation_active R)"
      "checked E ?s R imp m" by blast
    with res on ch have o: "qo_response outcome = m\<lparr>ms_id := ms_id (rq_query R)\<rparr>" "qo_verdict outcome = lit ''allowed''"
      "qo_from_cache outcome"
      by (auto simp: serve_stale_def Let_def checked_def anti_doh_blocked_by_answers_def uncloak_cong [of "?s\<lparr>sh_cache := c\<rparr>" ?s]
          outcome_of_def split: if_splits)
    from on have "rq_cache_enabled R" by simp
    with ch m(1) It t show ?thesis
      using origin.Stale [where now = "pv_clock E 6", OF _ _ _ m(2,3) o] others [OF assms(2), of 6] by simp
  qed
qed

lemma resolve_upstream_origin:
  assumes others: "\<And>n s. I s \<Longrightarrow> I (pv_others E n s)" and "I s" and res: "resolve_upstream E R imp s = Some (t, outcome)"
  shows "I t \<and> origin E I R imp outcome"
  using res accept_answer_origin [OF others others [OF assms(2)]] serve_stale_origin [OF others others [OF assms(2)]]
  by (auto simp: resolve_upstream_def Let_def split: option.splits)

lemma answer_query_origin:
  assumes others: "\<And>n s. I s \<Longrightarrow> I (pv_others E n s)" and "I s"
    and res: "answer_query E R imp s = Some (t, outcome, tasks)"
  shows "I t \<and> origin E I R imp outcome \<and> list_all (refresh_ok modes) tasks"
proof (cases "rq_cache_enabled R")
  case False
  with res resolve_upstream_origin [OF others assms(2)] show ?thesis by (auto simp: answer_query_def)
next
  case on: True
  obtain s1 h1 where c1: "cached_response E (pv_clock E 0) R (pv_others E 0 s) = (s1, h1)" by fastforce
  note k1 = cached_response_cases(1) [OF others [OF assms(2)] c1]
  show ?thesis
  proof (cases h1)
    case (Some cached)
    with res on c1 have "serve_hit E 1 R imp cached s1 = Some (t, outcome, tasks)" by (simp add: answer_query_def)
    with serve_hit_origin [OF others others [OF assms(2)] on c1 [unfolded Some]] show ?thesis by blast
  next
    case None
    obtain fl lock where fl: "single_flight_for_query (pv_dns E) (rq_cache_query R) (sh_flights s1) = (fl, lock)" by fastforce
    let ?s = "pv_others E 2 (s1\<lparr>sh_flights := fl\<rparr>)"
    have k: "I ?s" by (intro others keep_flights k1)
    obtain s2 h2 where c2: "cached_response E (pv_clock E 2) R ?s = (s2, h2)" by fastforce
    note k2 = cached_response_cases(1) [OF k c2]
    show ?thesis
    proof (cases h2)
      case (Some cached)
      with res on c1 None fl c2 obtain t' where t': "serve_hit E 3 R imp cached s2 = Some (t', outcome, tasks)" "t = release_flight lock t'"
        by (auto simp: answer_query_def)
      from serve_hit_origin [OF others k on c2 [unfolded Some] t'(1)] show ?thesis unfolding t'(2) by (simp add: release_flight_keeps)
    next
      case None2: None
      with res on c1 None fl c2 obtain t' where t': "resolve_upstream E R imp s2 = Some (t', outcome)" "t = release_flight lock t'" "tasks = []"
        by (auto simp: answer_query_def)
      from resolve_upstream_origin [OF others k2 t'(1)] show ?thesis unfolding t'(2,3) by (simp add: release_flight_keeps)
    qed
  qed
qed

lemma execute_origin:
  assumes "\<And>n s. I s \<Longrightarrow> I (pv_others E n s)" and "I s" and "execute E R s = Some (t, outcome, tasks)"
  shows "I t \<and> list_all (refresh_ok modes) tasks \<and> (made (pv_dns E) (rq_query R) outcome \<or>
           (\<exists>imp. decide_stages E s R = Some (Continue imp) \<and> origin E I R imp outcome))"
  using assms(3) made_decision [of E s R] answer_query_origin [OF assms(1,2)] assms(2)
  by (auto simp: execute_def split: bind_splits stage.splits)

text \<open>The handler keeps the invariant, and so does a background refresh.\<close>

lemma handle_origin:
  assumes others: "\<And>n s. I s \<Longrightarrow> I (pv_others E n s)" and "I s"
    and res: "handle E query client s = Some (t, response, entry, tasks)"
  shows "I t \<and> list_all (refresh_ok modes) tasks \<and> (\<exists>outcome. response = finish_response query (qo_response outcome) \<and>
           (made (pv_dns E) query outcome \<or> (\<exists>R imp. rq_query R = query \<and> rq_mode R \<in> modes \<and> origin E I R imp outcome)))"
proof -
  obtain cl cx policy where cl: "registry_resolve (pv_cron E) (pv_clock E 0) (pv_date E) client (sh_clients s) = (cl, cx, policy)"
    using prod_cases3 by blast
  let ?s = "s\<lparr>sh_in_flight := sh_in_flight s + 1, sh_clients := cl\<rparr>"
  have k: "I ?s" by (intro keep assms(2))
  show ?thesis
  proof (cases "refuse_query (pv_dns E) query")
    case (Some outcome)
    with res cl k made_refusal [OF Some] keep_clients [OF assms(2)] show ?thesis by (auto simp: handle_def)
  next
    case None
    let ?R = "make_request E query (hd (ms_queries query)) cx policy ?s"
    from res cl None obtain t' outcome where t': "execute E ?R ?s = Some (t', outcome, tasks)"
      "t = t'\<lparr>sh_in_flight := sh_in_flight t' - 1\<rparr>" "response = finish_response query (qo_response outcome)"
      by (auto simp: handle_def Let_def split: bind_splits)
    have q: "rq_query ?R = query" "rq_mode ?R \<in> modes" using mode [OF k] by (simp_all add: make_request_def Let_def)
    note x = execute_origin [OF others k t'(1), unfolded q(1)]
    have "made (pv_dns E) query outcome \<or> (\<exists>R imp. rq_query R = query \<and> rq_mode R \<in> modes \<and> origin E I R imp outcome)" using x q by blast
    with x t'(3) keep_in_flight show ?thesis unfolding t'(2) by blast
  qed
qed

lemma run_prefetch_keeps:
  assumes "I s" "refresh_ok modes P"
  shows "I (run_prefetch E now P s)"
proof -
  have st: "stored E modes (pf_query P) (shape_do (pf_query P) m) status"
    if "settled E modes m status" "storable (shape_do (pf_query P) m)" for m status
    using that assms(2) unfolding stored_def refresh_ok_def by auto
  show ?thesis
  proof (cases "pv_resolve E (pf_upstream P) (pf_resolve_query P)")
    case None
    with assms(1) show ?thesis by (simp add: run_prefetch_def keep_permits)
  next
    case (Some up)
    let ?s = "\<lambda>mode. settle (pv_dns E) mode (pv_unix E) (pv_decide E (pf_upstream P) None (pv_unix E) (fst up)) (fst up)"
    let ?p = "case pf_validator P of Some mode \<Rightarrow> apsnd (\<lambda>outcome. validation_status (Some outcome)) (?s mode)
              | None \<Rightarrow> ((fst up)\<lparr>ms_authentic_data := False\<rparr>, Unchecked)"
    have "settled E modes (fst ?p) (snd ?p)"
    proof (cases "pf_validator P")
      case (Some mode)
      obtain m out where "?s mode = (m, out)" by fastforce
      moreover from Some assms(2) have "mode \<in> modes" by (simp add: refresh_ok_def)
      ultimately show ?thesis using Some unfolding settled_def by simp blast
    qed (simp add: settled_def)
    note keep_store [OF assms(1) st [OF this], where now = now]
    with Some assms(1) show ?thesis
      by (auto simp: run_prefetch_def shape_do_def case_prod_unfold Let_def intro!: keep_permits)
  qed
qed

end


section \<open>Two invariants\<close>

text \<open>The cache has only ever been given what the pipeline stores.\<close>

definition cache_traced :: "dnssec_mode set \<Rightarrow> ('n, 'ac, 'dfa, 'c, 'v, 'up) pipe_env \<Rightarrow> ('n, 'ac, 'dfa, 'c, 'v, 'up) shared \<Rightarrow> bool" where
  "cache_traced modes E s \<longleftrightarrow> sh_dnssec s \<in> modes \<and>
     (\<exists>log. cache_reachable (pv_dns E) log (sh_cache s) \<and> (\<forall>q m status. (q, m, status) \<in> set log \<longrightarrow> stored E modes q m status))"

lemma traced_step:
  assumes "cache_traced modes E s" "cache_step (pv_dns E) (sh_cache s) new c" "\<forall>q m status. (q, m, status) \<in> set new \<longrightarrow> stored E modes q m status"
  shows "cache_traced modes E (s\<lparr>sh_cache := c\<rparr>)"
proof -
  from assms(1) obtain log where l: "cache_reachable (pv_dns E) log (sh_cache s)" "sh_dnssec s \<in> modes"
    "\<forall>q m status. (q, m, status) \<in> set log \<longrightarrow> stored E modes q m status" unfolding cache_traced_def by blast
  have "\<forall>q m status. (q, m, status) \<in> set (new @ log) \<longrightarrow> stored E modes q m status" using assms(3) l(3) by simp
  with reach_cache_step [OF l(1) assms(2)] l(2) show ?thesis unfolding cache_traced_def by (auto simp del: set_append)
qed

interpretation traced: shared_invariant E modes "cache_traced modes E" for E :: "('n, 'ac, 'dfa, 'c, 'v, 'up) pipe_env" and modes
proof
  fix s :: "('n, 'ac, 'dfa, 'c, 'v, 'up) shared" and now q m status
  assume s: "cache_traced modes E s"
  show "cache_traced modes E (s\<lparr>sh_cache := fst (get_for_query_with_status (pv_dns E) now q (sh_cache s))\<rparr>)"
    using traced_step [OF s step_get] s by (simp add: get_for_query_with_status_def split: option.split)
  show "cache_traced modes E (s\<lparr>sh_cache := fst (get_stale_for_query_with_status (pv_dns E) now q (sh_cache s))\<rparr>)"
    using traced_step [OF s step_stale] s by (simp add: get_stale_for_query_with_status_def split: option.split)
  show "cache_traced modes E (s\<lparr>sh_cache := insert_with_status (pv_dns E) now q m status (sh_cache s)\<rparr>)"
    if "stored E modes q m status"
    using traced_step [OF s step_insert] that by simp
qed (simp_all add: cache_traced_def)

text \<open>Rules and lists that no other task replaces\<close>

definition steady :: "('ac, 'dfa) filter_engine \<Rightarrow> runtime_lists \<Rightarrow> ('n, 'ac, 'dfa, 'c, 'v, 'up) shared \<Rightarrow> bool" where
  "steady F rl s \<longleftrightarrow> sh_filter s = F \<and> sh_lists s = rl"

interpretation still: shared_invariant E UNIV "steady F rl" for E :: "('n, 'ac, 'dfa, 'c, 'v, 'up) pipe_env" and F rl
  by unfold_locales (simp_all add: steady_def)

text \<open>What a lookup in a traced cache returns\<close>

definition contents :: "'n rr list \<Rightarrow> ('n \<times> 'n rdata) list" where
  "contents rs = map (\<lambda>r. (rr_name r, rr_data r)) rs"

lemma contents_age [simp]: "contents (age_records el ts rs) = contents rs"
  by (induction el ts rs rule: age_records.induct) (simp_all add: contents_def)

lemma contents_strip: "contents as = contents bs \<Longrightarrow>
   contents (filter (\<lambda>r. \<not> is_dnssec_type r) as) = contents (filter (\<lambda>r. \<not> is_dnssec_type r) bs)"
proof (induction as arbitrary: bs)
  case (Cons a as)
  then obtain b bs' where "bs = b # bs'" "rr_data a = rr_data b" "rr_name a = rr_name b" "contents as = contents bs'"
    by (cases bs) (auto simp: contents_def)
  with Cons.IH [of bs'] show ?case by (simp add: contents_def is_dnssec_type_def rr_type_def)
qed (simp add: contents_def)

lemma strip_simps [simp]:
  "ms_answers (strip_dnssec_records m) = filter (\<lambda>r. \<not> is_dnssec_type r) (ms_answers m)"
  "ms_id (strip_dnssec_records m) = ms_id m" "ms_authentic_data (strip_dnssec_records m) = ms_authentic_data m"
  "ms_rcode (strip_dnssec_records m) = ms_rcode m" "ms_queries (strip_dnssec_records m) = ms_queries m"
  by (simp_all add: strip_dnssec_records_def)

lemma shape_do_simps [simp]:
  "ms_authentic_data (shape_do q m) = ms_authentic_data m" "ms_id (shape_do q m) = ms_id m" "ms_rcode (shape_do q m) = ms_rcode m"
  by (simp_all add: shape_do_def)

lemma shape_hit_ad: "ms_authentic_data (shape_hit q status m) \<longleftrightarrow> is_secure status \<and> ms_authentic_data m"
  by (simp add: shape_hit_def Let_def)

lemma same_key_flags:
  "from_query D a = Some k \<Longrightarrow> from_query D b = Some k \<Longrightarrow>
   query_has_do a = query_has_do b \<and> ms_checking_disabled a = ms_checking_disabled b"
  by (auto simp: from_query_def query_has_do_def split: list.splits option.splits)

lemma traced_entry:
  assumes "cache_traced modes E s" "ca_entries (sh_cache s) k = Some e"
  obtains q where "stored E modes q (en_message e) (en_validation_status e)" "from_query (pv_dns E) q = Some k"
    "\<exists>f. cacheable f (en_message e) \<and> f \<in> set (ms_queries q)"
proof -
  from assms(1) obtain log where l: "cache_reachable (pv_dns E) log (sh_cache s)"
    "\<forall>q m status. (q, m, status) \<in> set log \<longrightarrow> stored E modes q m status" unfolding cache_traced_def by blast
  from reachable_entry [OF l(1) assms(2)] obtain cfg q f where
    "entry_from (pv_dns E) k e cfg q f" "(q, en_message e, en_validation_status e) \<in> set log" .
  with l(2) show thesis by (intro that [of q]) (auto simp: entry_from_def)
qed

lemma traced_hit:
  assumes s: "cache_traced modes E s"
    and hit: "snd (get_for_query_with_status (pv_dns E) now q (sh_cache s)) = Some (m, status)"
  obtains m0 where "settled E modes m0 status" "ms_checking_disabled q \<Longrightarrow> status = Unchecked"
    "contents (ms_answers (shape_hit q status m)) = contents (ms_answers (shape_do q m0))"
    "ms_authentic_data m = ms_authentic_data m0" "ms_rcode m = ms_rcode m0"
proof -
  from hit obtain k c where k: "from_query (pv_dns E) q = Some k" "get_by_key_with_status now k (sh_cache s) = (c, Some (m, status))"
    by (auto simp: get_for_query_with_status_def prod_eq_iff split: option.splits)
  from get_hit [OF k(2)] obtain e where e: "ca_entries (sh_cache s) k = Some e" "status = en_validation_status e"
    and m: "m = (en_message e)
        \<lparr>ms_answers := age_records (elapsed_secs now e) (en_answer_ttls e) (ms_answers (en_message e)),
         ms_authorities := age_records (elapsed_secs now e) (en_authority_ttls e) (ms_authorities (en_message e)),
         ms_additionals := age_records (elapsed_secs now e) (en_additional_ttls e) (ms_additionals (en_message e))\<rparr>" .
  from traced_entry [OF s e(1)] obtain q0 where q0: "stored E modes q0 (en_message e) status" "from_query (pv_dns E) q0 = Some k"
    using e(2) by metis
  then obtain m0 where m0: "settled E modes m0 status" "en_message e = shape_do q0 m0" unfolding stored_def by blast
  note fl = same_key_flags [OF q0(2) k(1)]
  have "contents (ms_answers (shape_hit q status m)) = contents (ms_answers (shape_do q m0))"
  proof (cases "query_has_do q")
    case True
    with fl show ?thesis by (simp add: m m0(2) shape_hit_def shape_do_def Let_def)
  next
    case False
    have "contents (ms_answers m) = contents (filter (\<lambda>r. \<not> is_dnssec_type r) (ms_answers m0))"
      using False fl by (simp add: m m0(2) shape_do_def)
    from contents_strip [OF this] False show ?thesis by (simp add: shape_hit_def shape_do_def Let_def)
  qed
  moreover have "ms_checking_disabled q \<Longrightarrow> status = Unchecked" using q0(1) fl unfolding stored_def by simp
  ultimately show thesis using that [OF m0(1)] by (simp add: m m0(2))
qed

lemma traced_stale:
  assumes s: "cache_traced modes E s"
    and hit: "snd (get_stale_for_query_with_status (pv_dns E) now q (sh_cache s)) = Some (m, status)"
  obtains m0 where "settled E modes m0 status" "set (contents (ms_answers m)) \<subseteq> set (contents (ms_answers m0))"
proof -
  from hit obtain k e where e: "ca_entries (sh_cache s) k = Some e" "status = en_validation_status e"
    and m: "m = set_ttls stale_serve_ttl (clear_dnssec_material (pv_dns E) (en_message e))"
    by (auto simp: get_stale_for_query_with_status_def get_stale_by_key_def split: option.splits if_splits)
  from traced_entry [OF s e(1)] obtain q0 where "stored E modes q0 (en_message e) status" using e(2) by metis
  then obtain m0 where m0: "settled E modes m0 status" "en_message e = shape_do q0 m0" unfolding stored_def by blast
  have "set (contents (ms_answers m)) \<subseteq> set (contents (ms_answers (en_message e)))"
    by (auto simp: m set_ttls_def clear_dnssec_material_def contents_def Let_def)
  also have "\<dots> \<subseteq> set (contents (ms_answers m0))" by (auto simp: m0(2) shape_do_def contents_def)
  finally show thesis using that m0(1) by blast
qed

lemma settle_secure: "settle D mode now dec m = (m', OSecure) \<Longrightarrow> mode \<noteq> DnssecOff \<and> fst dec = OSecure"
  by (auto simp: settle_def secure_outcome_def handle_bogus_def Let_def split: if_splits prod.splits validation_outcome.splits
      dnssec_mode.splits)

lemma validation_status_inv: "validation_status (Some out) = Secure \<longleftrightarrow> out = OSecure" "validation_status (Some out) \<noteq> Unchecked"
  by (auto simp: validation_status_def split: validation_outcome.splits)

lemma settled_secure:
  assumes "settled E modes m Secure"
  obtains mode up name resp where "mode \<in> modes" "mode \<noteq> DnssecOff" "fst (pv_decide E up name (pv_unix E) resp) = OSecure"
    "m = fst (settle (pv_dns E) mode (pv_unix E) (pv_decide E up name (pv_unix E) resp) resp)"
proof -
  from assms obtain mode up name resp out where o: "mode \<in> modes"
    "settle (pv_dns E) mode (pv_unix E) (pv_decide E up name (pv_unix E) resp) resp = (m, out)" "validation_status (Some out) = Secure"
    unfolding settled_def by auto
  then have "settle (pv_dns E) mode (pv_unix E) (pv_decide E up name (pv_unix E) resp) resp = (m, OSecure)"
    by (simp add: validation_status_inv)
  with settle_secure [OF this] o(1) that show thesis by force
qed

lemma validate_settled:
  assumes "validate_answer E R mode name m = (m', validated)" "mode \<in> modes"
  shows "settled E modes m' (validation_status validated)" "rq_validation_active R \<Longrightarrow> validation_status validated \<noteq> Unchecked"
    "\<not> rq_validation_active R \<Longrightarrow> \<not> ms_authentic_data m'" "ms_authentic_data m' \<Longrightarrow> validation_status validated = Secure"
    "ms_id m' = ms_id m"
proof -
  show "settled E modes m' (validation_status validated)"
    using assms unfolding settled_def validate_answer_def
    by (cases "rq_validation_active R") (force simp: validation_status_def apsnd_def map_prod_def split: prod.splits)+
  let ?p = "settle (pv_dns E) mode (pv_unix E) (pv_decide E (rq_upstream R) (Some name) (pv_unix E) m) m"
  show "rq_validation_active R \<Longrightarrow> validation_status validated \<noteq> Unchecked" "\<not> rq_validation_active R \<Longrightarrow> \<not> ms_authentic_data m'"
    using assms(1) by (auto simp: validate_answer_def validation_status_inv apsnd_def map_prod_def split: prod.splits)
  show "ms_authentic_data m' \<Longrightarrow> validation_status validated = Secure"
    using assms(1) settle_ad [of "pv_dns E" mode "pv_unix E" "pv_decide E (rq_upstream R) (Some name) (pv_unix E) m" m]
    by (cases ?p) (auto simp: validate_answer_def validation_status_inv split: if_splits)
  show "ms_id m' = ms_id m"
    using assms(1) settle_keeps(1) [of "pv_dns E" mode "pv_unix E" "pv_decide E (rq_upstream R) (Some name) (pv_unix E) m" m]
    by (cases ?p) (auto simp: validate_answer_def split: if_splits)
qed


section \<open>Never a panic\<close>

text \<open>A snapshot whose candidates can always be collected and name existing rules\<close>

definition scan_total :: "('ac, 'dfa) matchers \<Rightarrow> ('ac, 'dfa) filter_snapshot \<Rightarrow> bool" where
  "scan_total M s \<longleftrightarrow>
     (\<forall>d. \<exists>a b. snapshot_candidates M s d = Some (a, b) \<and> list_all (\<lambda>i. i < length (fs_rules s)) (a @ b))"

lemma compiled_scan_total:
  assumes "engines_ok M rm" "snapshot_rep M s rs" "rules_fit rs"
  shows "scan_total M s"
  using snapshot_candidates_hits [OF assms] assms(2)
  unfolding scan_total_def snapshot_rep_def by (fastforce simp: hits_def list_all_iff)

definition scanned_ok :: "('ac, 'dfa) scanned \<Rightarrow> bool" where
  "scanned_ok x \<longleftrightarrow> (case x of (s, a, b) \<Rightarrow> list_all (\<lambda>i. i < length (fs_rules s)) (a @ b))"

lemma scan_some:
  assumes "scan_total M s"
  shows "\<exists>x. scan M s d = Some x \<and> scanned_ok x"
proof -
  from assms obtain a b where "snapshot_candidates M s d = Some (a, b)" "list_all (\<lambda>i. i < length (fs_rules s)) (a @ b)"
    unfolding scan_total_def by blast
  then show ?thesis by (simp add: scan_def scanned_ok_def)
qed

lemma loops_total:
  assumes "list_all (\<lambda>i. i < length rules) js"
  shows "allow_loop rules imp d t c js \<noteq> None" "block_loop rules imp d t c js \<noteq> None" "rewrite_loop rules imp d t c js \<noteq> None"
  using assms by (induction js) (auto simp: idx_def)

lemma evaluations_total:
  assumes "scanned_ok (s, a, b)"
  shows "evaluate_important_candidates s d t c a b \<noteq> None" "evaluate_standard_candidates s d t c a b \<noteq> None"
    "collect_rewrite_rules s d t c b imp \<noteq> None" "collect_rewrite_cancellations s d t c a imp \<noteq> None"
proof -
  have "list_all (\<lambda>i. i < length (fs_rules s)) a" "list_all (\<lambda>i. i < length (fs_rules s)) b"
    using assms by (simp_all add: scanned_ok_def)
  note l = loops_total [OF this(1)] loops_total [OF this(2)]
  show "evaluate_important_candidates s d t c a b \<noteq> None" "evaluate_standard_candidates s d t c a b \<noteq> None"
    "collect_rewrite_rules s d t c b imp \<noteq> None" "collect_rewrite_cancellations s d t c a imp \<noteq> None"
    using l by (auto simp: evaluate_important_candidates_def evaluate_standard_candidates_def
      evaluate_standard_allow_candidates_def evaluate_standard_block_candidates_def collect_rewrite_rules_def
      collect_rewrite_cancellations_def split: option.split bind_splits)
qed


lemma verdicts_total:
  assumes "pred_option scanned_ok global" "pred_option scanned_ok grp"
  shows "important_verdict global grp d t c \<noteq> None" "global = Some g \<Longrightarrow> standard_verdict g grp d t c \<noteq> None"
proof -
  have i: "(case x of (s, a, b) \<Rightarrow> evaluate_important_candidates s d t c a b) \<noteq> None"
    and e: "(case x of (s, a, b) \<Rightarrow> evaluate_standard_candidates s d t c a b) \<noteq> None" if "scanned_ok x" for x
    using evaluations_total(1,2) [of "fst x" "fst (snd x)" "snd (snd x)"] that by (simp_all add: case_prod_unfold)
  show "important_verdict global grp d t c \<noteq> None"
    using assms i [of "the global"] i [of "the grp"]
    by (cases global; cases grp) (auto simp: important_verdict_def split: option.split)
  show "standard_verdict g grp d t c \<noteq> None" if "global = Some g"
    using assms e [of g] e [of "the grp"] that by (cases grp) (auto simp: standard_verdict_def)
qed

lemma rewrite_sets_total: "list_all scanned_ok sets \<Longrightarrow> rewrite_sets sets d t c imp \<noteq> None"
proof (induction sets)
  case (Cons x sets)
  obtain s a b where x: "x = (s, a, b)" using prod_cases3 by blast
  from Cons.prems x have ok: "scanned_ok (s, a, b)" "list_all scanned_ok sets" by simp_all
  note e = evaluations_total(3) [OF ok(1), of d t c imp] evaluations_total(4) [OF ok(1), of d t c False]
    evaluations_total(4) [OF ok(1), of d t c True]
  from Cons.IH [OF ok(2)] e x show ?case by auto
qed simp

lemma rewrites_total:
  assumes "pred_option scanned_ok global" "pred_option scanned_ok grp"
  shows "effective_rewrites puny ((case global of Some g \<Rightarrow> [g] | None \<Rightarrow> []) @ (case grp of Some g \<Rightarrow> [g] | None \<Rightarrow> [])) d t c imp \<noteq> None"
proof -
  have "list_all scanned_ok ((case global of Some g \<Rightarrow> [g] | None \<Rightarrow> []) @ (case grp of Some g \<Rightarrow> [g] | None \<Rightarrow> []))"
    using assms by (auto split: option.split)
  from rewrite_sets_total [OF this] show ?thesis by (simp add: effective_rewrites_def)
qed

text \<open>Every snapshot of an engine can be scanned.\<close>

definition filter_total :: "('ac, 'dfa) matchers \<Rightarrow> ('ac, 'dfa) filter_engine \<Rightarrow> bool" where
  "filter_total M F \<longleftrightarrow> scan_total M (he_snapshot F) \<and> (\<forall>name s. he_group_snapshots F name = Some s \<longrightarrow> scan_total M s)"

lemma scan_group_total:
  assumes "filter_total M F"
  shows "\<exists>x. scan_group M F policy d = Some x \<and> pred_option scanned_ok x"
proof (cases "(ep_lists policy \<noteq> [] \<or> ep_custom_rules policy \<noteq> []) \<and> group_snapshot F (ep_group_name policy) \<noteq> None")
  case True
  then obtain s where s: "group_snapshot F (ep_group_name policy) = Some s" by blast
  with assms have "scan_total M s" by (auto simp: filter_total_def group_snapshot_def)
  from scan_some [OF this, of d] True s show ?thesis by (auto simp: scan_group_def)
qed (auto simp: scan_group_def split: option.split)

lemma important_stage_total:
  assumes "pred_option scanned_ok global" "pred_option scanned_ok grp"
  shows "important_stage D L R global grp \<noteq> None"
  using verdicts_total(1) [OF assms, of "pipeline_query_domain D (qu_name (rq_first R))" "qu_type (rq_first R)" "rq_client R"]
    rewrites_total [OF assms, of "dl_puny D" "pipeline_query_domain D (qu_name (rq_first R))" "qu_type (rq_first R)" "rq_client R" True]
  by (auto simp: important_stage_def Let_def split: bind_splits option.split verdict.split)

lemma filter_stages_total:
  assumes "scanned_ok g" "pred_option scanned_ok grp"
  shows "evaluate_filter_stages D L rl R g grp \<noteq> None"
  using verdicts_total(2) [of "Some g" grp g "pipeline_query_domain D (qu_name (rq_first R))" "qu_type (rq_first R)" "rq_client R"]
    rewrites_total [of "Some g" grp "dl_puny D" "pipeline_query_domain D (qu_name (rq_first R))" "qu_type (rq_first R)" "rq_client R" False] assms
  by (auto simp: evaluate_filter_stages_def Let_def split: bind_splits option.split verdict.split)

lemma local_stages_total:
  assumes "pred_option scanned_ok global" "pred_option scanned_ok grp"
  shows "local_stages D L s R global grp \<noteq> None"
  using filter_stages_total [of "the global" grp D L "sh_lists s" R] assms
  by (cases global) (auto simp: local_stages_def split: bind_splits option.split)

lemma decide_stages_total:
  assumes "filter_total (pv_matchers E) (sh_filter s)"
  shows "decide_stages E s R \<noteq> None"
proof -
  let ?d = "pipeline_query_domain (pv_dns E) (qu_name (rq_first R))"
  obtain g where g: "(if rq_filtering_active R then map_option Some (scan (pv_matchers E) (he_snapshot (sh_filter s)) ?d) else Some None) = Some g"
    "pred_option scanned_ok g"
    using scan_some [of "pv_matchers E" "he_snapshot (sh_filter s)" ?d] assms unfolding filter_total_def by (cases "rq_filtering_active R") auto
  obtain x where x: "(if rq_filtering_active R then scan_group (pv_matchers E) (sh_filter s) (rq_policy R) ?d else Some None) = Some x"
    "pred_option scanned_ok x"
    using scan_group_total [OF assms] by (cases "rq_filtering_active R") auto
  note t = important_stage_total [OF g(2) x(2), of "pv_dns E" "pv_names E" R] local_stages_total [OF g(2) x(2), of "pv_dns E" "pv_names E" s R]
  show ?thesis unfolding decide_stages_def Let_def g(1) x(1) using t by (auto split: bind_splits option.split stage.split bool.split)
qed

lemma cname_loop_total:
  assumes "filter_total (pv_matchers E) (sh_filter s)"
  shows "cname_loop E s t c policy rs \<noteq> None"
proof (induction rs)
  case (Cons r rs)
  show ?case
  proof (cases "\<exists>target. rr_data r = CnameData target")
    case True
    then obtain target where r: "rr_data r = CnameData target" by blast
    let ?d = "pipeline_query_domain (pv_dns E) target"
    obtain g where g: "scan (pv_matchers E) (he_snapshot (sh_filter s)) ?d = Some g" "scanned_ok g"
      using scan_some assms unfolding filter_total_def by blast
    obtain x where x: "scan_group (pv_matchers E) (sh_filter s) policy ?d = Some x" "pred_option scanned_ok x"
      using scan_group_total [OF assms] by blast
    from verdicts_total(1) [of "Some g" x ?d t c] verdicts_total(2) [of "Some g" x g ?d t c] g(2) x(2) obtain v w where
      "important_verdict (Some g) x ?d t c = Some v" "standard_verdict g x ?d t c = Some w" by auto
    with Cons r g(1) x(1) show ?thesis by (simp add: Let_def del: not_None_eq)
  next
    case False
    with Cons show ?thesis by (cases "rr_data r") auto
  qed
qed simp

lemma uncloak_total:
  assumes "filter_total (pv_matchers E) (sh_filter s)"
  obtains cloaked where "uncloak E s R imp m = Some cloaked"
proof -
  from cname_loop_total [OF assms] obtain b where "cname_loop E s (qu_type (rq_first R)) (rq_client R) (rq_policy R) (ms_answers m) = Some b"
    by blast
  then have "uncloak E s R imp m \<noteq> None" by (simp add: uncloak_def cname_target_blocked_def del: not_None_eq)
  with that show thesis by blast
qed

text \<open>An invariant under which no evaluation panics\<close>

locale total_invariant = shared_invariant +
  assumes total: "I s \<Longrightarrow> filter_total (pv_matchers E) (sh_filter s)"
begin

lemma serve_hit_total:
  assumes "I s"
  shows "serve_hit E n R imp cached s \<noteq> None"
proof -
  obtain cloaked where "uncloak E s R imp cached = Some cloaked" by (rule uncloak_total [OF total [OF assms]])
  then show ?thesis by (simp add: serve_hit_def split_paired_Ex del: not_None_eq)
qed

lemma resolve_upstream_total:
  assumes others: "\<And>n s. I s \<Longrightarrow> I (pv_others E n s)" and "I s"
  shows "resolve_upstream E R imp s \<noteq> None"
proof -
  have a: "accept_answer E R imp name m s \<noteq> None" if "I s" for name m s
  proof -
    note k = that
    obtain cloaked where "uncloak E s R imp (m\<lparr>ms_id := ms_id (rq_query R)\<rparr>) = Some cloaked" by (rule uncloak_total [OF total [OF k]])
    then show ?thesis by (simp add: accept_answer_def Let_def del: not_None_eq split: option.split)
  qed
  have b: "serve_stale E R imp s \<noteq> None" if "I s" for s
  proof -
    obtain c h where ch: "get_stale_for_query_with_status (pv_dns E) (pv_clock E 6) (rq_cache_query R) (sh_cache (pv_others E 6 s)) = (c, h)"
      by fastforce
    have k: "I ((pv_others E 6 s)\<lparr>sh_cache := c\<rparr>)"
      using keep_stale [OF others [OF that, of 6], where now = "pv_clock E 6" and q = "rq_cache_query R"] ch by simp
    obtain cloaked where "uncloak E ((pv_others E 6 s)\<lparr>sh_cache := c\<rparr>) R imp (fst (the h)) = Some cloaked"
      by (rule uncloak_total [OF total [OF k]])
    with ch show ?thesis by (cases h) (auto simp: serve_stale_def Let_def split: option.split)
  qed
  from a b others [OF assms(2)] show ?thesis by (auto simp: resolve_upstream_def Let_def split: option.split)
qed

lemma answer_query_total:
  assumes others: "\<And>n s. I s \<Longrightarrow> I (pv_others E n s)" and "I s"
  shows "answer_query E R imp s \<noteq> None"
proof (cases "rq_cache_enabled R")
  case False
  with resolve_upstream_total [OF assms] show ?thesis by (simp add: answer_query_def)
next
  case on: True
  obtain s1 h1 where c1: "cached_response E (pv_clock E 0) R (pv_others E 0 s) = (s1, h1)" by fastforce
  note k1 = cached_response_cases(1) [OF others [OF assms(2)] c1]
  obtain fl lock where fl: "single_flight_for_query (pv_dns E) (rq_cache_query R) (sh_flights s1) = (fl, lock)" by fastforce
  let ?s = "pv_others E 2 (s1\<lparr>sh_flights := fl\<rparr>)"
  have k: "I ?s" by (intro others keep_flights k1)
  obtain s2 h2 where c2: "cached_response E (pv_clock E 2) R ?s = (s2, h2)" by fastforce
  note k2 = cached_response_cases(1) [OF k c2]
  show ?thesis
    using on c1 fl c2 serve_hit_total [OF k1, of 1 R imp] serve_hit_total [OF k2, of 3 R imp] resolve_upstream_total [OF others k2, of R imp]
    by (cases h1; cases h2) (auto simp: answer_query_def)
qed

lemma handle_total:
  assumes others: "\<And>n s. I s \<Longrightarrow> I (pv_others E n s)" and "I s"
  shows "handle E query client s \<noteq> None"
proof -
  obtain cl cx policy where cl: "registry_resolve (pv_cron E) (pv_clock E 0) (pv_date E) client (sh_clients s) = (cl, cx, policy)"
    using prod_cases3 by blast
  let ?s = "s\<lparr>sh_in_flight := sh_in_flight s + 1, sh_clients := cl\<rparr>"
  have k: "I ?s" by (intro keep assms(2))
  let ?R = "make_request E query (hd (ms_queries query)) cx policy ?s"
  from decide_stages_total [OF total [OF k], of ?R] obtain st where "decide_stages E ?s ?R = Some st" by blast
  then have "execute E ?R ?s \<noteq> None"
    using answer_query_total [OF others k, of ?R] by (cases st) (simp_all add: execute_def del: not_None_eq)
  with cl show ?thesis by (auto simp: handle_def Let_def split: option.split)
qed

end

interpretation sound: total_invariant E UNIV "\<lambda>s. filter_total (pv_matchers E) (sh_filter s)" for E :: "('n, 'ac, 'dfa, 'c, 'v, 'up) pipe_env"
  by unfold_locales simp_all

end
