(* ===== verification/Pipeline_Properties.thy ===== *)
theory Pipeline_Properties
  imports Pipeline_Correct
begin

text \<open>
  The properties of the query pipeline.  Where a property needs the other tasks to keep something
  (the cache traced, the rules in place, the mode unchanged), that is a premise on \<open>pv_others\<close>.
\<close>

section \<open>Helper lemmas\<close>

lemma finish_ad: "ms_authentic_data (finish_response q r) \<Longrightarrow> ms_authentic_data r \<and> (query_has_do q \<or> ms_authentic_data q)"
  by (auto simp: finish_response_def split: if_splits)

lemma finish_simps [simp]:
  "ms_answers (finish_response q r) = ms_answers r" "ms_authorities (finish_response q r) = ms_authorities r"
  "ms_additionals (finish_response q r) = ms_additionals r" "ms_id (finish_response q r) = ms_id r"
  by (simp_all add: finish_response_def)

lemma stale_no_ad:
  assumes "snd (get_stale_for_query_with_status D now q c) = Some (m, status)"
  shows "\<not> ms_authentic_data m" "list_all (\<lambda>r. \<not> dl_is_dnssec D (rr_type r)) (all_records m)"
proof -
  from assms obtain k e where "ca_entries c k = Some e" "m = set_ttls stale_serve_ttl (clear_dnssec_material D (en_message e))"
    by (auto simp: get_stale_for_query_with_status_def get_stale_by_key_def split: option.splits if_splits)
  moreover have "rr_type (r\<lparr>rr_ttl := t\<rparr>) = rr_type r" for r :: "'a rr" and t by (simp add: rr_type_def)
  ultimately show "\<not> ms_authentic_data m" "list_all (\<lambda>r. \<not> dl_is_dnssec D (rr_type r)) (all_records m)"
    by (auto simp: set_ttls_def clear_dnssec_material_def Let_def all_records_def list_all_iff)
qed

text \<open>An authenticated outcome goes back to a decision that the answer is secure.\<close>

lemma origin_ad:
  assumes "origin E (cache_traced modes E) R imp outcome" "ms_authentic_data (qo_response outcome)"
  shows "\<not> ms_checking_disabled (rq_query R) \<and>
    (\<exists>m. settled E modes m Secure \<and>
       contents (ms_answers (qo_response outcome)) = contents (ms_answers (shape_do (rq_query R) m)))"
  using assms(1)
proof cases
  case Made
  with assms(2) show ?thesis by (simp add: made_def echoes_def)
next
  case (Hit s now m status)
  from traced_hit [OF Hit(1,3)] obtain m0 where m0: "settled E modes m0 status"
    "ms_checking_disabled (rq_cache_query R) \<Longrightarrow> status = Unchecked"
    "contents (ms_answers (shape_hit (rq_cache_query R) status m)) = contents (ms_answers (shape_do (rq_cache_query R) m0))"
    by blast
  have sec: "status = Secure" using assms(2) Hit(6) by (auto simp: shape_hit_ad is_secure_def split: validation_status.splits)
  have "shape_hit (rq_cache_query R) status m = shape_hit (rq_query R) status m" by (simp add: shape_hit_def)
  with m0 sec Hit(6) show ?thesis by auto
next
  case (Stale s now m status)
  with assms(2) stale_no_ad(1) [OF Stale(3)] show ?thesis by simp
next
  case (Upstream s m name m' validated)
  have "sh_dnssec s \<in> modes" using Upstream(1) by (simp add: cache_traced_def)
  note v = validate_settled [OF Upstream(4) this]
  have ad: "ms_authentic_data m'" using assms(2) Upstream(5) by simp
  with v(3) have "rq_validation_active R" by blast
  with v(1) v(4) [OF ad] Upstream(5) show ?thesis by (auto simp: rq_validation_active_def)
qed

interpretation free: shared_invariant E UNIV "\<lambda>_. True" for E :: "('n, 'ac, 'dfa, 'c, 'v, 'up) pipe_env"
  by unfold_locales simp_all

lemma origin_id: "origin E I R imp outcome \<Longrightarrow> ms_id (qo_response outcome) = ms_id (rq_query R)"
proof (induction rule: origin.induct)
  case (Upstream s m name m' validated outcome)
  from validate_settled(5) [OF Upstream(4) UNIV_I] Upstream(5) show ?case by simp
qed (simp_all add: made_def echoes_def)

section \<open>An example\<close>

text \<open>One rule, an empty cache, an upstream that answers every question with one address, and a validator that
  finds it secure\<close>

definition demo_dns :: "rstr dns_lib" where
  "demo_dns = sample_dns\<lparr>dl_is_dnssec := (\<lambda>t. t \<in> {type_sig, type_rrsig, type_nsec, type_nsec3, type_dnskey})\<rparr>"

definition demo_query :: "rstr message" where
  "demo_query = sample_query\<lparr>ms_edns := Some \<lparr>ed_version = 0, ed_max_payload = 1232, ed_dnssec_ok = True, ed_subnet = None, ed_options = []\<rparr>\<rparr>"

definition demo_env :: "(rstr, rstr list, rstr list, unit, unit, unit) pipe_env" where
  "demo_env = \<lparr>pv_dns = demo_dns,
     pv_names = \<lparr>nl_from_str = Some, nl_ascii = id, nl_display = id, nl_puny = (\<lambda>_. None), nl_idna = Some\<rparr>,
     pv_matchers = scan_matchers (=) (\<lambda>_. True), pv_cron = (\<lambda>_ _. None), pv_anti_bypass = anti_bypass_empty, pv_upstream = (),
     pv_resolve = (\<lambda>_ q. Some (sample_response\<lparr>ms_queries := ms_queries q\<rparr>, lit ''up'')), pv_decide = (\<lambda>_ _ _ _. (OSecure, [])),
     pv_others = (\<lambda>_ s. s), pv_clock = (\<lambda>_. 0), pv_unix = 0, pv_date = (0, 0)\<rparr>"

definition demo_rules :: "rule list" where
  "demo_rules = fst (parse_rules (\<lambda>_. None) (\<lambda>_. None) (lit ''||ads.example^'') (lit ''l''))"

definition demo_snapshot :: "(rstr list, rstr list) filter_snapshot" where
  "demo_snapshot = the (snapshot_compile (scan_matchers (=) (\<lambda>_. True)) demo_rules)"

definition demo_shared :: "(rstr, rstr list, rstr list, unit, unit, unit) shared" where
  "demo_shared = \<lparr>sh_config = config_default,
     sh_clients = registry_new \<lparr>cs_entries = [], cs_groups = (\<lambda>_. None), cs_client_id_secrets = (\<lambda>_. None), cs_trust_routeros_lease_names = False\<rparr>,
     sh_rewrites = rewrite_table_default, sh_filter = (engine_new filtering_config_default)\<lparr>he_snapshot := demo_snapshot\<rparr>,
     sh_lists = \<lparr>rl_parental = parental_empty, rl_services = services_empty, rl_statuses = (\<lambda>_. None)\<rparr>,
     sh_cache = cache_new cache_config_default, sh_flights = flights_new, sh_dnssec = Validate, sh_scoped = (\<lambda>_. None),
     sh_in_flight = 0, sh_permits = 64\<rparr>"


lemma demo_answer:
  "map_option (\<lambda>(_, r, _, ts). (ms_authentic_data r, length (ms_answers r), ms_rcode r, length ts))
     (handle demo_env demo_query (ctx_new (V4 1)) demo_shared) = Some (True, 1, 0, 0)"
  by code_simp

lemma demo_handle:
  obtains t r entry where "handle demo_env demo_query (ctx_new (V4 1)) demo_shared = Some (t, r, entry, [])"
    "ms_authentic_data r" "length (ms_answers r) = 1"
  using demo_answer by (auto split: option.splits)

lemma demo_others [simp]: "pv_others demo_env n s = s"
  by (simp add: demo_env_def)

lemma demo_traced: "Validate \<in> modes \<Longrightarrow> cache_traced modes demo_env demo_shared"
proof -
  have "cache_reachable (pv_dns demo_env) [] (sh_cache demo_shared)"
    unfolding demo_shared_def by (simp, rule reach_cache_new) (simp add: cache_config_u32_def cache_config_default_def)
  then show "Validate \<in> modes \<Longrightarrow> ?thesis" unfolding cache_traced_def by (force simp: demo_shared_def)
qed


lemma demo_filter_total: "filter_total (pv_matchers demo_env) (sh_filter demo_shared)"
proof -
  have fit: "rules_fit demo_rules" by code_simp
  obtain res where r: "compile_inner (pv_matchers demo_env) demo_rules None 0 = Some res" "\<not> isl res"
    "\<forall>s. res = Inr s \<longrightarrow> snapshot_rep (pv_matchers demo_env) s (active_rules demo_rules)"
    using compile_inner_rep [OF fit, of "pv_matchers demo_env" None 0] by blast
  then obtain sn where "res = Inr sn" by (cases res) auto
  with r(1,3) have "compile_inner (pv_matchers demo_env) demo_rules None 0 = Some (Inr sn)"
    "snapshot_rep (pv_matchers demo_env) sn (active_rules demo_rules)" by simp_all
  then have "snapshot_rep (pv_matchers demo_env) demo_snapshot (active_rules demo_rules)"
    by (simp add: demo_snapshot_def snapshot_compile_def compile_with_budget_def demo_env_def)
  from compiled_scan_total [OF _ this active_rules_fit [OF fit]] engines_ok_scan show ?thesis
    by (auto simp: filter_total_def demo_shared_def engine_new_def demo_env_def)
qed

lemma demo_total: "handle demo_env sample_query (ctx_new (V4 1)) demo_shared \<noteq> None"
  by (rule sound.handle_total) (simp_all add: demo_filter_total)


section \<open>Properties\<close>

text \<open>C4: a response carries the AD flag only if the client asked for it (DO or AD), did
  not disable checking, and the answer is one that the validator decided to be secure, now or when it was
  stored; only TTLs may have changed since.\<close>

theorem ad_only_if_validated:
  assumes "\<And>n s. cache_traced UNIV E s \<Longrightarrow> cache_traced UNIV E (pv_others E n s)"
    and "cache_traced UNIV E s" and "handle E query client s = Some (t, response, entry, tasks)"
    and "ms_authentic_data response"
  shows "(query_has_do query \<or> ms_authentic_data query) \<and> \<not> ms_checking_disabled query \<and>
    (\<exists>mode up name resp. mode \<noteq> DnssecOff \<and> fst (pv_decide E up name (pv_unix E) resp) = OSecure \<and>
       contents (ms_answers response) = contents (ms_answers (shape_do query
         (fst (settle (pv_dns E) mode (pv_unix E) (pv_decide E up name (pv_unix E) resp) resp)))))"
proof -
  from traced.handle_origin [OF assms(1-3)] obtain outcome where o: "response = finish_response query (qo_response outcome)"
    "made (pv_dns E) query outcome \<or> (\<exists>R imp. rq_query R = query \<and> rq_mode R \<in> UNIV \<and> origin E (cache_traced UNIV E) R imp outcome)" by blast
  note f = finish_ad [OF assms(4) [unfolded o(1)]]
  from f have "\<not> made (pv_dns E) query outcome" by (simp add: made_def echoes_def)
  with o(2) obtain R imp where R: "rq_query R = query" "origin E (cache_traced UNIV E) R imp outcome" by blast
  from origin_ad [OF R(2)] f obtain m where m: "\<not> ms_checking_disabled query" "settled E UNIV m Secure"
    "contents (ms_answers (qo_response outcome)) = contents (ms_answers (shape_do query m))"
    using R(1) by blast
  from settled_secure [OF m(2)] obtain mode up name resp where d: "mode \<noteq> DnssecOff" "fst (pv_decide E up name (pv_unix E) resp) = OSecure"
    "m = fst (settle (pv_dns E) mode (pv_unix E) (pv_decide E up name (pv_unix E) resp) resp)" by metis
  from d m(3) have "contents (ms_answers response) = contents (ms_answers (shape_do query
         (fst (settle (pv_dns E) mode (pv_unix E) (pv_decide E up name (pv_unix E) resp) resp))))" by (simp add: o(1))
  with d(1,2) f m(1) show ?thesis by blast
qed

theorem ad_only_if_validated_witness:
  "\<exists>response t entry. handle demo_env demo_query (ctx_new (V4 1)) demo_shared = Some (t, response, entry, []) \<and>
     ms_authentic_data response \<and> \<not> ms_checking_disabled demo_query \<and>
     (\<exists>up name resp. fst (pv_decide demo_env up name 0 resp) = OSecure)"
proof -
  obtain t r entry where h: "handle demo_env demo_query (ctx_new (V4 1)) demo_shared = Some (t, r, entry, [])" "ms_authentic_data r"
    by (rule demo_handle)
  have u: "pv_unix demo_env = 0" by (simp add: demo_env_def)
  have "cache_traced UNIV demo_env (pv_others demo_env n s)" if "cache_traced UNIV demo_env s" for n s using that by simp
  from ad_only_if_validated [OF this demo_traced h] h show ?thesis unfolding u by blast
qed








text \<open>C12: while filtering is on for the client and configured to fail closed, a query that
  arrives before any rules have loaded gets SERVFAIL; nothing is resolved, cached or refreshed.\<close>

theorem no_rules_no_answers:
  assumes "refuse_query (pv_dns E) query = None"
    and "registry_resolve (pv_cron E) (pv_clock E 0) (pv_date E) client (sh_clients s) = (clients, cx, policy)"
    and "fc_enabled (cf_filtering (sh_config s))" and "ep_is_filtering_enabled policy"
    and "fc_fail_closed (cf_filtering (sh_config s))" and "fs_unavailable (he_snapshot (sh_filter s))"
  shows "\<exists>entry. handle E query client s =
    Some (s\<lparr>sh_clients := clients\<rparr>, error_response (pv_dns E) query rcode_servfail, entry, [])"
proof -
  have "finish_response query (error_response (pv_dns E) query rcode_servfail) = error_response (pv_dns E) query rcode_servfail"
    by (simp add: finish_response_def error_response_base response_base_def message_response_def)
  with assms show ?thesis
    by (simp add: handle_def execute_def decide_stages_def make_request_def rq_filtering_active_def outcome_servfail_def
        outcome_error_def outcome_of_def Let_def)
qed

theorem no_rules_no_answers_witness:
  "let s = demo_shared\<lparr>sh_filter := engine_new filtering_config_default\<rparr>
   in \<exists>entry t. handle demo_env demo_query (ctx_new (V4 1)) s = Some (t, error_response demo_dns demo_query rcode_servfail, entry, [])"
proof -
  let ?s = "demo_shared\<lparr>sh_filter := engine_new filtering_config_default\<rparr>"
  obtain cl cx policy where r: "registry_resolve (pv_cron demo_env) (pv_clock demo_env 0) (pv_date demo_env) (ctx_new (V4 1)) (sh_clients ?s) = (cl, cx, policy)"
    using prod_cases3 by blast
  have "ep_is_filtering_enabled (snd (snd (registry_resolve (pv_cron demo_env) (pv_clock demo_env 0) (pv_date demo_env) (ctx_new (V4 1)) (sh_clients ?s))))"
    "refuse_query (pv_dns demo_env) demo_query = None" by code_simp+
  with r have p: "ep_is_filtering_enabled policy" "refuse_query (pv_dns demo_env) demo_query = None" by simp_all
  have "fc_enabled (cf_filtering (sh_config ?s))" "fc_fail_closed (cf_filtering (sh_config ?s))" "fs_unavailable (he_snapshot (sh_filter ?s))"
    "pv_dns demo_env = demo_dns"
    by (simp_all add: demo_shared_def config_default_def filtering_config_default_def engine_new_def snapshot_unavailable_def demo_env_def)
  with no_rules_no_answers [OF p(2) r _ p(1)] show ?thesis unfolding Let_def by auto
qed

end
