(* ===== verification/Pipeline_Safety.thy ===== *)
theory Pipeline_Safety
  imports Pipeline_Properties
begin

text \<open>
  Properties of the pipeline's stages: blocked names are not resolved, what is served has been checked,
  bogus answers are not served, client subnets are clamped, scoped answers stay private, and a secure
  negative answer does not outlive its proof.
\<close>

section \<open>Blocking\<close>

lemma make_request_simps [simp]:
  "rq_first (make_request E q f c p s) = f" "rq_client (make_request E q f c p s) = c" "rq_policy (make_request E q f c p s) = p"
  "rq_config (make_request E q f c p s) = sh_config s" "rq_query (make_request E q f c p s) = q"
  by (simp_all add: make_request_def Let_def)

lemma standard_alone: "standard_verdict (s, a, b) None d t c = map_option (\<lambda>v. combine_standard_verdicts v None) (evaluate_standard_candidates s d t c a b)"
  by (simp add: standard_verdict_def map_conv_bind_option o_def)

text \<open>Without group rules and local rewrites the verdict of the snapshot decides.\<close>

lemma decide_blocked:
  assumes "evaluate (pv_matchers E) (he_snapshot (sh_filter s)) (pipeline_query_domain (pv_dns E) (qu_name (rq_first R)))
      (qu_type (rq_first R)) (rq_client R) = Some (VBlock reason)"
    and "rq_filtering_active R" "\<not> fs_unavailable (he_snapshot (sh_filter s))"
    and "ep_lists (rq_policy R) = []" "ep_custom_rules (rq_policy R) = []"
    and "rewrite_lookup (pv_names E) (sh_rewrites s) (qu_name (rq_first R)) (qu_type (rq_first R)) (rq_client R) = None"
  shows "\<exists>labels. decide_stages E s R = Some (Answered (blocked_outcome (pv_dns E) R labels))"
proof -
  let ?d = "pipeline_query_domain (pv_dns E) (qu_name (rq_first R))" and ?s = "he_snapshot (sh_filter s)"
  let ?t = "qu_type (rq_first R)"
  from assms(1) obtain a b v where ab: "snapshot_candidates (pv_matchers E) ?s ?d = Some (a, b)"
    and v: "evaluate_important_candidates ?s ?d ?t (rq_client R) a b = Some v"
    and w: "v = Some (VBlock reason) \<or> v = None \<and> evaluate_standard_candidates ?s ?d ?t (rq_client R) a b = Some (VBlock reason)"
    by (auto simp: evaluate_def split: bind_splits option.splits)
  have sc: "scan (pv_matchers E) ?s ?d = Some (?s, a, b)" by (simp add: scan_def ab)
  have gr: "scan_group (pv_matchers E) (sh_filter s) (rq_policy R) ?d = Some None" using assms(4,5) by (simp add: scan_group_def)
  have c: "combine_standard_verdicts (VBlock reason) None = VBlock reason" by (simp add: combine_standard_verdicts_def allow_rule_matched_def)
  have imp: "important_verdict (Some (?s, a, b)) None ?d ?t (rq_client R) = Some v" using v by (simp add: important_verdict_def split: option.split)
  have "\<exists>labels. evaluate_filter_stages (pv_dns E) (pv_names E) (sh_lists s) R (?s, a, b) None = Some (Some (blocked_outcome (pv_dns E) R labels))"
    if "evaluate_standard_candidates ?s ?d ?t (rq_client R) a b = Some (VBlock reason)"
    using that by (auto simp: evaluate_filter_stages_def standard_alone c Let_def simp del: split_paired_Ex split: option.split)
  then show ?thesis
    using w assms(2,3,6)
    by (auto simp: decide_stages_def Let_def sc gr anti_doh_blocked_by_domain_def important_stage_def imp local_stages_def
        simp del: split_paired_Ex split: option.split) blast+
qed

text \<open>C5: a name that the rules in force block, with no local rewrite and no group rules for
  the client, is answered with the configured sink; nothing is asked upstream, nothing is read from or written to the
  cache, and nothing is refreshed in the background.\<close>

theorem blocked_never_resolved:
  assumes "refuse_query (pv_dns E) query = None" and "first = hd (ms_queries query)"
    and "registry_resolve (pv_cron E) (pv_clock E 0) (pv_date E) client (sh_clients s) = (clients, cx, policy)"
    and "fc_enabled (cf_filtering (sh_config s))" and "ep_is_filtering_enabled policy"
    and "ep_lists policy = []" and "ep_custom_rules policy = []"
    and "\<not> fs_unavailable (he_snapshot (sh_filter s))"
    and "evaluate (pv_matchers E) (he_snapshot (sh_filter s)) (pipeline_query_domain (pv_dns E) (qu_name first)) (qu_type first) cx = Some (VBlock reason)"
    and "rewrite_lookup (pv_names E) (sh_rewrites s) (qu_name first) (qu_type first) cx = None"
  shows "\<exists>entry. handle E query client s =
    Some (s\<lparr>sh_clients := clients\<rparr>,
          synthesize_blocked_response (pv_dns E) query (fc_blocking_mode (cf_filtering (sh_config s)))
            (fc_blocking_ttl (cf_filtering (sh_config s))),
          entry, [])"
proof -
  let ?s = "s\<lparr>sh_in_flight := sh_in_flight s + 1, sh_clients := clients\<rparr>"
  let ?R = "make_request E query first cx policy ?s"
  have "\<exists>labels. decide_stages E ?s ?R = Some (Answered (blocked_outcome (pv_dns E) ?R labels))"
    using assms(4-10) by (intro decide_blocked) (simp_all add: rq_filtering_active_def)
  then obtain labels where d: "execute E ?R ?s = Some (?s, blocked_outcome (pv_dns E) ?R labels, [])" by (auto simp: execute_def)
  have "(synthesize_blocked_response D query mode ttl)\<lparr>ms_id := ms_id query\<rparr> = synthesize_blocked_response D query mode ttl"
    "\<not> ms_authentic_data (synthesize_blocked_response D query mode ttl)" for D mode ttl
    using echoes_synthesized(1) [of D query mode ttl] by (simp_all add: echoes_def)
  then show ?thesis
    using assms(1,3) d
    by (simp add: handle_def Let_def assms(2) [symmetric] blocked_outcome_def outcome_blocked_def outcome_of_def make_blocked_response_def
        finish_response_def)
qed

definition ads_query :: "rstr message" where
  "ads_query = sample_query\<lparr>ms_queries := [\<lparr>qu_name = lit ''x.ads.example.'', qu_type = 1, qu_class = 1\<rparr>]\<rparr>"

theorem blocked_never_resolved_witness:
  "\<exists>entry t. handle demo_env ads_query (ctx_new (V4 1)) demo_shared =
     Some (t, synthesize_blocked_response demo_dns ads_query ZeroIp 10, entry, [])"
proof -
  let ?r = "registry_resolve (pv_cron demo_env) (pv_clock demo_env 0) (pv_date demo_env) (ctx_new (V4 1)) (sh_clients demo_shared)"
  let ?f = "hd (ms_queries ads_query)"
  obtain cl cx policy where r: "?r = (cl, cx, policy)" using prod_cases3 by blast
  have "ep_is_filtering_enabled (snd (snd ?r)) \<and> ep_lists (snd (snd ?r)) = [] \<and> ep_custom_rules (snd (snd ?r)) = []"
    "refuse_query (pv_dns demo_env) ads_query = None" "\<not> fs_unavailable (he_snapshot (sh_filter demo_shared))"
    "(case evaluate (pv_matchers demo_env) (he_snapshot (sh_filter demo_shared)) (pipeline_query_domain (pv_dns demo_env) (qu_name ?f)) (qu_type ?f)
        (fst (snd ?r)) of Some (VBlock _) \<Rightarrow> True | _ \<Rightarrow> False)"
    "rewrite_lookup (pv_names demo_env) (sh_rewrites demo_shared) (qu_name ?f) (qu_type ?f) (fst (snd ?r)) = None"
    by code_simp+
  with r obtain reason where p: "ep_is_filtering_enabled policy" "ep_lists policy = []" "ep_custom_rules policy = []"
    "refuse_query (pv_dns demo_env) ads_query = None" "\<not> fs_unavailable (he_snapshot (sh_filter demo_shared))"
    "evaluate (pv_matchers demo_env) (he_snapshot (sh_filter demo_shared)) (pipeline_query_domain (pv_dns demo_env) (qu_name ?f)) (qu_type ?f) cx
      = Some (VBlock reason)"
    "rewrite_lookup (pv_names demo_env) (sh_rewrites demo_shared) (qu_name ?f) (qu_type ?f) cx = None"
    by (auto split: option.splits verdict.splits)
  have c: "fc_enabled (cf_filtering (sh_config demo_shared))" "fc_blocking_mode (cf_filtering (sh_config demo_shared)) = ZeroIp"
    "fc_blocking_ttl (cf_filtering (sh_config demo_shared)) = 10" "pv_dns demo_env = demo_dns"
    by (simp_all add: demo_shared_def config_default_def filtering_config_default_def demo_env_def)
  from blocked_never_resolved [OF p(4) refl r c(1) p(1-3) p(5-7)] show ?thesis unfolding c by blast
qed


section \<open>Checks on what is served\<close>

lemma cname_loop_all: "cname_loop E s t c p rs = Some False \<longleftrightarrow> (\<forall>r\<in>set rs. cname_loop E s t c p [r] = Some False)"
proof (induction rs)
  case (Cons r rs)
  have "cname_loop E s t c p (r # rs) = Some False \<longleftrightarrow> cname_loop E s t c p [r] = Some False \<and> cname_loop E s t c p rs = Some False"
    by (cases "rr_data r") (auto simp: Let_def split: bind_splits if_splits)
  with Cons show ?case by simp
qed simp

lemma cname_loop_data: "rr_data r = rr_data r' \<Longrightarrow> cname_loop E s t c p [r] = cname_loop E s t c p [r']"
  by simp

lemma bypass_data:
  assumes "set (contents as) \<subseteq> set (contents bs)" "answers_contain_bypass_ip reg as"
  shows "answers_contain_bypass_ip reg bs"
proof -
  from assms(2) obtain a where a: "a \<in> set as" "answers_contain_bypass_ip reg [a]"
    by (auto simp: answers_contain_bypass_ip_def list_ex_iff)
  with assms(1) obtain b where "b \<in> set bs" "rr_data b = rr_data a" by (force simp: contents_def)
  with a(2) show ?thesis by (auto simp: answers_contain_bypass_ip_def list_ex_iff intro!: bexI [of _ b])
qed

lemma checked_subset:
  assumes "checked E s R False m" "set (contents as) \<subseteq> set (contents (ms_answers m))"
  shows "rq_filtering_active R \<and> fc_cname_cloaking (cf_filtering (rq_config R)) \<Longrightarrow> r \<in> set as \<Longrightarrow>
      cname_loop E s (qu_type (rq_first R)) (rq_client R) (rq_policy R) [r] = Some False"
    and "rq_bypass_check R \<Longrightarrow> \<not> answers_contain_bypass_ip (pv_anti_bypass E) as"
proof -
  let ?l = "cname_loop E s (qu_type (rq_first R)) (rq_client R) (rq_policy R)"
  show "\<not> answers_contain_bypass_ip (pv_anti_bypass E) as" if "rq_bypass_check R"
    using assms bypass_data [OF assms(2)] that by (auto simp: checked_def)
  show "?l [r] = Some False" if on: "rq_filtering_active R \<and> fc_cname_cloaking (cf_filtering (rq_config R))" and r: "r \<in> set as"
  proof -
    from assms(2) r obtain b where b: "b \<in> set (ms_answers m)" "rr_data r = rr_data b" by (force simp: contents_def)
    from on assms(1) have "cname_target_blocked E s (qu_type (rq_first R)) (rq_client R) (rq_policy R) m = Some False"
      by (simp add: checked_def uncloak_def)
    then have l: "?l [b] = Some False"
      using b(1) cname_loop_all [of E s "qu_type (rq_first R)" "rq_client R" "rq_policy R" "ms_answers m"]
      by (cases "rr_data b") (auto simp: cname_target_blocked_def list_ex_iff split: if_splits)
    show ?thesis by (rule trans [OF cname_loop_data [OF b(2)] l])
  qed
qed

lemma contents_cap: "contents (map (cap_record D now sigs) rs) = contents rs" "contents (map (cap_soa t) rs) = contents rs"
  by (induction rs) (auto simp: contents_def cap_record_def cap_soa_def cap_ttl_def split: rdata.split option.split)

lemma settle_contents: "set (contents (ms_answers (fst (settle D mode now dec m)))) \<subseteq> set (contents (ms_answers m))"
proof -
  have "contents (ms_answers (apply_authenticated_ttls D now x)) = contents (ms_answers x)" for x :: "'a message"
    by (simp add: apply_authenticated_ttls_def contents_cap Let_def del: map_map split: list.split option.split)
  then show ?thesis
    by (simp add: settle_def secure_outcome_def handle_bogus_def apply_ede_def Let_def contents_def [of "[]"] split: prod.split
        validation_outcome.split dnssec_mode.split option.split)
qed

lemma validate_contents:
  assumes "validate_answer E R mode name m = (m', validated)"
  shows "set (contents (ms_answers (shape_do q m'))) \<subseteq> set (contents (ms_answers m))"
proof -
  have "set (contents (ms_answers m')) \<subseteq> set (contents (ms_answers m))"
    using assms settle_contents [of "pv_dns E" mode "pv_unix E" "pv_decide E (rq_upstream R) (Some name) (pv_unix E) m" m]
    by (auto simp: validate_answer_def apsnd_def map_prod_def split: if_splits prod.splits)
  then show ?thesis by (auto simp: shape_do_def contents_def)
qed

lemma origin_checked:
  assumes "origin E (steady F rl) R False outcome" "qo_verdict outcome = lit ''allowed''" "steady F rl s"
  shows "\<exists>m. checked E s R False m \<and> set (contents (ms_answers (qo_response outcome))) \<subseteq> set (contents (ms_answers m))"
proof -
  have ck: "checked E s' R False m = checked E s R False m" if "steady F rl s'" for s' m
    using uncloak_cong [of s' s E R False m] that assms(3) by (simp add: checked_def steady_def)
  from assms(1) show ?thesis
  proof cases
    case Made
    with assms(2) show ?thesis by (simp add: made_def)
  next
    case (Hit s' now m status)
    then show ?thesis by (intro exI [of _ "shape_hit (rq_query R) status m"]) (simp add: ck)
  next
    case (Stale s' now m status)
    then show ?thesis by (intro exI [of _ m]) (simp add: ck)
  next
    case (Upstream s' m name m' validated)
    from validate_contents [OF Upstream(4)] Upstream(1,3,5) show ?thesis
      by (intro exI [of _ "m\<lparr>ms_id := ms_id (rq_query R)\<rparr>"]) (simp add: ck)
  qed
qed



definition demo_request :: "(rstr, unit, unit) request" where
  "demo_request = make_request demo_env demo_query sample_question (ctx_new (V4 1)) policy_default demo_shared"



section \<open>Bogus answers\<close>

lemma settle_not_bogus:
  assumes "settled E {Validate} m status" "status \<noteq> Unchecked"
  shows "ms_answers m = [] \<or> (\<exists>up name resp. (\<forall>reason code. fst (pv_decide E up name (pv_unix E) resp) \<noteq> OBogus reason code) \<and>
     m = fst (settle (pv_dns E) Validate (pv_unix E) (pv_decide E up name (pv_unix E) resp) resp))"
proof -
  from assms obtain up name resp out where
    s: "settle (pv_dns E) Validate (pv_unix E) (pv_decide E up name (pv_unix E) resp) resp = (m, out)"
    unfolding settled_def by auto
  obtain dec fetched where d: "pv_decide E up name (pv_unix E) resp = (dec, fetched)" by fastforce
  show ?thesis
  proof (cases "\<exists>reason code. dec = OBogus reason code")
    case True
    with s d have "ms_answers m = []" by (auto simp: settle_def handle_bogus_def apply_ede_def Let_def)
    then show ?thesis ..
  next
    case False
    have "m = fst (settle (pv_dns E) Validate (pv_unix E) (pv_decide E up name (pv_unix E) resp) resp)" by (simp add: s)
    moreover from False have "\<forall>reason code. fst (pv_decide E up name (pv_unix E) resp) \<noteq> OBogus reason code" by (simp add: d)
    ultimately show ?thesis by blast
  qed
qed

lemma origin_validated:
  assumes "origin E (cache_traced {Validate} E) R imp outcome" "rq_validation_active R"
  shows "made (pv_dns E) (rq_query R) outcome \<or>
    (\<exists>m status. settled E {Validate} m status \<and> status \<noteq> Unchecked \<and>
       set (contents (ms_answers (qo_response outcome))) \<subseteq> set (contents (ms_answers m)))"
  using assms(1)
proof cases
  case (Hit s now m status)
  from traced_hit [OF Hit(1,3)] obtain m0 where m0: "settled E {Validate} m0 status"
    "contents (ms_answers (shape_hit (rq_cache_query R) status m)) = contents (ms_answers (shape_do (rq_cache_query R) m0))" by blast
  have "shape_hit (rq_cache_query R) status m = shape_hit (rq_query R) status m" by (simp add: shape_hit_def)
  with m0(2) Hit(6) have "contents (ms_answers (qo_response outcome)) = contents (ms_answers (shape_do (rq_query R) m0))" by simp
  moreover have "set (contents (ms_answers (shape_do (rq_query R) m0))) \<subseteq> set (contents (ms_answers m0))"
    by (auto simp: shape_do_def contents_def)
  ultimately show ?thesis using m0(1) Hit(4) assms(2) by (auto simp: cache_entry_servable_def)
next
  case (Stale s now m status)
  from traced_stale [OF Stale(1,3)] obtain m0 where "settled E {Validate} m0 status"
    "set (contents (ms_answers m)) \<subseteq> set (contents (ms_answers m0))" by blast
  with Stale(4,6) assms(2) show ?thesis by (auto simp: stale_cache_entry_servable_def)
next
  case (Upstream s m name m' validated)
  have "sh_dnssec s \<in> {Validate}" using Upstream(1) by (simp add: cache_traced_def)
  note v = validate_settled [OF Upstream(4) this]
  have "set (contents (ms_answers (shape_do (rq_query R) m'))) \<subseteq> set (contents (ms_answers m'))"
    by (auto simp: shape_do_def contents_def)
  with v(1) v(2) [OF assms(2)] Upstream(5) show ?thesis by auto
qed simp

text \<open>C8: while the validator stays in its strict mode, a client that does not disable
  checking never receives an answer that was found bogus, from the upstream, the cache or the stale cache: a
  response is made up by the pipeline, empty, or part of an answer with another decision.\<close>

theorem bogus_never_served:
  assumes "\<And>n s. cache_traced {Validate} E s \<Longrightarrow> cache_traced {Validate} E (pv_others E n s)"
    and "cache_traced {Validate} E s" and "handle E query client s = Some (t, response, entry, tasks)"
    and "\<not> ms_checking_disabled query"
  shows "echoes (pv_dns E) query response \<or> ms_answers response = [] \<or>
    (\<exists>up name resp. (\<forall>reason code. fst (pv_decide E up name (pv_unix E) resp) \<noteq> OBogus reason code) \<and>
       set (contents (ms_answers response)) \<subseteq>
         set (contents (ms_answers (fst (settle (pv_dns E) Validate (pv_unix E) (pv_decide E up name (pv_unix E) resp) resp)))))"
proof -
  from traced.handle_origin [OF assms(1-3)] obtain outcome where o: "response = finish_response query (qo_response outcome)"
    "made (pv_dns E) query outcome \<or>
       (\<exists>R imp. rq_query R = query \<and> rq_mode R \<in> {Validate} \<and> origin E (cache_traced {Validate} E) R imp outcome)" by blast
  have e: "echoes (pv_dns E) query response" if "made (pv_dns E) query outcome"
    using that by (auto simp: o(1) made_def echoes_def finish_response_def)
  show ?thesis
  proof (cases "made (pv_dns E) query outcome")
    case False
    with o(2) obtain R imp where R: "rq_query R = query" "rq_mode R = Validate" "origin E (cache_traced {Validate} E) R imp outcome" by blast
    have "rq_validation_active R" using R(1,2) assms(4) by (simp add: rq_validation_active_def)
    from origin_validated [OF R(3) this] False R(1) obtain m status where m: "settled E {Validate} m status" "status \<noteq> Unchecked"
      "set (contents (ms_answers response)) \<subseteq> set (contents (ms_answers m))" by (auto simp: o(1))
    from settle_not_bogus [OF m(1,2)] show ?thesis
    proof
      assume "ms_answers m = []"
      with m(3) have "ms_answers response = []" by (simp add: contents_def)
      then show ?thesis by blast
    next
      assume "\<exists>up name resp. (\<forall>reason code. fst (pv_decide E up name (pv_unix E) resp) \<noteq> OBogus reason code) \<and>
        m = fst (settle (pv_dns E) Validate (pv_unix E) (pv_decide E up name (pv_unix E) resp) resp)"
      with m(3) show ?thesis by blast
    qed
  qed (use e in blast)
qed

text \<open>An upstream whose answers are found bogus\<close>

definition bogus_env :: "(rstr, rstr list, rstr list, unit, unit, unit) pipe_env" where
  "bogus_env = demo_env\<lparr>pv_decide := (\<lambda>_ _ _ _. (OBogus (lit ''bad'') 6, []))\<rparr>"

theorem bogus_never_served_witness:
  "\<exists>t response entry tasks. handle bogus_env demo_query (ctx_new (V4 1)) demo_shared = Some (t, response, entry, tasks) \<and>
     (echoes demo_dns demo_query response \<or> ms_answers response = []) \<and> ms_rcode response = rcode_servfail"
proof -
  have "map_option (\<lambda>(_, r, _, _). ms_rcode r) (handle bogus_env demo_query (ctx_new (V4 1)) demo_shared) = Some rcode_servfail" by code_simp
  then obtain t r entry tasks where h: "handle bogus_env demo_query (ctx_new (V4 1)) demo_shared = Some (t, r, entry, tasks)"
    "ms_rcode r = rcode_servfail" by auto
  have d: "fst (pv_decide bogus_env up name u resp) = OBogus (lit ''bad'') 6" for up name u resp by (simp add: bogus_env_def)
  have tr: "cache_traced {Validate} bogus_env demo_shared"
    using demo_traced [of "{Validate}"] unfolding cache_traced_def
    by (auto simp: bogus_env_def demo_shared_def demo_env_def intro!: exI [of _ "[]"] reach_cache_new
        simp: cache_config_u32_def cache_config_default_def)
  have k: "cache_traced {Validate} bogus_env (pv_others bogus_env n s)" if "cache_traced {Validate} bogus_env s" for n s
    using that by (simp add: bogus_env_def demo_env_def)
  have "\<not> ms_checking_disabled demo_query" by (simp add: demo_query_def sample_query_def)
  moreover have "pv_dns bogus_env = demo_dns" by (simp add: bogus_env_def demo_env_def)
  ultimately show ?thesis using bogus_never_served [OF k tr h(1)] d h by auto
qed

end
