(* ===== verification/Pipeline_Limits.thy ===== *)
theory Pipeline_Limits
  imports Pipeline_Safety
begin

text \<open>
  Further properties of the pipeline: what leaves for the upstream, what is kept for whom and for how long, and
  three behaviours worth knowing.
\<close>

section \<open>Client subnets\<close>

lemma clamped:
  assumes "clamp_subnet (addr0, p0, scope0) = Some (addr, p, scope)"
  shows "scope = 0 \<and> 0 < p \<and> p \<le> p0 \<and> addr = truncate_ip addr0 p \<and>
    (case addr of V4 v \<Rightarrow> p \<le> 24 \<and> (\<forall>i. bit v i \<longrightarrow> 32 - p \<le> i) | V6 v \<Rightarrow> p \<le> 56 \<and> (\<forall>i. bit v i \<longrightarrow> 128 - p \<le> i))"
proof (cases addr0)
  case (V4 a)
  with assms show ?thesis by (auto simp: clamp_subnet_def truncate_ip_def bit_simps Let_def split: if_splits)
next
  case (V6 a)
  with assms show ?thesis by (auto simp: clamp_subnet_def truncate_ip_def bit_simps Let_def split: if_splits)
qed

text \<open>C18: a client's subnet leaves for the upstream only when forwarding is configured; it
  is then at most a /24 or a /56, never longer than what the client sent and never empty, has no scope, and its
  host bits are zero.  The cache is asked under the same subnet.\<close>

theorem forwarded_subnet_clamped:
  assumes "ms_edns (build_upstream_query D config force query) = Some e" and "ed_subnet e = Some (addr, p, scope)"
    and "ed_subnet (dl_edns_new D) = None"
  shows "uc_ecs (cf_upstream config) = EcsForward \<and> scope = 0 \<and> 0 < p \<and>
    (\<exists>e0 addr0 p0 scope0. ms_edns query = Some e0 \<and> ed_subnet e0 = Some (addr0, p0, scope0) \<and> p \<le> p0 \<and> addr = truncate_ip addr0 p) \<and>
    (case addr of V4 v \<Rightarrow> p \<le> 24 \<and> (\<forall>i. bit v i \<longrightarrow> 32 - p \<le> i) | V6 v \<Rightarrow> p \<le> 56 \<and> (\<forall>i. bit v i \<longrightarrow> 128 - p \<le> i)) \<and>
    ecs_option (ms_edns (build_cache_query config query)) = Some (addr, p, scope)"
proof -
  from assms obtain e0 sub where fwd: "uc_ecs (cf_upstream config) = EcsForward" "ms_edns query = Some e0" "ed_subnet e0 = Some sub"
    "clamp_subnet sub = Some (addr, p, scope)"
    by (cases "uc_ecs (cf_upstream config)"; cases "ms_edns query")
      (auto simp: build_upstream_query_def apply_ecs_policy_def Let_def split: if_splits option.splits bind_splits)
  obtain addr0 p0 scope0 where sub: "sub = (addr0, p0, scope0)" using prod_cases3 by blast
  note c = clamped [OF fwd(4) [unfolded sub]]
  have "ecs_option (ms_edns (build_cache_query config query)) = Some (addr, p, scope)"
    using fwd by (simp add: build_cache_query_def apply_ecs_policy_def ecs_option_def)
  with c fwd sub show ?thesis by (intro conjI) auto
qed

theorem forwarded_subnet_clamped_witness:
  "let config = config_default\<lparr>cf_upstream := upstream_config_default\<lparr>uc_ecs := EcsForward\<rparr>\<rparr>;
       query = demo_query\<lparr>ms_edns := map_option (\<lambda>e. e\<lparr>ed_subnet := Some (V4 0xC0A80142, 32, 0)\<rparr>) (ms_edns demo_query)\<rparr>
   in \<exists>e addr. ms_edns (build_upstream_query demo_dns config True query) = Some e \<and> ed_subnet e = Some (addr, 24, 0) \<and>
        addr = truncate_ip (V4 0xC0A80142) 24"
proof -
  let ?c = "config_default\<lparr>cf_upstream := upstream_config_default\<lparr>uc_ecs := EcsForward\<rparr>\<rparr> :: 'a config"
  let ?q = "demo_query\<lparr>ms_edns := map_option (\<lambda>e. e\<lparr>ed_subnet := Some (V4 0xC0A80142, 32, 0)\<rparr>) (ms_edns demo_query)\<rparr>"
  obtain e addr where e: "ms_edns (build_upstream_query demo_dns ?c True ?q) = Some e" "ed_subnet e = Some (addr, 24, 0)"
    by (simp add: build_upstream_query_def apply_ecs_policy_def demo_query_def clamp_subnet_def Let_def)
  have "ed_subnet (dl_edns_new demo_dns) = None" by (simp add: demo_dns_def sample_dns_def)
  from forwarded_subnet_clamped [OF e this] e show ?thesis by (auto simp: Let_def demo_query_def)
qed


section \<open>Scoped upstreams\<close>

lemma local_frame: "local_stages D L (s\<lparr>sh_cache := c\<rparr>) R g grp = local_stages D L s R g grp"
  by (simp add: local_stages_def cong: option.case_cong)

lemma decide_frame: "decide_stages E (s\<lparr>sh_cache := c\<rparr>) R = decide_stages E s R"
proof -
  have f: "sh_filter (s\<lparr>sh_cache := c\<rparr>) = sh_filter s" by simp
  show ?thesis unfolding decide_stages_def local_frame f ..
qed

lemma uncloak_frame: "uncloak E (s\<lparr>sh_cache := c\<rparr>) R imp m = uncloak E s R imp m"
  by (rule uncloak_cong) simp_all

lemma execute_frame:
  assumes "\<And>n s c. pv_others E n (s\<lparr>sh_cache := c\<rparr>) = (pv_others E n s)\<lparr>sh_cache := c\<rparr>" and off: "\<not> rq_cache_enabled R"
  shows "execute E R (s\<lparr>sh_cache := c\<rparr>) = map_option (\<lambda>(t, r). (t\<lparr>sh_cache := c\<rparr>, r)) (execute E R s)"
    and "execute E R s = Some (t, outcome, tasks) \<Longrightarrow> tasks = []"
proof -
  have a: "accept_answer E R imp name m (s\<lparr>sh_cache := c\<rparr>) = map_option (\<lambda>(t, r). (t\<lparr>sh_cache := c\<rparr>, r)) (accept_answer E R imp name m s)"
    for imp name m s
    using off by (auto simp: accept_answer_def uncloak_frame Let_def assms(1) split: option.split bind_split prod.split)
  have b: "resolve_upstream E R imp (s\<lparr>sh_cache := c\<rparr>) = map_option (\<lambda>(t, r). (t\<lparr>sh_cache := c\<rparr>, r)) (resolve_upstream E R imp s)" for imp s
    using off by (auto simp: resolve_upstream_def a serve_stale_def Let_def assms(1) split: option.split)
  show "execute E R (s\<lparr>sh_cache := c\<rparr>) = map_option (\<lambda>(t, r). (t\<lparr>sh_cache := c\<rparr>, r)) (execute E R s)"
    using off
    by (auto simp: execute_def decide_frame answer_query_def b option.map_comp o_def case_prod_unfold split: bind_split stage.split
        intro!: option.map_cong)
  show "execute E R s = Some (t, outcome, tasks) \<Longrightarrow> tasks = []"
    using off by (auto simp: execute_def answer_query_def split: bind_splits stage.splits)
qed

text \<open>C15: a client's own upstreams and the shared cache do not mix: whatever the cache holds,
  such a client gets the same response, the cache stays exactly as it was, and no refresh is spawned.\<close>

theorem scoped_answers_private:
  assumes "\<And>n s c. pv_others E n (s\<lparr>sh_cache := c\<rparr>) = (pv_others E n s)\<lparr>sh_cache := c\<rparr>"
    and "registry_resolve (pv_cron E) (pv_clock E 0) (pv_date E) client (sh_clients s) = (clients, cx, policy)"
    and "scoped_upstream policy (sh_scoped s) = Some up"
    and "handle E query client s = Some (t, response, entry, tasks)"
  shows "tasks = [] \<and> (\<forall>c. handle E query client (s\<lparr>sh_cache := c\<rparr>) = Some (t\<lparr>sh_cache := c\<rparr>, response, entry, [])) \<and>
    sh_cache t = sh_cache s"
proof -
  let ?s = "s\<lparr>sh_in_flight := sh_in_flight s + 1, sh_clients := clients\<rparr>"
  let ?R = "make_request E query (hd (ms_queries query)) cx policy ?s"
  have off: "\<not> rq_cache_enabled ?R" using assms(3) by (simp add: make_request_def)
  have req: "make_request E query f cx policy (x\<lparr>sh_cache := c\<rparr>) = make_request E query f cx policy x" for f c and x :: "('a, 'b, 'c, 'd, 'e, 'f) shared"
    by (simp add: make_request_def)
  note x = execute_frame [OF assms(1) off]
  have c: "tasks = [] \<and> handle E query client (s\<lparr>sh_cache := c\<rparr>) = Some (t\<lparr>sh_cache := c\<rparr>, response, entry, [])" for c
  proof (cases "refuse_query (pv_dns E) query")
    case None
    with assms(2,4) obtain t' outcome where t': "execute E ?R ?s = Some (t', outcome, tasks)"
      "t = t'\<lparr>sh_in_flight := sh_in_flight t' - 1\<rparr>" "response = finish_response query (qo_response outcome)"
      "entry = log_query policy cx outcome" by (auto simp: handle_def Let_def split: bind_splits)
    have comm: "s\<lparr>sh_cache := c, sh_in_flight := n, sh_clients := k\<rparr> = s\<lparr>sh_in_flight := n, sh_clients := k, sh_cache := c\<rparr>"
      "t'\<lparr>sh_cache := c, sh_in_flight := n\<rparr> = t'\<lparr>sh_in_flight := n, sh_cache := c\<rparr>" for n k by simp_all
    with x(1) [where s = ?s and c = c] x(2) [OF t'(1)] t' None assms(2) req [where x = ?s and c = c and f = "hd (ms_queries query)"]
    show ?thesis by (simp add: handle_def Let_def comm)
  qed (use assms(2,4) in \<open>auto simp: handle_def Let_def\<close>)
  have "s\<lparr>sh_cache := sh_cache s\<rparr> = s" by simp
  with c [of "sh_cache s"] assms(4) have "t = t\<lparr>sh_cache := sh_cache s\<rparr>" by simp
  then have "sh_cache t = sh_cache (t\<lparr>sh_cache := sh_cache s\<rparr>)" by (rule arg_cong)
  with c show ?thesis by simp
qed


definition scoped_client :: client_entry where
  "scoped_client = \<lparr>cl_name = lit ''tv'', cl_ids = [lit ''0.0.0.1''], cl_group = lit ''default'', cl_ignore_query_log = False,
     cl_ignore_stats = False, cl_use_global_upstreams = False, cl_upstreams = Some [lit ''9.9.9.9''], cl_trusted = False\<rparr>"

definition scoped_shared :: "(rstr, rstr list, rstr list, unit, unit, unit) shared" where
  "scoped_shared = demo_shared\<lparr>sh_clients := registry_new \<lparr>cs_entries = [scoped_client], cs_groups = (\<lambda>_. None),
       cs_client_id_secrets = (\<lambda>_. None), cs_trust_routeros_lease_names = False\<rparr>,
     sh_scoped := [lit ''9.9.9.9'' \<mapsto> ()]\<rparr>"

theorem scoped_answers_private_witness:
  "\<exists>t response entry. handle demo_env demo_query (ctx_new (V4 1)) scoped_shared = Some (t, response, entry, []) \<and>
     length (ms_answers response) = 1 \<and> sh_cache t = sh_cache scoped_shared"
proof -
  let ?r = "registry_resolve (pv_cron demo_env) (pv_clock demo_env 0) (pv_date demo_env) (ctx_new (V4 1)) (sh_clients scoped_shared)"
  obtain cl cx policy where r: "?r = (cl, cx, policy)" using prod_cases3 by blast
  have "scoped_upstream (snd (snd ?r)) (sh_scoped scoped_shared) = Some ()"
    "map_option (\<lambda>(_, m, _). length (ms_answers m)) (handle demo_env demo_query (ctx_new (V4 1)) scoped_shared) = Some 1" by code_simp+
  with r obtain t m entry tasks where p: "scoped_upstream policy (sh_scoped scoped_shared) = Some ()"
    "handle demo_env demo_query (ctx_new (V4 1)) scoped_shared = Some (t, m, entry, tasks)" "length (ms_answers m) = 1" by auto
  have "pv_others demo_env n (s\<lparr>sh_cache := c\<rparr>) = (pv_others demo_env n s)\<lparr>sh_cache := c\<rparr>" for n s c by simp
  from scoped_answers_private [OF this r p(1,2)] p show ?thesis by auto
qed


section \<open>Negative answers\<close>

lemma soa_ttl_le: "negative_ttl_from_soa D auths names = Some t \<Longrightarrow> \<exists>a\<in>set auths. (\<exists>k. rr_data a = SoaData k) \<and> t \<le> rr_ttl a"
proof (induction auths)
  case (Cons a auths)
  show ?case
  proof (cases "\<exists>k. rr_data a = SoaData k \<and> list_ex (\<lambda>n. dl_zone_of D (rr_name a) n) names")
    case True
    with Cons.prems show ?thesis by auto
  next
    case False
    then have "negative_ttl_from_soa D (a # auths) names = negative_ttl_from_soa D auths names" by (cases "rr_data a") simp_all
    with Cons show ?thesis by auto
  qed
qed simp

lemma cap_simps [simp]:
  "rr_data (cap_record D now sigs r) = rr_data r" "rr_name (cap_record D now sigs r) = rr_name r"
  "rr_ttl (cap_record D now sigs r) \<le> rr_ttl r" "rr_data (cap_soa t r) = rr_data r" "rr_ttl (cap_soa t r) \<le> rr_ttl r"
  by (auto simp: cap_record_def cap_soa_def cap_ttl_def split: rdata.split option.split)

lemma cap_own: "rr_data r = SigData legacy cov sig \<Longrightarrow> rr_ttl (cap_record D now sigs r) \<le> dl_auth_ttl D sig r now"
  by (simp add: cap_record_def cap_ttl_def)

lemma list_min_le: "x \<in> set xs \<Longrightarrow> \<exists>m. list_min xs = Some m \<and> m \<le> (x :: nat)"
  using list_min_Some [of xs] by (cases "list_min xs") auto

text \<open>What the validator leaves of a secure negative answer: no start-of-authority record above any denial record.\<close>

lemma authenticated_soa:
  assumes "signatures m \<noteq> []" "ms_queries m = f # qs" "is_negative_response (map_sections (cap_record D now (signatures m)) m) (qu_name f) (qu_type f)"
    and "d \<in> set (all_records m)" "is_denial_record d"
    and "a \<in> set (ms_authorities (apply_authenticated_ttls D now m))" "rr_data a = SoaData k"
  shows "rr_ttl a \<le> rr_ttl (cap_record D now (signatures m) d)"
proof -
  let ?m = "map_sections (cap_record D now (signatures m)) m" and ?d = "cap_record D now (signatures m) d"
  have "?d \<in> set (all_records ?m)" using assms(4) by (auto simp: all_records_def)
  moreover have "is_denial_record ?d" using assms(5) by (simp add: is_denial_record_def)
  ultimately have "rr_ttl ?d \<in> set (map rr_ttl (filter is_denial_record (all_records ?m)))" by simp
  from list_min_le [OF this] obtain t where t: "authenticated_denial_ttl ?m = Some t" "t \<le> rr_ttl ?d"
    by (auto simp: authenticated_denial_ttl_def)
  then have "ms_authorities (apply_authenticated_ttls D now m) = map (cap_soa t) (ms_authorities ?m)"
    using assms(1-3) by (simp add: apply_authenticated_ttls_def Let_def)
  with assms(6) obtain b where "a = cap_soa t b" by auto
  with assms(7) have "rr_ttl a \<le> t" by (auto simp: cap_soa_def cap_ttl_def split: rdata.splits)
  with t(2) show ?thesis by simp
qed

lemma negative_for_validator:
  assumes "is_negative f (shape_do query m')" "qu_type f \<notin> {type_rrsig, type_nsec, type_nsec3, type_dnskey, type_any}"
    and "contents (ms_answers m') = contents (ms_answers m)" "ms_rcode m' = ms_rcode m"
  shows "is_negative_response m (qu_name f) (qu_type f)"
proof (cases "ms_rcode m = rcode_nxdomain")
  case False
  with assms(1,4) have ne: "ms_rcode m = rcode_noerror" and none: "\<forall>r\<in>set (ms_answers (shape_do query m')). rr_type r \<noteq> qu_type f"
    by (auto simp: is_negative_def list_ex_iff Let_def)
  have "rr_type r \<noteq> qu_type f" if r: "r \<in> set (ms_answers m)" for r
  proof
    assume t: "rr_type r = qu_type f"
    from r assms(3) have "(rr_name r, rr_data r) \<in> set (contents (ms_answers m'))" by (simp add: contents_def)
    then obtain r' where r': "r' \<in> set (ms_answers m')" "rr_type r' = qu_type f"
      using t by (auto simp: contents_def rr_type_def)
    with assms(2) have "r' \<in> set (ms_answers (shape_do query m'))" by (simp add: shape_do_def is_dnssec_type_def)
    with none r'(2) show False by blast
  qed
  with ne assms(2) False show ?thesis by (auto simp: is_negative_response_def list_ex_iff Let_def)
qed (simp add: is_negative_response_def)

lemma secure_lifespan_le:
  assumes "entry_for D stored_at cfg k f m Secure = Some e" "is_negative f m"
    and "\<And>a n. a \<in> set (ms_authorities m) \<Longrightarrow> rr_data a = SoaData n \<Longrightarrow> rr_ttl a \<le> t"
  shows "en_max_lifespan_secs e \<le> t"
proof -
  from entry_for_negative [OF assms(1,2)] obtain life where l: "negative_lifespan D cfg 0 Secure (qu_name f) m = Some life"
    "en_max_lifespan_secs e = life" by (auto simp: is_secure_def)
  obtain names u where u: "negative_ttl_from_soa D (ms_authorities m) names = Some u"
    "life \<le> clamp u 0 (max (ch_negative_ttl_max cfg) (ch_min_ttl cfg))"
  proof (cases "cname_chain (qu_name f) m")
    case (Pair names x)
    with l(1) obtain u where "negative_ttl_from_soa D (ms_authorities m) names = Some u"
      by (auto simp: negative_lifespan_def Let_def split: option.splits)
    with that [of names u] l(1) Pair show thesis by (auto simp: negative_lifespan_def Let_def min.coboundedI1)
  qed
  have "clamp u 0 (max (ch_negative_ttl_max cfg) (ch_min_ttl cfg)) \<le> u" by (rule clamp_facts(2))
  with u(2) soa_ttl_le [OF u(1)] assms(3) l(2) show ?thesis by (meson le_trans)
qed

lemma contents_authenticated: "contents (ms_answers (apply_authenticated_ttls D now x)) = contents (ms_answers x)"
  by (simp add: apply_authenticated_ttls_def contents_cap Let_def del: map_map split: list.split option.split)

lemma rcode_authenticated: "ms_rcode (apply_authenticated_ttls D now x) = ms_rcode x"
  by (simp add: apply_authenticated_ttls_def map_sections_def Let_def split: list.split option.split)

text \<open>C17: a negative answer that was found secure is never kept longer than any record of its
  denial proof was received for, nor than what is left of a signature over that proof, although the copy that is
  stored for clients without DO no longer contains the proof.\<close>

theorem negative_within_proof:
  assumes "settle D mode now (OSecure, fetched) m = (m', OSecure)" and "ms_queries m = f # qs"
    and "s \<in> set (all_records m)" and "rr_data s = SigData legacy cov sig"
    and "d \<in> set (all_records m)" and "is_denial_record d"
    and "is_negative f (shape_do query m')" and "qu_type f \<notin> {type_rrsig, type_nsec, type_nsec3, type_dnskey, type_any}"
    and "entry_for D stored_at cfg k f (shape_do query m') Secure = Some e"
  shows "en_max_lifespan_secs e \<le> rr_ttl d \<and>
    (\<forall>l c own. rr_data d = SigData l c own \<longrightarrow> en_max_lifespan_secs e \<le> dl_auth_ttl D own d now)"
proof -
  let ?m = "m\<lparr>ms_additionals := ms_additionals m @ fetched\<rparr>"
  let ?M = "map_sections (cap_record D now (signatures ?m)) ?m" and ?d = "cap_record D now (signatures ?m) d"
  have m': "m' = (apply_authenticated_ttls D now ?m)\<lparr>ms_authentic_data := True,
      ms_additionals := take (length (ms_additionals m)) (ms_additionals (apply_authenticated_ttls D now ?m))\<rparr>"
    using assms(1) by (auto simp: settle_def secure_outcome_def Let_def split: if_splits)
  have in_m: "d \<in> set (all_records ?m)" "s \<in> set (all_records ?m)" using assms(3,5) by (auto simp: all_records_def)
  have sigs: "signatures ?m \<noteq> []" using in_m(2) assms(4) by (force simp: signatures_def)
  have "contents (ms_answers m') = contents (ms_answers ?M)" "ms_rcode m' = ms_rcode ?M"
    by (simp_all add: m' contents_authenticated rcode_authenticated contents_cap)
  from negative_for_validator [OF assms(7,8) this] have neg: "is_negative_response ?M (qu_name f) (qu_type f)" .
  have "rr_ttl a \<le> rr_ttl ?d" if "a \<in> set (ms_authorities (shape_do query m'))" "rr_data a = SoaData n" for a n
  proof (rule authenticated_soa [OF sigs _ neg in_m(1) assms(6) _ that(2)])
    show "ms_queries ?m = f # qs" using assms(2) by simp
    show "a \<in> set (ms_authorities (apply_authenticated_ttls D now ?m))"
      using that(1) by (auto simp: m' shape_do_def strip_dnssec_records_def split: if_splits)
  qed
  from secure_lifespan_le [OF assms(9,7) this] have "en_max_lifespan_secs e \<le> rr_ttl ?d" .
  moreover have "rr_ttl ?d \<le> rr_ttl d" by simp
  ultimately show ?thesis using cap_own [of d _ _ _ D now "signatures ?m"] by (meson le_trans)
qed

text \<open>A denial of existence with a proof that expires before its start-of-authority record\<close>

definition denied :: "rstr message" where
  "denied = sample_nxdomain\<lparr>ms_authorities := ms_authorities sample_nxdomain @
     [\<lparr>rr_name = lit ''example'', rr_ttl = 600, rr_data = OtherData 47 []\<rparr>,
      \<lparr>rr_name = lit ''example'', rr_ttl = 60, rr_data = SigData False 47 []\<rparr>]\<rparr>"

theorem negative_within_proof_witness:
  "\<exists>m' e. settle demo_dns Validate 0 (OSecure, []) denied = (m', OSecure) \<and>
     entry_for demo_dns 0 cache_config_default sample_key sample_question (shape_do sample_query m') Secure = Some e \<and>
     en_max_lifespan_secs e \<le> 60"
proof -
  let ?m = "fst (settle demo_dns Validate 0 (OSecure, []) denied)"
  let ?s = "\<lparr>rr_name = lit ''example'', rr_ttl = 60, rr_data = SigData False 47 []\<rparr>"
  have c: "snd (settle demo_dns Validate 0 (OSecure, []) denied) = OSecure" "is_negative sample_question (shape_do sample_query ?m)"
    "entry_for demo_dns 0 cache_config_default sample_key sample_question (shape_do sample_query ?m) Secure \<noteq> None"
    "qu_type sample_question \<notin> {type_rrsig, type_nsec, type_nsec3, type_dnskey, type_any}"
    by code_simp+
  then obtain m' e where e: "settle demo_dns Validate 0 (OSecure, []) denied = (m', OSecure)"
    "entry_for demo_dns 0 cache_config_default sample_key sample_question (shape_do sample_query m') Secure = Some e"
    "is_negative sample_question (shape_do sample_query m')" by (cases "settle demo_dns Validate 0 (OSecure, []) denied") auto
  have q: "ms_queries denied = [sample_question]" "?s \<in> set (all_records denied)" "is_denial_record ?s" "rr_data ?s = SigData False 47 []"
    by (simp_all add: denied_def sample_nxdomain_def sample_query_def all_records_def is_denial_record_def type_nsec_def)
  from negative_within_proof [OF e(1) q(1,2,4,2,3) e(3) c(4) e(2)] have "en_max_lifespan_secs e \<le> 60" by simp
  with e show ?thesis by blast
qed



section \<open>Text records\<close>

lemma take_bytes_len: "str_len (take_bytes n s) \<le> n"
  by (induction n s rule: take_bytes.induct) (auto simp: str_len_def)

text \<open>The chunks of a text record put together are the text, and each fits a character string.\<close>

lemma txt_chunks_join: "concat (txt_chunks v) = v \<and> list_all (\<lambda>c. str_len c \<le> 255) (txt_chunks v)"
proof -
  have l: "concat (txt_loop v) = v \<and> list_all (\<lambda>c. str_len c \<le> 255) (txt_loop v)"
  proof (induction v rule: txt_loop.induct)
    case (1 v)
    show ?case
    proof (cases "v = []")
      case False
      note IH = 1 [OF False]
      have "take_bytes 255 v @ drop (length (take_bytes 255 v)) v = v" by (metis append_take_drop_id take_bytes_prefix)
      with IH False take_bytes_len [of 255 v] show ?thesis by (subst (1 2) txt_loop.simps) simp
    qed (simp add: txt_loop.simps)
  qed
  then show ?thesis by (cases "txt_loop v = []") (auto simp: txt_chunks_def Let_def str_len_def)
qed


section \<open>Behaviours worth knowing\<close>

text \<open>A rewrite that an exception cancels takes a plain block rule for the same name with it: with the block rule
  alone the name is blocked, with the cancelled rewrite in front of it the name is resolved.\<close>

definition cancelled_rules :: "rule list" where
  "cancelled_rules = fst (parse_rules (\<lambda>_. None) (\<lambda>_. None)
     (lit ''||ads.example^$dnsrewrite=1.2.3.4'' @ [10] @ lit ''@@||ads.example^$dnsrewrite=1.2.3.4'' @ [10] @ lit ''||ads.example^'')
     (lit ''l''))"

lemma cancelled_rewrite_unblocks:
  "let R = make_request demo_env ads_query (hd (ms_queries ads_query)) (ctx_new (V4 1)) policy_default demo_shared;
       cancelled = demo_shared\<lparr>sh_filter := (sh_filter demo_shared)\<lparr>he_snapshot := the (snapshot_compile (pv_matchers demo_env) cancelled_rules)\<rparr>\<rparr>
   in (case decide_stages demo_env demo_shared R of Some (Answered o1) \<Rightarrow> qo_verdict o1 = lit ''blocked'' | _ \<Rightarrow> False) \<and>
      (case decide_stages demo_env cancelled R of Some (Continue False) \<Rightarrow> True | _ \<Rightarrow> False)"
  by code_simp

text \<open>A DNSKEY query without DO gets an empty answer, although the upstream returned the key.\<close>

lemma dnskey_without_do:
  "let query = sample_query\<lparr>ms_queries := [sample_question\<lparr>qu_type := 48\<rparr>]\<rparr>;
       key = \<lparr>rr_name = lit ''a.example'', rr_ttl = 300, rr_data = OtherData 48 []\<rparr>;
       E = demo_env\<lparr>pv_resolve := (\<lambda>_ q. Some (sample_response\<lparr>ms_queries := ms_queries q, ms_answers := [key]\<rparr>, lit ''up''))\<rparr>
   in map_option (\<lambda>(_, r, _). (ms_rcode r, length (ms_answers r))) (handle E query (ctx_new (V4 1)) demo_shared) = Some (rcode_noerror, 0)"
  by code_simp

text \<open>An answer found bogus in the log-only mode is stored as indeterminate; after a switch to the strict mode it
  is still served from the cache.\<close>

lemma bogus_kept_across_modes:
  assumes "fst dec = OBogus reason code"
  shows "ms_answers (fst (settle D LogOnly now dec m)) = ms_answers m"
    and "cache_entry_servable (validation_status (Some (snd (settle D LogOnly now dec m)))) True"
    and "ms_answers (fst (settle D Validate now dec m)) = []"
  using assms by (cases dec; simp add: settle_def handle_bogus_def apply_ede_def cache_entry_servable_def validation_status_def Let_def)+

end
