(* ===== verification/Spec2Isabelle.thy ===== *)
theory Spec2Isabelle
  imports Lifecycle_Correct Cache_Correct Ip_Classes Rewrite_Correct Message_Wire Lists_Correct Registry_Correct Denial_Correct Pipeline_Limits
begin

text \<open>
  \<^bold>\<open>sito-dns: a verification development.\<close>

  sito-dns is a filtering DNS resolver.  A query arrives at a listener (\<^verbatim>\<open>sito-transport\<close>), is
  handled by the query pipeline (\<^verbatim>\<open>crates/sito/src/pipeline.rs\<close>), and a response leaves.  The
  pipeline identifies the client (\<^verbatim>\<open>sito-clients\<close>), asks the filter engine (\<^verbatim>\<open>sito-filter\<close>), the
  curated lists and the local rewrites (\<^verbatim>\<open>sito-rewrites\<close>) for a verdict, and only if none of them
  answers it consults the response cache (\<^verbatim>\<open>sito-cache\<close>) and the upstreams (\<^verbatim>\<open>sito-upstream\<close>),
  applies the DNSSEC decision (\<^verbatim>\<open>sito-dnssec\<close>), checks the answer again and stores it.  All of it is
  driven by a validated configuration (\<^verbatim>\<open>sito-core\<close>).

  \<^bold>\<open>Conventions.\<close>  A Rust string is the list of its code points (\<open>rstr\<close>; \<open>utf8\<close> gives its bytes);
  addresses are words; machine integers are naturals with the bound or the wrap-around written out
  where it matters.  Panics and errors are values (\<open>None\<close>, or the error datatype of the
  component).  Shared state is passed explicitly.  Third-party code (hickory-proto, moka, idna,
  regex-automata, aho-corasick, the clock, the network) is a parameter: a record of functions
  (\<open>dns_lib\<close>, \<open>name_lib\<close>, \<open>engines\<close>, \<open>pipe_env\<close> and others) of which the theorems assume only
  documented behaviour, as named premises; each such theorem has a witness with concrete functions.

  \<^bold>\<open>Theories.\<close>

  \<^item> \<^verbatim>\<open>Sito_Prelude\<close>, \<^verbatim>\<open>Rust_Net\<close>, \<^verbatim>\<open>Ipv6_Text\<close>: strings and their splitting, trimming, number
    parsing; \<^verbatim>\<open>std::net\<close> addresses, their parser and printer with the round trip for all forms.
  \<^item> \<^verbatim>\<open>Core_Types\<close>: client context, verdicts (\<^verbatim>\<open>sito-core/src/{client,verdict}.rs\<close>).
  \<^item> \<^verbatim>\<open>Config_Model\<close>, \<^verbatim>\<open>Config_Validate\<close>, \<^verbatim>\<open>Config_Correct\<close>: \<^verbatim>\<open>sito-core/src/config.rs\<close> and
    \<^verbatim>\<open>error.rs\<close>; validation accepts exactly the configurations of a declarative specification.
  \<^item> \<^verbatim>\<open>Ip_Classes\<close>: \<^verbatim>\<open>sito-core/src/ssrf.rs\<close>; the denied outbound targets are exactly the listed
    networks, embedded IPv4 addresses included.
  \<^item> \<^verbatim>\<open>Domain_Names\<close>: \<^verbatim>\<open>sito-core/src/domain.rs\<close>, \<^verbatim>\<open>sito-proto/src/normalize.rs\<close>.
  \<^item> \<^verbatim>\<open>Rule_Syntax\<close>, \<^verbatim>\<open>Rule_Parser\<close>, \<^verbatim>\<open>Client_Roundtrip\<close>, \<^verbatim>\<open>Rule_Invariants\<close>:
    \<^verbatim>\<open>sito-filter/src/parser.rs\<close>; every parsed rule is well formed, no modifier is lost, the
    canonical text of a client filter parses back.
  \<^item> \<^verbatim>\<open>Arena_Trie\<close>, \<^verbatim>\<open>Label_Trie\<close>: \<^verbatim>\<open>structures/{interner,trie}.rs\<close>.  The locale \<open>arena_trie\<close>
    states what a vector of nodes needs to be a trie and is interpreted for both node types.
  \<^item> \<^verbatim>\<open>Rule_Compile\<close>, \<^verbatim>\<open>Compile_Correct\<close>, \<^verbatim>\<open>Filter_Snapshot\<close>, \<^verbatim>\<open>Filter_Correct\<close>:
    \<^verbatim>\<open>structures/compiled.rs\<close> and \<^verbatim>\<open>FilterSnapshot\<close> of \<^verbatim>\<open>engine.rs\<close>; the compiled snapshot refines
    the abstract decision \<open>decides\<close> over the plain rule list, for every hash iteration order.
  \<^item> \<^verbatim>\<open>Filter_Lifecycle\<close>, \<^verbatim>\<open>Lifecycle_Correct\<close>: \<^verbatim>\<open>HostsFilterEngine\<close>; a step relation over
    reloads, refreshes and group changes, its invariant by rule induction, the drop guard, failing
    closed, and progress of the refresh schedule.
  \<^item> \<^verbatim>\<open>Dns_Message\<close>, \<^verbatim>\<open>Message_Wire\<close>: messages; \<^verbatim>\<open>sito-proto/src/wire.rs\<close>, the synthesized
    responses and block padding.
  \<^item> \<^verbatim>\<open>Dns_Cache\<close>, \<^verbatim>\<open>Cache_Correct\<close>: \<^verbatim>\<open>sito-cache/src/{key,entry,cache}.rs\<close>; properties over
    arbitrary histories of operations and evictions.
  \<^item> \<^verbatim>\<open>Rewrite_Table\<close>, \<^verbatim>\<open>Rewrite_Correct\<close>: \<^verbatim>\<open>sito-rewrites/src/{config,table}.rs\<close>.
  \<^item> \<^verbatim>\<open>Client_Lists\<close>, \<^verbatim>\<open>Lists_Correct\<close>: \<^verbatim>\<open>parental.rs\<close>, \<^verbatim>\<open>services.rs\<close>, \<^verbatim>\<open>runtime_lists.rs\<close>,
    \<^verbatim>\<open>safe_search.rs\<close>, \<^verbatim>\<open>bundled.rs\<close> of \<^verbatim>\<open>sito-clients\<close> and \<^verbatim>\<open>sito-filter/src/anti_bypass.rs\<close>.
  \<^item> \<^verbatim>\<open>Client_Registry\<close>, \<^verbatim>\<open>Registry_Correct\<close>: \<^verbatim>\<open>mac.rs\<close>, \<^verbatim>\<open>policy.rs\<close>, \<^verbatim>\<open>config.rs\<close>,
    \<^verbatim>\<open>registry.rs\<close> and the schedule evaluation of \<^verbatim>\<open>schedule.rs\<close>.
  \<^item> \<^verbatim>\<open>Dnssec_Outcome\<close>: how \<^verbatim>\<open>sito-dnssec/src/lib.rs\<close> applies a decision to a message.
  \<^item> \<^verbatim>\<open>Denial_Proofs\<close>, \<^verbatim>\<open>Denial_Correct\<close>: \<^verbatim>\<open>sito-dnssec/src/{nsec,nsec3}.rs\<close> and \<^verbatim>\<open>evaluate_denial\<close>; an
    accepted proof is true of the zone that signed it, stated over a zone's names, their types and the
    unsigned delegations that opt-out may hide.  The lemmas ending in \<open>_gap\<close> show what the proofs let
    pass: names below a delegation, names without records of their own, labels that sort before \<open>*\<close>.
  \<^item> \<^verbatim>\<open>Query_Pipeline\<close>: \<^verbatim>\<open>crates/sito/src/pipeline.rs\<close> whole.  The shared state is the record
    \<open>shared\<close>; \<open>handle\<close> composes the stages as the source does, and at each await point the function
    \<open>pv_others\<close> may replace the shared state by what other tasks made of it.
  \<^item> \<^verbatim>\<open>Pipeline_Correct\<close>, \<^verbatim>\<open>Pipeline_Properties\<close>, \<^verbatim>\<open>Pipeline_Safety\<close>, \<^verbatim>\<open>Pipeline_Limits\<close>: the
    locale \<open>shared_invariant\<close> is the contract of an invariant every task keeps (rely-guarantee); it
    shows that each response has an \<open>origin\<close> (made locally, cached, stale, upstream).
    \<open>total_invariant\<close> extends it with absence of panics.  They are interpreted for the
    cache contents (\<open>traced\<close>), the rules in force (\<open>still\<close>), totality of the filter (\<open>sound\<close>) and
    the trivial invariant (\<open>free\<close>).

  \<^bold>\<open>How the parts meet.\<close>  The pipeline theorems use the filter, cache, registry and rewrite models
  themselves, not abstractions of them: \<open>blocked_never_resolved\<close> speaks of the verdict of the
  compiled snapshot, \<open>filter_total\<close> follows from the compile theorems, the cache properties of the
  pipeline extend the traces of \<^verbatim>\<open>Cache_Correct\<close>, and \<open>negative_within_proof\<close> follows a denial
  from \<open>apply_authenticated_ttls\<close> into the entry the cache keeps.

  \<^bold>\<open>Bounds.\<close>  The source's own bounds are kept: 16 steps when following aliases in the cache and in the
  validator, depth 8 in the rewrite table, batches of 128 regular expressions and at most 512
  batches, 64 permits for background refreshes, 1024 discovered clients, 4096 entries in each MAC table.  Loops
  without such a bound recurse on a list or have a termination proof by measure (regex batch
  splitting halves its batch).  The two walks of the
  denial proofs end only if the parent of a name is shorter: they are partial functions in the option
  monad, and \<open>evaluate_denial_returns\<close> shows that they return.  Await points of \<open>handle\<close> are numbered in
  the order in which they are reached.  Arithmetic that saturates or wraps in the source does so in
  the model.

  \<^bold>\<open>Not modelled.\<close>  The rest of a DNSSEC decision (trust anchors, key chains, signature checks, the chain cache)
  rests on hickory's cryptography and on fetching keys: the decision is the parameter \<open>pv_decide\<close>.  Upstream selection and the upstream and listener
  protocols: sockets, TLS, HTTP and QUIC around calls of the modelled code; the listener rate limiter
  computes in floating point.  List downloads: the result of a fetch is a parameter of the lifecycle.
  Cron expressions and time zones: third-party crates.  Query log, statistics and metrics: SQL and
  counters that nothing modelled reads back.  Authentication: database statements, Argon2, TOTP and sealed secrets.  The REST and web interfaces, the updater,
  high availability and server start-up: request decoding, files, signatures and process control.
  Tracing output and timings are left out everywhere.
\<close>

end
